(* ===== verification/Prelude.thy ===== *)
theory Prelude
  imports Main "HOL-Library.Char_ord" "HOL-Library.List_Lexorder"
begin

text \<open>
  What every component of the development shares: instants and durations, the parts of
  Python's \<open>str\<close> that the code uses, the result type of an operation that may raise, and the
  row operations of a database table with their lemmas.

  Instants are microseconds since an epoch (the resolution of Python's \<open>datetime\<close>), so an
  \<open>int\<close>; a \<open>timedelta(seconds=n)\<close> is \<open>seconds n\<close>. A string is a list of characters with
  code points below 256; nothing in the modelled code depends on a code point above that.
  Rows live in lists in the order they were created, which is the order of their primary
  keys (\<open>app.core.ids.uuid7\<close> is time-sortable).
\<close>

named_theorems row_simps \<open>equations of the table operations\<close>
named_theorems access_defs \<open>definitions of the operations of the authorization server\<close>

section \<open>Instants\<close>

type_synonym instant = int
type_synonym row_id = nat

definition seconds :: "int \<Rightarrow> int" where
  "seconds n = n * 1000000"

definition int_seconds :: "int \<Rightarrow> int" where
  \<comment> \<open>\<open>int(delta.total_seconds())\<close>: truncation towards zero\<close>
  "int_seconds d = sgn d * (\<bar>d\<bar> div 1000000)"

definition round_seconds :: "int \<Rightarrow> int" where
  \<comment> \<open>\<open>round(delta.total_seconds())\<close>: to the nearest, ties to the even neighbour\<close>
  "round_seconds d =
     (let q = d div 1000000; r = d mod 1000000
      in if 2 * r < 1000000 then q
         else if 2 * r > 1000000 then q + 1
         else if even q then q else q + 1)"

lemma int_seconds_seconds [simp]: "int_seconds (seconds n) = n"
  by (cases "n = 0"; cases "0 < n") (simp_all add: int_seconds_def seconds_def abs_mult)

lemma int_seconds_nonneg: "0 \<le> d \<Longrightarrow> int_seconds d = d div 1000000"
  by (cases "d = 0") (simp_all add: int_seconds_def)

lemma seconds_mono [simp]: "seconds a \<le> seconds b \<longleftrightarrow> a \<le> b" "seconds a < seconds b \<longleftrightarrow> a < b"
  by (simp_all add: seconds_def)

lemma seconds_pos [simp]: "0 < seconds a \<longleftrightarrow> 0 < a" "0 \<le> seconds a \<longleftrightarrow> 0 \<le> a"
  by (simp_all add: seconds_def)

section \<open>Python strings\<close>

abbreviation newline :: char where
  "newline \<equiv> CHR 0x0A"

definition ascii_only :: "string \<Rightarrow> string" where
  \<comment> \<open>\<open>s.encode(''ascii'', ''ignore'')\<close>\<close>
  "ascii_only s = filter (\<lambda>c. (of_char c :: nat) < 128) s"

definition is_ascii :: "string \<Rightarrow> bool" where
  "is_ascii s \<longleftrightarrow> list_all (\<lambda>c. (of_char c :: nat) < 128) s"

definition is_space :: "char \<Rightarrow> bool" where
  \<comment> \<open>\<open>str.isspace\<close> on one character\<close>
  "is_space c \<longleftrightarrow> (let n = (of_char c :: nat)
     in 9 \<le> n \<and> n \<le> 13 \<or> 28 \<le> n \<and> n \<le> 32 \<or> n = 133 \<or> n = 160)"

definition strip_by :: "(char \<Rightarrow> bool) \<Rightarrow> string \<Rightarrow> string" where
  "strip_by p s = rev (dropWhile p (rev (dropWhile p s)))"

definition strip :: "string \<Rightarrow> string" where
  "strip s = strip_by is_space s"

definition rstrip_char :: "char \<Rightarrow> string \<Rightarrow> string" where
  "rstrip_char c s = rev (dropWhile (\<lambda>x. x = c) (rev s))"

fun split_words :: "string \<Rightarrow> string \<Rightarrow> string list" where
  \<comment> \<open>\<open>str.split()\<close>; the first argument is the word read so far, reversed\<close>
  "split_words acc [] = (if acc = [] then [] else [rev acc])"
| "split_words acc (c # cs) =
     (if is_space c then (if acc = [] then split_words [] cs else rev acc # split_words [] cs)
      else split_words (c # acc) cs)"

definition words :: "string \<Rightarrow> string list" where
  "words s = split_words [] s"

fun join_words :: "string list \<Rightarrow> string" where
  \<comment> \<open>\<open>'' ''.join(parts)\<close>\<close>
  "join_words [] = []"
| "join_words [w] = w"
| "join_words (w # v # ws) = w @ CHR '' '' # join_words (v # ws)"

definition partition_at :: "char \<Rightarrow> string \<Rightarrow> string \<times> bool \<times> string" where
  \<comment> \<open>\<open>s.partition(c)\<close>, the separator as whether it was found\<close>
  "partition_at c s =
     (let a = takeWhile (\<lambda>x. x \<noteq> c) s
      in case dropWhile (\<lambda>x. x \<noteq> c) s of [] \<Rightarrow> (a, False, []) | _ # b \<Rightarrow> (a, True, b))"

definition in_range :: "string \<Rightarrow> nat \<Rightarrow> nat \<Rightarrow> (char \<Rightarrow> bool) \<Rightarrow> bool" where
  "in_range s lo hi p \<longleftrightarrow> list_all p s \<and> lo \<le> length s \<and> length s \<le> hi"

definition re_match :: "(char \<Rightarrow> bool) \<Rightarrow> nat \<Rightarrow> nat \<Rightarrow> string \<Rightarrow> bool" where
  \<comment> \<open>\<open>re.compile(''^[cls]{lo,hi}$'').match(s)\<close>: Python's \<open>$\<close> also matches before one final newline\<close>
  "re_match p lo hi s \<longleftrightarrow>
     in_range s lo hi p \<or> (s \<noteq> [] \<and> last s = newline \<and> in_range (butlast s) lo hi p)"

definition re_fullmatch :: "(char \<Rightarrow> bool) \<Rightarrow> nat \<Rightarrow> nat \<Rightarrow> string \<Rightarrow> bool" where
  "re_fullmatch p lo hi s \<longleftrightarrow> in_range s lo hi p"

definition is_word :: "string \<Rightarrow> bool" where
  "is_word w \<longleftrightarrow> w \<noteq> [] \<and> list_all (\<lambda>c. \<not> is_space c) w"

lemma split_words_word:
  "list_all (\<lambda>c. \<not> is_space c) w \<Longrightarrow> split_words acc (w @ rest) = split_words (rev w @ acc) rest"
  by (induction w arbitrary: acc) auto

lemma words_join: "list_all is_word ws \<Longrightarrow> words (join_words ws) = ws"
proof (induction ws rule: join_words.induct)
  case (2 w)
  then show ?case using split_words_word [of w "[]" "[]"] by (simp add: words_def is_word_def)
next
  case (3 w v ws)
  then have IH: "split_words [] (join_words (v # ws)) = v # ws" by (simp add: words_def)
  have sp: "is_space CHR '' ''" by (simp add: is_space_def)
  from 3(2) show ?case
    using split_words_word [of w "[]" "CHR '' '' # join_words (v # ws)"]
    by (simp add: words_def is_word_def sp IH)
qed (simp add: words_def)

lemma split_words_are_words:
  "list_all (\<lambda>c. \<not> is_space c) acc \<Longrightarrow> w \<in> set (split_words acc s) \<Longrightarrow> is_word w"
proof (induction s arbitrary: acc)
  case Nil
  then show ?case by (cases "acc = []") (simp_all add: is_word_def list_all_iff)
next
  case (Cons c cs)
  show ?case
  proof (cases "is_space c")
    case True
    with Cons.prems have "w = rev acc \<and> acc \<noteq> [] \<or> w \<in> set (split_words [] cs)"
      by (simp split: if_splits)
    then show ?thesis
    proof
      assume "w = rev acc \<and> acc \<noteq> []"
      with Cons.prems(1) show ?thesis by (simp add: is_word_def list_all_iff)
    next
      assume "w \<in> set (split_words [] cs)"
      then show ?thesis using Cons.IH [of "[]"] by simp
    qed
  next
    case False
    with Cons.prems show ?thesis using Cons.IH [of "c # acc"] by simp
  qed
qed

lemma words_are_words [intro]: "w \<in> set (words s) \<Longrightarrow> is_word w"
  using split_words_are_words [of "[]" w s] by (simp add: words_def)

lemma re_fullmatch_match: "re_fullmatch p lo hi s \<Longrightarrow> re_match p lo hi s"
  by (simp add: re_match_def re_fullmatch_def)

lemma ascii_only_id: "is_ascii s \<Longrightarrow> ascii_only s = s"
  by (simp add: is_ascii_def ascii_only_def list_all_iff)

section \<open>Raised errors and transactions\<close>

text \<open>
  An operation that may raise answers \<open>Inl\<close> of what it raised; \<open>Refused\<close> carries the reason of a
  refusal the code raises itself (\<open>GrantRefused\<close>), the other two are Django's.
  \<open>atomic\<close> is \<open>transaction.atomic()\<close>: an exception that leaves the block rolls the state back.
\<close>

datatype 'r exn = Refused 'r | IntegrityError | DoesNotExist

definition atomic :: "('s \<Rightarrow> ('r exn + 'a) \<times> 's) \<Rightarrow> 's \<Rightarrow> ('r exn + 'a) \<times> 's" where
  "atomic block s = (case block s of (Inl e, _) \<Rightarrow> (Inl e, s) | (Inr a, s') \<Rightarrow> (Inr a, s'))"

lemma atomic_raise: "atomic block s = (Inl e, s') \<Longrightarrow> s' = s"
  by (auto simp: atomic_def split: prod.splits sum.splits)

lemma atomic_return: "atomic block s = (Inr a, s') \<longleftrightarrow> block s = (Inr a, s')"
  by (auto simp: atomic_def split: prod.splits sum.splits)

lemma atomic_preserves:
  assumes "P s" and "\<And>a s'. block s = (Inr a, s') \<Longrightarrow> P s'"
  shows "P (snd (atomic block s))"
  using assms by (auto simp: atomic_def split: prod.splits sum.splits)

section \<open>Tables\<close>

definition update_where :: "('a \<Rightarrow> bool) \<Rightarrow> ('a \<Rightarrow> 'a) \<Rightarrow> 'a list \<Rightarrow> 'a list" where
  \<comment> \<open>\<open>objects.filter(p).update(...)\<close>, and a row's \<open>save(update_fields=...)\<close>\<close>
  "update_where p f rows = map (\<lambda>r. if p r then f r else r) rows"

definition first_where :: "('a \<Rightarrow> bool) \<Rightarrow> 'a list \<Rightarrow> 'a option" where
  \<comment> \<open>\<open>objects.filter(p).first()\<close>\<close>
  "first_where p rows = List.find p rows"

definition count_where :: "('a \<Rightarrow> bool) \<Rightarrow> 'a list \<Rightarrow> nat" where
  "count_where p rows = length (filter p rows)"

definition unique_on :: "('a \<Rightarrow> 'k) \<Rightarrow> 'a list \<Rightarrow> bool" where
  \<comment> \<open>a \<open>unique=True\<close> column\<close>
  "unique_on k rows \<longleftrightarrow> distinct (map k rows)"

definition unique_when :: "('a \<Rightarrow> bool) \<Rightarrow> ('a \<Rightarrow> 'k) \<Rightarrow> 'a list \<Rightarrow> bool" where
  \<comment> \<open>a \<open>UniqueConstraint\<close> with a condition\<close>
  "unique_when p k rows \<longleftrightarrow> distinct (map k (filter p rows))"

lemma update_where_Nil [row_simps, simp]: "update_where p f [] = []"
  by (simp add: update_where_def)

lemma update_where_Cons [row_simps]:
  "update_where p f (r # rows) = (if p r then f r else r) # update_where p f rows"
  by (simp add: update_where_def)

lemma update_where_append [row_simps]:
  "update_where p f (xs @ ys) = update_where p f xs @ update_where p f ys"
  by (simp add: update_where_def)

lemma in_update_where [row_simps]:
  "r \<in> set (update_where p f rows) \<longleftrightarrow>
     (\<exists>s \<in> set rows. r = (if p s then f s else s))"
  by (auto simp: update_where_def)

lemma ball_update_where:
  "(\<forall>r \<in> set (update_where p f rows). Q r) \<longleftrightarrow> (\<forall>s \<in> set rows. Q (if p s then f s else s))"
  by (auto simp: update_where_def)

lemma bex_update_where:
  "(\<exists>r \<in> set (update_where p f rows). Q r) \<longleftrightarrow> (\<exists>s \<in> set rows. Q (if p s then f s else s))"
  by (auto simp: update_where_def)

lemma first_where_update:
  "(\<And>r. q (f r) = q r) \<Longrightarrow>
     first_where q (update_where p f rows) = map_option (\<lambda>r. if p r then f r else r) (first_where q rows)"
  by (induction rows) (auto simp: update_where_def first_where_def)

lemma map_update_where:
  "(\<And>r. r \<in> set rows \<Longrightarrow> p r \<Longrightarrow> k (f r) = k r) \<Longrightarrow> map k (update_where p f rows) = map k rows"
  by (induction rows) (auto simp: row_simps)

lemma unique_on_update:
  "(\<And>r. r \<in> set rows \<Longrightarrow> p r \<Longrightarrow> k (f r) = k r) \<Longrightarrow>
     unique_on k (update_where p f rows) \<longleftrightarrow> unique_on k rows"
  by (simp add: unique_on_def map_update_where)

lemma unique_on_snoc [row_simps]:
  "unique_on k (rows @ [r]) \<longleftrightarrow> unique_on k rows \<and> k r \<notin> k ` set rows"
  by (auto simp: unique_on_def)

lemma unique_onD: "unique_on k rows \<Longrightarrow> r \<in> set rows \<Longrightarrow> s \<in> set rows \<Longrightarrow> k r = k s \<Longrightarrow> r = s"
  by (auto simp: unique_on_def distinct_map inj_on_def)

lemma unique_when_snoc [row_simps]:
  "unique_when p k (rows @ [r]) \<longleftrightarrow>
     unique_when p k rows \<and> (p r \<longrightarrow> (\<forall>s \<in> set rows. p s \<longrightarrow> k s \<noteq> k r))"
  unfolding unique_when_def by (auto dest: sym)

lemma unique_when_Cons [row_simps]:
  "unique_when p k (r # rows) \<longleftrightarrow>
     unique_when p k rows \<and> (p r \<longrightarrow> (\<forall>s \<in> set rows. p s \<longrightarrow> k s \<noteq> k r))"
  unfolding unique_when_def by (auto dest: sym)

lemma unique_when_update:
  assumes "unique_when p k rows"
    and "\<And>r. r \<in> set rows \<Longrightarrow> q r \<Longrightarrow> p (f r) \<Longrightarrow> p r \<and> k (f r) = k r"
  shows "unique_when p k (update_where q f rows)"
  using assms
proof (induction rows)
  case (Cons a rows)
  have tail: "unique_when p k (update_where q f rows)"
    using Cons.prems by (intro Cons.IH) (simp_all add: unique_when_Cons)
  let ?g = "\<lambda>s. if q s then f s else s"
  have fresh: "k s \<noteq> k (?g a)" if s: "s \<in> set (update_where q f rows)" "p s" "p (?g a)" for s
  proof -
    obtain t where t: "t \<in> set rows" "s = ?g t" using s(1) by (auto simp: in_update_where)
    have "p t \<and> k s = k t" using s(2) t Cons.prems(2) [of t] by (auto split: if_splits)
    moreover have "p a \<and> k (?g a) = k a" using s(3) Cons.prems(2) [of a] by (auto split: if_splits)
    ultimately show ?thesis using Cons.prems(1) t(1) by (auto simp: unique_when_Cons)
  qed
  have "update_where q f (a # rows) = ?g a # update_where q f rows" by (simp add: update_where_Cons)
  then show ?case using tail fresh by (simp only: unique_when_Cons) blast
qed (simp add: unique_when_def)

lemma unique_whenD:
  "unique_when p k rows \<Longrightarrow> r \<in> set rows \<Longrightarrow> s \<in> set rows \<Longrightarrow> p r \<Longrightarrow> p s \<Longrightarrow> k r = k s \<Longrightarrow> r = s"
  by (auto simp: unique_when_def distinct_map inj_on_def)

lemma first_where_Some [dest]: "first_where p rows = Some r \<Longrightarrow> r \<in> set rows \<and> p r"
  by (auto simp: first_where_def find_Some_iff)

lemma first_where_None: "first_where p rows = None \<longleftrightarrow> (\<forall>r \<in> set rows. \<not> p r)"
  by (auto simp: first_where_def find_None_iff)

lemma first_where_only:
  assumes "r \<in> set rows" "p r" and "\<And>x. x \<in> set rows \<Longrightarrow> p x \<Longrightarrow> x = r"
  shows "first_where p rows = Some r"
proof (cases "first_where p rows")
  case None
  then show ?thesis using assms(1,2) unfolding first_where_None by blast
next
  case (Some x)
  then show ?thesis using assms(3) first_where_Some [OF Some] by simp
qed

lemma first_where_simps [row_simps]:
  "first_where p [] = None"
  "first_where p (r # rows) = (if p r then Some r else first_where p rows)"
  by (simp_all add: first_where_def)

lemma first_where_append:
  "first_where p (xs @ ys) = (case first_where p xs of None \<Rightarrow> first_where p ys | Some r \<Rightarrow> Some r)"
  by (induction xs) (auto simp: row_simps)

lemma first_where_unique:
  assumes "unique_on k rows" and "r \<in> set rows"
  shows "first_where (\<lambda>s. k s = k r) rows = Some r"
proof (cases "first_where (\<lambda>s. k s = k r) rows")
  case None
  then show ?thesis using assms(2) by (auto simp: first_where_None)
next
  case (Some s)
  then show ?thesis using assms unique_onD [of k rows s r] by auto
qed

lemma count_where_0: "count_where p rows = 0 \<longleftrightarrow> (\<forall>r \<in> set rows. \<not> p r)"
  by (auto simp: count_where_def filter_empty_conv)

end
