(* ===== verification/Accounts.thy ===== *)
theory Accounts
  imports Prelude
begin

text \<open>
  Accounts, roles, capabilities and the read policy: \<open>app/accounts/enums.py\<close>,
  \<open>app/accounts/capabilities.py\<close>, the parts of \<open>app/accounts/models.py\<close> the policy reads, and
  \<open>app/core/authorization.py\<close>.

  A role is the value of the \<open>role\<close> column: the four the code knows, or \<open>OtherRole\<close> with the
  text that is there (\<open>OtherRole []\<close> is the empty string, which the code tests as "no role").
  Capability names and override values stay strings, because the code looks them up by name
  in dictionaries and ignores names it does not know. A \<open>Q\<close> object is the predicate it
  selects rows by. The per-request memo of \<open>active_break_glass_grant_id\<close> is not modelled
  (outside a request, which is its default, nothing is remembered), and the audit row of a
  break-glass read (\<open>app.audit\<close>) is the \<open>ByBreakGlass\<close> answer of \<open>read_basis\<close>.
\<close>

section \<open>Roles and accounts\<close>

datatype user_role = Specialist | DepartmentHead | Administrator | Reader | OtherRole string

record user =
  u_id :: row_id
  u_upn :: string
  u_display_name :: string
  u_role :: user_role
  u_active :: bool
  u_staff :: bool
  u_superuser :: bool
  u_synthetic :: bool
  u_epoch :: nat
  u_overrides :: "(string \<times> string) list option"
    \<comment> \<open>the JSON column: a dictionary with its values as text, or \<open>None\<close> for anything else\<close>

record break_glass =
  bg_id :: row_id
  bg_user :: row_id
  bg_starts_at :: instant
  bg_expires_at :: instant
  bg_revoked_at :: "instant option"

text \<open>Who the code is asked about: nobody (\<open>None\<close>, an anonymous visitor), the shared-gate
  sentinel, or an account.\<close>

datatype principal = Nobody | DepartmentViewer | Person user

definition no_role :: user_role where
  "no_role = OtherRole []"

fun acting_role :: "principal \<Rightarrow> user_role" where
  "acting_role DepartmentViewer = no_role"
| "acting_role Nobody = no_role"
| "acting_role (Person u) = (if u_active u then u_role u else no_role)"

definition roles_with_business_read :: "user_role list" where
  "roles_with_business_read = [Specialist, DepartmentHead, Reader]"

definition roles_with_business_write :: "user_role list" where
  "roles_with_business_write = [Specialist, DepartmentHead]"

definition bg_active_at :: "instant \<Rightarrow> break_glass \<Rightarrow> bool" where
  "bg_active_at moment g \<longleftrightarrow>
     bg_revoked_at g = None \<and> bg_starts_at g \<le> moment \<and> bg_expires_at g > moment"

definition active_break_glass_grant_id ::
  "break_glass list \<Rightarrow> instant \<Rightarrow> user \<Rightarrow> row_id option" where
  \<comment> \<open>newest first\<close>
  "active_break_glass_grant_id bgs now u =
     map_option bg_id (first_where (\<lambda>g. bg_active_at now g \<and> bg_user g = u_id u) (rev bgs))"

section \<open>Who reads and who writes business content\<close>

datatype read_basis = NoBasis | ByRole | ByBreakGlass row_id

definition read_basis_of :: "break_glass list \<Rightarrow> instant \<Rightarrow> principal \<Rightarrow> read_basis" where
  "read_basis_of bgs now p =
     (let role = acting_role p
      in if role = no_role then NoBasis
         else if role \<in> set roles_with_business_read then ByRole
         else case p of
             Person u \<Rightarrow>
               (case active_break_glass_grant_id bgs now u of
                  None \<Rightarrow> NoBasis | Some g \<Rightarrow> ByBreakGlass g)
           | _ \<Rightarrow> NoBasis)"

definition may_read_business_content :: "break_glass list \<Rightarrow> instant \<Rightarrow> principal \<Rightarrow> bool" where
  "may_read_business_content bgs now p \<longleftrightarrow> read_basis_of bgs now p \<noteq> NoBasis"

definition may_write_business_content :: "principal \<Rightarrow> bool" where
  "may_write_business_content p \<longleftrightarrow> acting_role p \<in> set roles_with_business_write"

definition is_department_head :: "principal \<Rightarrow> bool" where
  "is_department_head p \<longleftrightarrow> acting_role p = DepartmentHead"

definition may_review_historical_matches :: "principal \<Rightarrow> bool" where
  "may_review_historical_matches p \<longleftrightarrow> acting_role p = Administrator"

definition may_open_historical_review :: "break_glass list \<Rightarrow> instant \<Rightarrow> principal \<Rightarrow> bool" where
  "may_open_historical_review bgs now p \<longleftrightarrow>
     may_review_historical_matches p \<and> may_read_business_content bgs now p"

section \<open>Capabilities\<close>

abbreviation "cap_view_management \<equiv> ''department.view_management''"
abbreviation "cap_assign_work \<equiv> ''work.assign''"
abbreviation "cap_review_victories \<equiv> ''work_victory.review''"
abbreviation "cap_delete_matters \<equiv> ''matter.delete_permanently''"
abbreviation "cap_reference_data \<equiv> ''reference.manage''"
abbreviation "cap_manage_accounts \<equiv> ''accounts.manage''"
abbreviation "cap_delegate \<equiv> ''accounts.delegate''"
abbreviation "allow \<equiv> ''allow''"
abbreviation "deny \<equiv> ''deny''"

definition business_capabilities :: "string list" where
  "business_capabilities =
     [cap_view_management, cap_assign_work, cap_review_victories, cap_delete_matters,
      cap_reference_data]"

definition administrative_capabilities :: "string list" where
  "administrative_capabilities = [cap_manage_accounts, cap_delegate]"

definition all_capabilities :: "string list" where
  "all_capabilities = business_capabilities @ administrative_capabilities"

definition default_holders :: "(string \<times> user_role list) list" where
  "default_holders =
     [(cap_view_management, [DepartmentHead]),
      (cap_assign_work, [Specialist, DepartmentHead]),
      (cap_review_victories, [DepartmentHead]),
      (cap_delete_matters, [DepartmentHead]),
      (cap_reference_data, [DepartmentHead]),
      (cap_manage_accounts, []),
      (cap_delegate, [])]"

definition requires_business_write :: "string list" where
  "requires_business_write = [cap_assign_work, cap_review_victories, cap_delete_matters]"

definition prerequisites :: "(string \<times> string) list" where
  "prerequisites = [(cap_delegate, cap_manage_accounts)]"

definition every_role :: "user_role list" where
  "every_role = [Specialist, DepartmentHead, Administrator, Reader]"

definition grantable_to_roles :: "(string \<times> user_role list) list" where
  "grantable_to_roles =
     [(cap_view_management, [Specialist, DepartmentHead, Reader]),
      (cap_assign_work, [Specialist, DepartmentHead]),
      (cap_review_victories, [Specialist, DepartmentHead]),
      (cap_delete_matters, [Specialist, DepartmentHead]),
      (cap_reference_data, [Specialist, DepartmentHead, Administrator]),
      (cap_manage_accounts, every_role),
      (cap_delegate, every_role)]"

definition is_known :: "string \<Rightarrow> bool" where
  "is_known c \<longleftrightarrow> map_of default_holders c \<noteq> None"

definition role_default :: "user_role \<Rightarrow> string \<Rightarrow> bool" where
  "role_default r c \<longleftrightarrow>
     (case map_of default_holders c of None \<Rightarrow> False | Some rs \<Rightarrow> r \<in> set rs)"

definition may_be_granted_to :: "user_role \<Rightarrow> string \<Rightarrow> bool" where
  "may_be_granted_to r c \<longleftrightarrow>
     (case map_of grantable_to_roles c of None \<Rightarrow> False | Some rs \<Rightarrow> r \<in> set rs)"

definition is_administrative :: "string \<Rightarrow> bool" where
  "is_administrative c \<longleftrightarrow> c \<in> set administrative_capabilities"

definition clean_overrides :: "(string \<times> string) list option \<Rightarrow> (string \<times> string) list" where
  "clean_overrides raw =
     (case raw of None \<Rightarrow> []
      | Some items \<Rightarrow> filter (\<lambda>(name, value). is_known name \<and> value \<in> {allow, deny}) items)"

text \<open>The recursion of \<open>resolve_capability\<close> follows \<open>PREREQUISITES\<close>, which is one step deep.\<close>

definition prerequisite_depth :: "string \<Rightarrow> nat" where
  "prerequisite_depth c = (if c = cap_delegate then 1 else 0)"

function resolve_capability :: "user_role \<Rightarrow> (string \<times> string) list \<Rightarrow> string \<Rightarrow> bool" where
  "resolve_capability role overrides c =
     (if role = no_role \<or> \<not> is_known c then False
      else if c \<in> set requires_business_write \<and> role \<notin> set roles_with_business_write then False
      else if map_of overrides c = Some deny then False
      else if \<not> (if map_of overrides c = Some allow then may_be_granted_to role c
                else role_default role c) then False
      else case map_of prerequisites c of
             None \<Rightarrow> True | Some p \<Rightarrow> resolve_capability role overrides p)"
  by pat_completeness auto
termination
  by (relation "measure (\<lambda>(role, overrides, c). prerequisite_depth c)")
     (auto simp: prerequisites_def prerequisite_depth_def split: if_splits)

declare resolve_capability.simps [simp del]

definition capability_overrides :: "principal \<Rightarrow> (string \<times> string) list" where
  "capability_overrides p =
     (case p of Person u \<Rightarrow> clean_overrides (u_overrides u) | _ \<Rightarrow> clean_overrides None)"

definition has_capability :: "principal \<Rightarrow> string \<Rightarrow> bool" where
  "has_capability p c = resolve_capability (acting_role p) (capability_overrides p) c"

definition effective_capabilities :: "principal \<Rightarrow> string list" where
  "effective_capabilities p = filter (has_capability p) all_capabilities"

definition stored_role :: "principal \<Rightarrow> user_role" where
  "stored_role p =
     (case p of Person u \<Rightarrow> u_role u | _ \<Rightarrow> no_role)"

definition account_capabilities :: "principal \<Rightarrow> string list" where
  "account_capabilities p =
     filter (resolve_capability (stored_role p) (capability_overrides p)) all_capabilities"

definition is_technical_administrator_account :: "principal \<Rightarrow> bool" where
  "is_technical_administrator_account p \<longleftrightarrow> stored_role p = Administrator"

definition may_review_work_victory :: "principal \<Rightarrow> bool" where
  "may_review_work_victory p = has_capability p cap_review_victories"

definition may_view_department_management :: "principal \<Rightarrow> bool" where
  "may_view_department_management p = has_capability p cap_view_management"

definition may_assign_work :: "principal \<Rightarrow> bool" where
  "may_assign_work p = has_capability p cap_assign_work"

section \<open>Scopes and visibility\<close>

datatype visibility = VNormal | VRestricted | VOther string

record matter =
  m_id :: row_id
  m_visibility :: visibility
  m_owner :: "row_id option"
  m_collaborators :: "row_id list"

record child =
  c_matter :: matter
  c_override :: "visibility option"  \<comment> \<open>\<open>None\<close> is the blank override\<close>

text \<open>A row of a projection over several kinds of source: its kind, the live override that each
  field path reaches from it, and its Matter.\<close>

record projected =
  p_kind :: string
  p_override :: "string \<Rightarrow> visibility option"
  p_matter :: matter

record scope =
  sc_user :: "row_id option"
  sc_authenticated :: bool
  sc_by_role :: bool
  sc_grant :: "row_id option"

definition sees_all_restricted :: "scope \<Rightarrow> bool" where
  "sees_all_restricted sc \<longleftrightarrow> sc_by_role sc \<or> sc_grant sc \<noteq> None"

definition no_scope :: scope where
  "no_scope = \<lparr>sc_user = None, sc_authenticated = False, sc_by_role = False, sc_grant = None\<rparr>"

definition scope_for_user :: "break_glass list \<Rightarrow> instant \<Rightarrow> principal \<Rightarrow> scope" where
  "scope_for_user bgs now p =
     (let role = acting_role p
      in if role = no_role then no_scope
         else case p of
           Person u \<Rightarrow>
             (if role \<in> set roles_with_business_read
              then \<lparr>sc_user = Some (u_id u), sc_authenticated = True, sc_by_role = True,
                    sc_grant = None\<rparr>
              else case active_break_glass_grant_id bgs now u of
                None \<Rightarrow> no_scope
              | Some g \<Rightarrow> \<lparr>sc_user = Some (u_id u), sc_authenticated = True, sc_by_role = False,
                           sc_grant = Some g\<rparr>)
         | _ \<Rightarrow> no_scope)"

definition participates :: "scope \<Rightarrow> matter \<Rightarrow> bool" where
  "participates sc m \<longleftrightarrow>
     (if \<not> sc_authenticated sc then False
      else case sc_user sc of
        None \<Rightarrow> False
      | Some u \<Rightarrow> m_owner m = Some u \<or> u \<in> set (m_collaborators m))"

definition matter_visible :: "scope \<Rightarrow> matter \<Rightarrow> bool" where
  "matter_visible sc m \<longleftrightarrow>
     (if \<not> sc_authenticated sc then False
      else if sees_all_restricted sc then True
      else m_visibility m = VNormal \<or> participates sc m)"

definition unrestricted_override :: "visibility option \<Rightarrow> bool" where
  "unrestricted_override v \<longleftrightarrow> v = None \<or> v = Some VNormal"

definition child_is_normal :: "child \<Rightarrow> bool" where
  "child_is_normal c \<longleftrightarrow>
     m_visibility (c_matter c) = VNormal \<and> unrestricted_override (c_override c)"

definition child_visible :: "scope \<Rightarrow> child \<Rightarrow> bool" where
  "child_visible sc c \<longleftrightarrow>
     (if \<not> sc_authenticated sc then False
      else if sees_all_restricted sc then True
      else child_is_normal c \<or> participates sc (c_matter c))"

definition projected_visible ::
  "(string \<times> string option) list \<Rightarrow> scope \<Rightarrow> projected \<Rightarrow> bool" where
  "projected_visible kind_overrides sc r \<longleftrightarrow>
     (if \<not> sc_authenticated sc then False
      else if sees_all_restricted sc then True
      else if kind_overrides = [] then False
      else m_visibility (p_matter r) = VNormal \<and>
           list_ex (\<lambda>(kind, field). p_kind r = kind \<and>
              (case field of None \<Rightarrow> True | Some f \<Rightarrow> unrestricted_override (p_override r f)))
             kind_overrides
         \<or> participates sc (p_matter r))"

definition effective_visibility :: "child \<Rightarrow> visibility" where
  "effective_visibility c =
     (if m_visibility (c_matter c) = VRestricted then VRestricted
      else if c_override c = Some VRestricted then VRestricted
      else VNormal)"

text \<open>The Python side of the same derivation (\<open>app/core/enums.py\<close> and the
  \<open>effective_visibility\<close> property of \<open>VisibilityInheritingModel\<close>).\<close>

definition restrictiveness :: "visibility \<Rightarrow> nat" where
  "restrictiveness v = (case v of VNormal \<Rightarrow> 0 | VRestricted \<Rightarrow> 10 | VOther _ \<Rightarrow> 10)"

definition is_known_visibility :: "visibility \<Rightarrow> bool" where
  "is_known_visibility v \<longleftrightarrow> v \<in> {VNormal, VRestricted}"

definition most_restrictive :: "visibility \<Rightarrow> visibility list \<Rightarrow> visibility" where
  \<comment> \<open>of a first value and the others; \<open>max\<close> keeps the earlier of two equal ones\<close>
  "most_restrictive v vs =
     (if list_ex (\<lambda>w. \<not> is_known_visibility w) (v # vs) then VRestricted
      else fold (\<lambda>w best. if restrictiveness best < restrictiveness w then w else best) vs v)"

definition child_effective_visibility :: "child \<Rightarrow> visibility" where
  "child_effective_visibility c =
     most_restrictive (m_visibility (c_matter c))
       [case c_override c of None \<Rightarrow> VNormal | Some v \<Rightarrow> v]"

section \<open>Facts\<close>

lemmas capability_tables = default_holders_def grantable_to_roles_def requires_business_write_def
  prerequisites_def every_role_def is_known_def role_default_def may_be_granted_to_def
  roles_with_business_write_def roles_with_business_read_def no_role_def

lemma resolve_needs:
  "resolve_capability role overrides c \<Longrightarrow>
     role \<noteq> no_role \<and> is_known c \<and> map_of overrides c \<noteq> Some deny \<and>
     (c \<in> set requires_business_write \<longrightarrow> role \<in> set roles_with_business_write) \<and>
     (case map_of prerequisites c of None \<Rightarrow> True | Some p \<Rightarrow> resolve_capability role overrides p)"
  by (subst (asm) resolve_capability.simps) (auto split: if_splits)

lemma resolve_granted:
  "resolve_capability role overrides c \<Longrightarrow> role_default role c \<or> may_be_granted_to role c"
  by (subst (asm) resolve_capability.simps) (auto split: if_splits)

lemma default_is_known: "role_default role c \<Longrightarrow> is_known c"
  by (auto simp: role_default_def is_known_def split: option.splits)

lemma default_not_no_role: "role_default role c \<Longrightarrow> role \<noteq> no_role"
  by (auto simp: capability_tables split: if_splits option.splits)

lemma default_within_write:
  "role_default role c \<Longrightarrow> c \<in> set requires_business_write \<Longrightarrow> role \<in> set roles_with_business_write"
  by (auto simp: capability_tables split: if_splits option.splits)

lemma default_no_prerequisite: "role_default role c \<Longrightarrow> map_of prerequisites c = None"
  by (auto simp: capability_tables split: if_splits option.splits)

lemma resolve_default: "resolve_capability role [] c = role_default role c"
proof
  show "resolve_capability role [] c \<Longrightarrow> role_default role c"
    by (subst (asm) resolve_capability.simps) (auto split: if_splits)
  assume d: "role_default role c"
  then have "resolve_capability role [] c \<longleftrightarrow> True"
    by (subst resolve_capability.simps)
       (auto simp: default_is_known default_not_no_role default_no_prerequisite
             dest: default_within_write)
  then show "resolve_capability role [] c" by simp
qed

lemma read_basis_role: "read_basis_of bgs now p = ByRole \<longleftrightarrow> acting_role p \<in> set roles_with_business_read"
  by (auto simp: read_basis_of_def Let_def no_role_def roles_with_business_read_def
           split: principal.splits option.splits)

lemma scope_basis:
  "sc_authenticated (scope_for_user bgs now p) \<longleftrightarrow> may_read_business_content bgs now p"
  "sc_authenticated (scope_for_user bgs now p) \<Longrightarrow> sees_all_restricted (scope_for_user bgs now p)"
  by (cases p;
      auto simp: scope_for_user_def read_basis_of_def may_read_business_content_def no_scope_def
        sees_all_restricted_def Let_def no_role_def split: option.splits if_splits)+

section \<open>Properties\<close>


definition example_specialist :: user where
  "example_specialist =
     \<lparr>u_id = 1, u_upn = ''mari@koda.ee'', u_display_name = ''Mari Maasikas'', u_role = Specialist,
      u_active = True, u_staff = False, u_superuser = False, u_synthetic = False, u_epoch = 0,
      u_overrides = Some [(cap_manage_accounts, allow), (cap_delegate, allow)]\<rparr>"


text \<open>With no personal override every capability is held by exactly the roles the table of
  defaults names for it, so the checks of \<open>resolve_capability\<close> never narrow a default, and no
  role at all administers accounts by default.\<close>

theorem defaults_exactly:
  assumes "capability_overrides p = []"
  shows "has_capability p c = role_default (acting_role p) c
    \<and> \<not> has_capability p cap_manage_accounts \<and> \<not> has_capability p cap_delegate"
  using assms
  by (simp add: has_capability_def resolve_default) (simp add: role_default_def default_holders_def)

theorem defaults_exactly_witness:
  "has_capability (Person (example_specialist\<lparr>u_overrides := None\<rparr>)) cap_assign_work"
proof -
  let ?p = "Person (example_specialist\<lparr>u_overrides := None\<rparr>)"
  have h: "capability_overrides ?p = []" by (simp add: capability_overrides_def clean_overrides_def)
  show ?thesis using defaults_exactly [OF h, of cap_assign_work]
    by (simp add: role_default_def default_holders_def example_specialist_def)
qed

text \<open>C2: the scope of a person shows every Matter, every child record and every projected row,
  or none of them; which of the two is exactly what \<open>may_read_business_content\<close> answers.\<close>

theorem scope_all_or_nothing:
  "matter_visible (scope_for_user bgs now p) m = may_read_business_content bgs now p
   \<and> child_visible (scope_for_user bgs now p) c = may_read_business_content bgs now p
   \<and> projected_visible kos (scope_for_user bgs now p) r = may_read_business_content bgs now p"
  using scope_basis [of bgs now p]
  by (auto simp: matter_visible_def child_visible_def projected_visible_def)

text \<open>For any scope at all, also one built by hand, a child record is never more visible than
  its Matter, and a projected row is visible exactly when the child record it stands for is.\<close>

theorem child_never_wider:
  "(child_visible sc c \<longrightarrow> matter_visible sc (c_matter c))
   \<and> (projected_visible kos sc r \<longrightarrow> matter_visible sc (p_matter r))
   \<and> projected_visible [(k, Some f)] sc r =
       child_visible sc \<lparr>c_matter = p_matter r,
         c_override = (if p_kind r = k then p_override r f else Some VRestricted)\<rparr>"
  by (auto simp: child_visible_def matter_visible_def projected_visible_def child_is_normal_def
      unrestricted_override_def)

theorem child_never_wider_witness:
  "matter_visible \<lparr>sc_user = Some 7, sc_authenticated = True, sc_by_role = False, sc_grant = None\<rparr>
     \<lparr>m_id = 1, m_visibility = VRestricted, m_owner = Some 7, m_collaborators = []\<rparr>"
proof -
  let ?sc = "\<lparr>sc_user = Some 7, sc_authenticated = True, sc_by_role = False, sc_grant = None\<rparr>"
  let ?c = "\<lparr>c_matter = \<lparr>m_id = 1, m_visibility = VRestricted, m_owner = Some 7,
                m_collaborators = []\<rparr>, c_override = None\<rparr>"
  have "child_visible ?sc ?c" by (simp add: child_visible_def participates_def sees_all_restricted_def)
  then show ?thesis using child_never_wider [of ?sc ?c "[]"] by simp
qed

text \<open>The effective visibility the code computes in SQL and the one it computes in Python
  agree, and say "normal" exactly for the rows the authorization filter treats as normal, for
  every value of the two columns that the vocabulary knows.\<close>

theorem effective_visibility_agrees:
  assumes "m_visibility (c_matter c) \<in> {VNormal, VRestricted}"
    and "c_override c \<in> {None, Some VNormal, Some VRestricted}"
  shows "effective_visibility c = child_effective_visibility c
    \<and> (effective_visibility c = VNormal \<longleftrightarrow> child_is_normal c)"
  using assms
  by (auto simp: effective_visibility_def child_effective_visibility_def most_restrictive_def
      is_known_visibility_def restrictiveness_def child_is_normal_def unrestricted_override_def)

theorem effective_visibility_agrees_witness:
  "effective_visibility \<lparr>c_matter = \<lparr>m_id = 1, m_visibility = VNormal, m_owner = None,
     m_collaborators = []\<rparr>, c_override = Some VRestricted\<rparr> = VRestricted
   \<and> \<not> child_is_normal \<lparr>c_matter = \<lparr>m_id = 1, m_visibility = VNormal, m_owner = None,
     m_collaborators = []\<rparr>, c_override = Some VRestricted\<rparr>"
  using effective_visibility_agrees [of "\<lparr>c_matter = \<lparr>m_id = 1, m_visibility = VNormal,
     m_owner = None, m_collaborators = []\<rparr>, c_override = Some VRestricted\<rparr>"]
  by (simp add: effective_visibility_def)

end
