(* ===== verification/Config.thy ===== *)
theory Config
  imports Prelude
begin

text \<open>
  The configuration the authorization server reads (\<open>app/mcp_access/config.py\<close> over
  \<open>django.conf.settings\<close>) and the cryptographic functions it calls, which are third-party code:
  SHA-256, the base64url digest of PKCE, Fernet under a derived key, TOTP (\<open>pyotp\<close>) and the keyed
  derivation of a refresh token's successor. They are the fields of \<open>crypto\<close>, an argument of every
  definition that uses one; where a property needs one of their documented laws, the law is a
  named hypothesis of that property.
\<close>

record oauth_client =
  oc_client_id :: string
  oc_name :: string
  oc_redirect_uris :: "string list"
  oc_auth_methods :: "string list"
  oc_jwks_uri :: string

text \<open>A registered client as \<open>MCP_OAUTH_CLIENTS\<close> writes it; \<open>None\<close> where the entry is missing or is
  not a list of text.\<close>

record raw_client =
  rc_client_name :: "string option"
  rc_redirect_uris :: "string list option"
  rc_auth_methods :: "string list option"
  rc_jwks_uri :: "string option"

record settings =
  real_data_allowed :: bool
  mcp_enabled :: bool
  mcp_writes_enabled :: bool
  public_origin :: string
  read_scope_name :: string       \<comment> \<open>\<open>MCP_SCOPE\<close>\<close>
  write_scope_name :: string      \<comment> \<open>\<open>MCP_WRITE_SCOPE\<close>\<close>
  resource_urls :: "string list"
  oauth_clients :: "(string \<times> raw_client) list"
  enrol_path :: string            \<comment> \<open>\<open>reverse(''mcp_access:enrol'')\<close>\<close>
  token_path :: string
  enrolment_link_seconds :: int
  authorization_code_seconds :: int
  access_token_seconds :: int
  refresh_token_seconds :: int
  refresh_family_max_seconds :: int
  refresh_grace_seconds :: int
  authorize_throttle_seconds :: int
  authenticator_key :: string     \<comment> \<open>\<open>MCP_AUTHENTICATOR_KEY\<close>, \<open>''''\<close> when not set\<close>
  mfa_key :: string               \<comment> \<open>\<open>LOCAL_AUTH_MFA_ENCRYPTION_KEY\<close>\<close>
  token_derivation_key :: string  \<comment> \<open>\<open>MCP_TOKEN_DERIVATION_KEY\<close>\<close>
  secret_key :: string

record crypto =
  sha256 :: "string \<Rightarrow> string"
    \<comment> \<open>the hexadecimal digest of the bytes of an ASCII text\<close>
  pkce_digest :: "string \<Rightarrow> string"
    \<comment> \<open>base64url, without padding, of SHA-256\<close>
  fernet_encrypt :: "string \<times> string \<Rightarrow> string \<Rightarrow> string \<Rightarrow> string"
    \<comment> \<open>key material and label, a nonce, the secret\<close>
  fernet_decrypt :: "string \<times> string \<Rightarrow> string \<Rightarrow> string option"
  generate_otp :: "string \<Rightarrow> int \<Rightarrow> string"
    \<comment> \<open>secret and time step\<close>
  derive :: "string \<Rightarrow> string \<Rightarrow> string \<Rightarrow> string"
    \<comment> \<open>key material, label, presented token\<close>

section \<open>Origins, resources, scopes\<close>

abbreviation "auth_method_none \<equiv> ''none''"
abbreviation "auth_method_jwt \<equiv> ''private_key_jwt''"

definition supported_auth_methods :: "string list" where
  "supported_auth_methods = [auth_method_none, auth_method_jwt]"

definition issuer :: "settings \<Rightarrow> string" where
  "issuer cfg = rstrip_char CHR ''/'' (public_origin cfg)"

definition is_enabled :: "settings \<Rightarrow> bool" where
  "is_enabled cfg \<longleftrightarrow> mcp_enabled cfg \<and> issuer cfg \<noteq> []"

definition token_endpoint_url :: "settings \<Rightarrow> string" where
  "token_endpoint_url cfg = issuer cfg @ token_path cfg"

definition normalise_resource :: "string \<Rightarrow> string" where
  "normalise_resource value = rstrip_char CHR ''/'' (strip value)"

definition allowed_resources :: "settings \<Rightarrow> string list" where
  "allowed_resources cfg =
     filter (\<lambda>r. r \<noteq> []) (map normalise_resource (resource_urls cfg))"

definition resource_is_allowed :: "settings \<Rightarrow> string \<Rightarrow> bool" where
  "resource_is_allowed cfg value \<longleftrightarrow>
     (let normalised = normalise_resource value
      in normalised \<noteq> [] \<and> normalised \<in> set (allowed_resources cfg))"

section \<open>Registered clients\<close>

definition strings :: "string list option \<Rightarrow> string list" where
  "strings value = (case value of None \<Rightarrow> [] | Some items \<Rightarrow> filter (\<lambda>s. s \<noteq> []) items)"

definition client :: "settings \<Rightarrow> string \<Rightarrow> oauth_client option" where
  "client cfg cid =
     (case map_of (oauth_clients cfg) cid of
        None \<Rightarrow> None
      | Some raw \<Rightarrow>
          (let methods = (case strings (rc_auth_methods raw) of [] \<Rightarrow> [auth_method_none] | ms \<Rightarrow> ms);
               name = (case rc_client_name raw of None \<Rightarrow> cid | Some n \<Rightarrow> if n = [] then cid else n)
           in Some \<lparr>oc_client_id = cid, oc_name = name,
                    oc_redirect_uris = strings (rc_redirect_uris raw),
                    oc_auth_methods = filter (\<lambda>m. m \<in> set supported_auth_methods) methods,
                    oc_jwks_uri = (case rc_jwks_uri raw of None \<Rightarrow> [] | Some u \<Rightarrow> u)\<rparr>))"

definition advertised_auth_methods :: "settings \<Rightarrow> string list" where
  "advertised_auth_methods cfg =
     (let configured = concat (map (\<lambda>(cid, _).
        case client cfg cid of None \<Rightarrow> [] | Some c \<Rightarrow> oc_auth_methods c) (oauth_clients cfg))
      in filter (\<lambda>m. m \<in> set configured) [auth_method_jwt, auth_method_none])"

lemma client_id [simp]: "client cfg cid = Some c \<Longrightarrow> oc_client_id c = cid"
  by (auto simp: client_def Let_def split: option.splits)

end
