(* ===== verification/Credentials.thy ===== *)
theory Credentials
  imports Config
begin

text \<open>
  Opaque credentials and the personal authenticator's secret: \<open>app/mcp_access/credentials.py\<close> and
  the parts of \<open>app/accounts/mfa.py\<close> it uses. Random values (a fresh opaque token, a selector, a
  Fernet nonce) are arguments of the operations that draw them.
\<close>

section \<open>Shapes and digests\<close>

definition opaque_char :: "char \<Rightarrow> bool" where
  "opaque_char c \<longleftrightarrow> CHR ''A'' \<le> c \<and> c \<le> CHR ''Z'' \<or> CHR ''a'' \<le> c \<and> c \<le> CHR ''z'' \<or>
     CHR ''0'' \<le> c \<and> c \<le> CHR ''9'' \<or> c = CHR ''_'' \<or> c = CHR ''-''"

definition hex_char :: "char \<Rightarrow> bool" where
  "hex_char c \<longleftrightarrow> CHR ''0'' \<le> c \<and> c \<le> CHR ''9'' \<or> CHR ''a'' \<le> c \<and> c \<le> CHR ''f''"

definition pkce_char :: "char \<Rightarrow> bool" where
  "pkce_char c \<longleftrightarrow> opaque_char c \<or> c = CHR ''.'' \<or> c = CHR ''~''"

definition is_opaque :: "string \<Rightarrow> bool" where
  "is_opaque = re_match opaque_char 43 43"

definition is_selector :: "string \<Rightarrow> bool" where
  "is_selector = re_match hex_char 32 32"

definition is_digest :: "string \<Rightarrow> bool" where
  "is_digest = re_match hex_char 64 64"

definition digest :: "crypto \<Rightarrow> string \<Rightarrow> string" where
  "digest cr raw = sha256 cr (ascii_only raw)"

definition opaque_digest :: "crypto \<Rightarrow> string \<Rightarrow> string option" where
  "opaque_digest cr raw = (if is_opaque raw then Some (digest cr raw) else None)"

definition same :: "string \<Rightarrow> string \<Rightarrow> bool" where
  "same a b \<longleftrightarrow> ascii_only a = ascii_only b"

section \<open>Enrolment links\<close>

record new_link =
  nl_selector :: string
  nl_verifier_digest :: string
  nl_token :: string

definition new_link :: "crypto \<Rightarrow> string \<Rightarrow> string \<Rightarrow> new_link" where
  "new_link cr selector verifier =
     \<lparr>nl_selector = selector, nl_verifier_digest = digest cr verifier,
      nl_token = selector @ CHR ''.'' # verifier\<rparr>"

definition link_proof :: "crypto \<Rightarrow> string \<Rightarrow> string" where
  "link_proof cr raw =
     (case partition_at CHR ''.'' (strip raw) of (selector, found, verifier) \<Rightarrow>
        if \<not> found \<or> \<not> is_selector selector \<or> \<not> is_opaque verifier then []
        else selector @ CHR ''.'' # digest cr verifier)"

definition split_proof :: "string \<Rightarrow> (string \<times> string) option" where
  "split_proof proof =
     (case partition_at CHR ''.'' (strip proof) of (selector, found, verifier_digest) \<Rightarrow>
        if \<not> found \<or> \<not> is_selector selector \<or> \<not> is_digest verifier_digest then None
        else Some (selector, verifier_digest))"

section \<open>PKCE\<close>

definition is_pkce_challenge :: "string \<Rightarrow> bool" where
  "is_pkce_challenge = re_fullmatch opaque_char 43 43"

definition pkce_matches :: "crypto \<Rightarrow> string \<Rightarrow> string \<Rightarrow> bool" where
  "pkce_matches cr verifier challenge \<longleftrightarrow>
     (if \<not> re_match pkce_char 43 128 verifier then False
      else same (pkce_digest cr verifier) challenge)"

section \<open>Successor tokens\<close>

definition successor_key_material :: "settings \<Rightarrow> string" where
  "successor_key_material cfg =
     (if token_derivation_key cfg \<noteq> [] then token_derivation_key cfg else secret_key cfg)"

definition successor_pair :: "settings \<Rightarrow> crypto \<Rightarrow> string \<Rightarrow> string \<times> string" where
  "successor_pair cfg cr refresh_token =
     (derive cr (successor_key_material cfg) ''access'' refresh_token,
      derive cr (successor_key_material cfg) ''refresh'' refresh_token)"

section \<open>Sealed secrets\<close>

abbreviation "authenticator_purpose \<equiv> ''mcp-access-totp-secret-encryption-v1''"
abbreviation "local_auth_purpose \<equiv> ''totp-secret-encryption-v1''"

definition mfa_material :: "settings \<Rightarrow> string" where
  "mfa_material cfg = (if mfa_key cfg \<noteq> [] then mfa_key cfg else secret_key cfg)"

text \<open>The Fernet key is derived from key material, a salt and a purpose; salt and purpose together
  are the label of the derivation.\<close>

definition dedicated_label :: string where
  "dedicated_label = ''juristid-mcp-access|'' @ authenticator_purpose"

definition mfa_label :: "string \<Rightarrow> string" where
  "mfa_label purpose = ''juristid-local-auth|'' @ purpose"

definition seal_key :: "settings \<Rightarrow> string \<times> string" where
  "seal_key cfg =
     (if authenticator_key cfg \<noteq> [] then (authenticator_key cfg, dedicated_label)
      else (mfa_material cfg, mfa_label authenticator_purpose))"

definition seal :: "settings \<Rightarrow> crypto \<Rightarrow> string \<Rightarrow> string \<Rightarrow> string" where
  "seal cfg cr nonce secret = fernet_encrypt cr (seal_key cfg) nonce secret"

definition unseal :: "settings \<Rightarrow> crypto \<Rightarrow> string \<Rightarrow> string option" where
  "unseal cfg cr sealed =
     (if sealed = [] then None else fernet_decrypt cr (seal_key cfg) sealed)"

section \<open>The time step of a code\<close>

definition digits_of_code :: nat where "digits_of_code = 6"
definition totp_interval :: int where "totp_interval = 30"
definition tolerance_steps :: int where "tolerance_steps = 1"

definition timecode :: "instant \<Rightarrow> int" where
  \<comment> \<open>\<open>pyotp.TOTP.timecode\<close>: whole seconds since the epoch over the interval\<close>
  "timecode now = (now div 1000000) div totp_interval"

definition clean_code :: "string \<Rightarrow> string" where
  "clean_code code = filter (\<lambda>ch. ch \<in> set ''0123456789'') code"

fun first_match :: "(int \<Rightarrow> bool) \<Rightarrow> int list \<Rightarrow> int option" where
  "first_match ok [] = None"
| "first_match ok (s # ss) = (if ok s then Some s else first_match ok ss)"

definition matching_step :: "crypto \<Rightarrow> instant \<Rightarrow> string \<Rightarrow> string \<Rightarrow> int \<Rightarrow> int option" where
  "matching_step cr now secret code after_step =
     (let cleaned = clean_code code
      in if length cleaned \<noteq> digits_of_code then None
         else let current = timecode now
           in first_match (\<lambda>step. generate_otp cr secret step = cleaned \<and> step > after_step)
                (map (\<lambda>offset. current + offset) [- tolerance_steps .. tolerance_steps]))"

section \<open>Facts\<close>

lemma first_match_Some: "first_match ok ss = Some s \<Longrightarrow> s \<in> set ss \<and> ok s"
  by (induction ss) (auto split: if_splits)

lemma first_match_None: "first_match ok ss = None \<longleftrightarrow> (\<forall>s \<in> set ss. \<not> ok s)"
  by (induction ss) auto

lemma matching_step_Some:
  "matching_step cr now secret code after_step = Some step \<Longrightarrow>
     after_step < step \<and> generate_otp cr secret step = clean_code code \<and>
     \<bar>step - timecode now\<bar> \<le> tolerance_steps \<and> length (clean_code code) = digits_of_code"
  unfolding matching_step_def Let_def
  by (auto split: if_splits dest!: first_match_Some)

lemma matching_step_None:
  "matching_step cr now secret code after_step = None \<longleftrightarrow>
     length (clean_code code) \<noteq> digits_of_code \<or>
     (\<forall>step. \<bar>step - timecode now\<bar> \<le> tolerance_steps \<and> after_step < step \<longrightarrow>
        generate_otp cr secret step \<noteq> clean_code code)"
proof -
  have near: "\<bar>step - t\<bar> \<le> 1 \<longleftrightarrow> step = t - 1 \<or> step = t \<or> step = t + 1" for step t :: int
    by arith
  show ?thesis
    unfolding matching_step_def Let_def tolerance_steps_def
    by (auto simp: first_match_None upto_rec1 near)
qed

lemma opaque_digest_Some: "opaque_digest cr raw = Some d \<longleftrightarrow> is_opaque raw \<and> d = digest cr raw"
  by (auto simp: opaque_digest_def)

lemma same_refl [simp]: "same a a"
  by (simp add: same_def)

lemma same_ascii: "is_ascii a \<Longrightarrow> is_ascii b \<Longrightarrow> same a b \<longleftrightarrow> a = b"
  by (simp add: same_def ascii_only_id)

lemma dropWhile_none: "list_all (\<lambda>c. \<not> p c) s \<Longrightarrow> dropWhile p s = s"
  by (cases s) auto

lemma strip_no_space: "list_all (\<lambda>c. \<not> is_space c) s \<Longrightarrow> strip s = s"
  by (simp add: strip_def strip_by_def dropWhile_none list_all_iff)

lemma partition_first:
  "c \<notin> set a \<Longrightarrow> partition_at c (a @ c # b) = (a, True, b)"
proof -
  assume c: "c \<notin> set a"
  then have "takeWhile (\<lambda>x. x \<noteq> c) a = a" "dropWhile (\<lambda>x. x \<noteq> c) a = []"
    by (auto simp: takeWhile_eq_all_conv)
  then show ?thesis by (simp add: partition_at_def takeWhile_append dropWhile_append)
qed

end
