(* ===== verification/AccessState.thy ===== *)
theory AccessState
  imports Accounts Credentials
begin

text \<open>
  The tables of the authorization server (\<open>app/mcp_access/models.py\<close>) with their constraints, the
  state made of them, and the row operations every service shares. \<open>created_at\<close> is kept where the
  code reads it; \<open>updated_at\<close> is a stamp nothing reads and is left out. Primary keys come from one
  counter, since a uuid is never drawn twice.
\<close>

section \<open>Rows\<close>

datatype grant_status = PendingEnrolment | Active | Revoked

datatype token_kind = Access | Refresh

datatype event_type =
    GRANT_CREATED | GRANT_REFUSED | ENROLMENT_LINK_ISSUED | ENROLMENT_COMPLETED
  | ENROLMENT_REFUSED | AUTHORIZATION_GRANTED | AUTHORIZATION_DENIED | AUTHORIZATION_REFUSED
  | GRANT_LOCKED | GRANT_SUSPENDED | GRANT_UNLOCKED | TOKEN_ISSUED | TOKEN_REFRESHED
  | TOKEN_REFUSED | REFRESH_REUSE_DETECTED | TOKEN_REVOKED | GRANT_REVOKED | WRITE_ENABLED
  | WRITE_REFUSED | WRITE_REVOKED | WRITE_CONFIRMED | WRITE_CONFIRMATION_REFUSED

record grant =
  g_id :: row_id
  g_user :: row_id
  g_status :: grant_status
  g_created_by :: "row_id option"
  g_created_via :: string
  g_created_at :: instant
  g_activated_at :: "instant option"
  g_revoked_at :: "instant option"
  g_revoke_reason :: string
  g_failed_attempts :: nat
  g_locked_until :: "instant option"
  g_lock_count :: nat
  g_total_failed_attempts :: nat
  g_suspended_at :: "instant option"
  g_write_enabled_at :: "instant option"
  g_write_enabled_via :: string
  g_write_revoked_at :: "instant option"
  g_write_revoke_reason :: string

record authenticator =
  a_grant :: row_id
  a_encrypted_secret :: string
  a_last_used_step :: int
  a_confirmed_at :: instant

record enrolment_link =
  l_id :: row_id
  l_grant :: row_id
  l_selector :: string
  l_verifier_digest :: string
  l_expires_at :: instant
  l_used_at :: "instant option"
  l_invalidated_at :: "instant option"
  l_issued_via :: string

record authorization_code =
  c_id :: row_id
  c_digest :: string
  c_grant :: row_id
  c_user :: row_id
  c_client_id :: string
  c_redirect_uri :: string
  c_code_challenge :: string
  c_scope :: string
  c_resource :: string
  c_user_epoch :: nat
  c_created_at :: instant
  c_expires_at :: instant
  c_used_at :: "instant option"
  c_family_id :: "row_id option"

record token =
  t_id :: row_id
  t_kind :: token_kind
  t_digest :: string
  t_family_id :: row_id
  t_grant :: row_id
  t_user :: row_id
  t_client_id :: string
  t_scopes :: string
  t_resource :: string
  t_user_epoch :: nat
  t_issued_at :: instant
  t_expires_at :: instant
  t_revoked_at :: "instant option"
  t_revoke_reason :: string
  t_replaced_by :: "row_id option"
  t_last_used_at :: "instant option"
  t_family_started_at :: "instant option"
  t_auth_method :: string

record throttle_row =
  th_key :: string
  th_failures :: nat
  th_window_started_at :: instant

text \<open>Values of an event's \<open>detail\<close>: codes, ids, counts and the reasons of refusals.\<close>

datatype refusal =
    AccountNotActive | NoReadRole | TechnicalAccount | MayNotRead | SyntheticAccount
  | AlreadyOpen | NoPendingGrant | ReasonRequired | NoOpenGrant
  | NoWriteRole | WriteAlreadyEnabled | NoWritePermission

datatype detail_value =
  DText string | DId row_id | DInt int | DBool bool | DNone | DRefusal refusal

record event =
  e_type :: event_type
  e_succeeded :: bool
  e_user :: "row_id option"
  e_grant :: "row_id option"
  e_client_id :: string
  e_ip_address :: "string option"
  e_provenance :: string
  e_detail :: "(string \<times> detail_value) list"

record access_db =
  users :: "user list"
  break_glasses :: "break_glass list"
  grants :: "grant list"
  authenticators :: "authenticator list"
  links :: "enrolment_link list"
  codes :: "authorization_code list"
  tokens :: "token list"
  throttles :: "throttle_row list"
  events :: "event list"
  next_id :: row_id

section \<open>Methods of the rows\<close>

definition is_active_grant :: "grant \<Rightarrow> bool" where
  "is_active_grant g \<longleftrightarrow> g_status g = Active"

definition is_locked_at :: "grant \<Rightarrow> instant \<Rightarrow> bool" where
  "is_locked_at g moment \<longleftrightarrow>
     (case g_locked_until g of None \<Rightarrow> False | Some t \<Rightarrow> t > moment)"

definition is_suspended :: "grant \<Rightarrow> bool" where
  "is_suspended g \<longleftrightarrow> g_suspended_at g \<noteq> None"

definition write_is_enabled :: "grant \<Rightarrow> bool" where
  "write_is_enabled g \<longleftrightarrow> g_write_enabled_at g \<noteq> None \<and> g_write_revoked_at g = None"

definition link_live :: "enrolment_link \<Rightarrow> bool" where
  "link_live l \<longleftrightarrow> l_used_at l = None \<and> l_invalidated_at l = None"

definition link_usable_at :: "enrolment_link \<Rightarrow> instant \<Rightarrow> bool" where
  "link_usable_at l moment \<longleftrightarrow>
     l_used_at l = None \<and> l_invalidated_at l = None \<and> l_expires_at l > moment"

definition scope_words :: "string \<Rightarrow> string set" where
  "scope_words s = set (words s)"

definition scope_set :: "token \<Rightarrow> string set" where
  "scope_set t = scope_words (t_scopes t)"

definition open_status :: "grant \<Rightarrow> bool" where
  "open_status g \<longleftrightarrow> g_status g \<noteq> Revoked"

section \<open>Shared queries and writes\<close>

definition user_by_id :: "access_db \<Rightarrow> row_id \<Rightarrow> user option" where
  "user_by_id db i = first_where (\<lambda>u. u_id u = i) (users db)"

definition grant_by_id :: "access_db \<Rightarrow> row_id \<Rightarrow> grant option" where
  "grant_by_id db i = first_where (\<lambda>g. g_id g = i) (grants db)"

definition open_grant :: "access_db \<Rightarrow> row_id \<Rightarrow> grant option" where
  "open_grant db uid = first_where (\<lambda>g. g_user g = uid \<and> open_status g) (grants db)"

definition active_grant :: "access_db \<Rightarrow> row_id \<Rightarrow> grant option" where
  "active_grant db uid = first_where (\<lambda>g. g_user g = uid \<and> g_status g = Active) (grants db)"

definition authenticator_of :: "access_db \<Rightarrow> row_id \<Rightarrow> authenticator option" where
  "authenticator_of db gid = first_where (\<lambda>a. a_grant a = gid) (authenticators db)"

definition token_by_id :: "access_db \<Rightarrow> row_id \<Rightarrow> token option" where
  "token_by_id db i = first_where (\<lambda>t. t_id t = i) (tokens db)"

definition fresh :: "access_db \<Rightarrow> row_id \<times> access_db" where
  "fresh db = (next_id db, db\<lparr>next_id := Suc (next_id db)\<rparr>)"

text \<open>\<open>save\<close> with \<open>update_fields\<close> writes the named columns of one row; \<open>f\<close> sets them.\<close>

definition save_grant :: "row_id \<Rightarrow> (grant \<Rightarrow> grant) \<Rightarrow> access_db \<Rightarrow> access_db" where
  "save_grant i f db = db\<lparr>grants := update_where (\<lambda>g. g_id g = i) f (grants db)\<rparr>"

definition save_authenticator ::
  "row_id \<Rightarrow> (authenticator \<Rightarrow> authenticator) \<Rightarrow> access_db \<Rightarrow> access_db" where
  "save_authenticator gid f db =
     db\<lparr>authenticators := update_where (\<lambda>a. a_grant a = gid) f (authenticators db)\<rparr>"

definition save_link :: "row_id \<Rightarrow> (enrolment_link \<Rightarrow> enrolment_link) \<Rightarrow> access_db \<Rightarrow> access_db" where
  "save_link i f db = db\<lparr>links := update_where (\<lambda>l. l_id l = i) f (links db)\<rparr>"

definition save_code ::
  "row_id \<Rightarrow> (authorization_code \<Rightarrow> authorization_code) \<Rightarrow> access_db \<Rightarrow> access_db" where
  "save_code i f db = db\<lparr>codes := update_where (\<lambda>c. c_id c = i) f (codes db)\<rparr>"

definition save_token :: "row_id \<Rightarrow> (token \<Rightarrow> token) \<Rightarrow> access_db \<Rightarrow> access_db" where
  "save_token i f db = db\<lparr>tokens := update_where (\<lambda>t. t_id t = i) f (tokens db)\<rparr>"

text \<open>\<open>objects.create\<close>: the row, unless a constraint of its table forbids it (\<open>None\<close>, Django's
  \<open>IntegrityError\<close>).\<close>

definition create_grant :: "grant \<Rightarrow> access_db \<Rightarrow> access_db option" where
  "create_grant g db =
     (if open_status g \<and> (\<exists>h \<in> set (grants db). open_status h \<and> g_user h = g_user g) then None
      else Some (db\<lparr>grants := grants db @ [g]\<rparr>))"

definition create_authenticator :: "authenticator \<Rightarrow> access_db \<Rightarrow> access_db option" where
  "create_authenticator a db =
     (if \<exists>b \<in> set (authenticators db). a_grant b = a_grant a then None
      else Some (db\<lparr>authenticators := authenticators db @ [a]\<rparr>))"

definition create_link :: "enrolment_link \<Rightarrow> access_db \<Rightarrow> access_db option" where
  "create_link l db =
     (if \<exists>m \<in> set (links db). l_selector m = l_selector l
           \<or> link_live m \<and> link_live l \<and> l_grant m = l_grant l then None
      else Some (db\<lparr>links := links db @ [l]\<rparr>))"

definition create_code :: "authorization_code \<Rightarrow> access_db \<Rightarrow> access_db option" where
  "create_code c db =
     (if \<exists>d \<in> set (codes db). c_digest d = c_digest c then None
      else Some (db\<lparr>codes := codes db @ [c]\<rparr>))"

definition create_token :: "token \<Rightarrow> access_db \<Rightarrow> access_db option" where
  "create_token t db =
     (if \<exists>s \<in> set (tokens db). t_digest s = t_digest t then None
      else Some (db\<lparr>tokens := tokens db @ [t]\<rparr>))"

section \<open>The audit trail\<close>

abbreviation "web \<equiv> ''web''"

record event_context =
  x_client_id :: string
  x_ip_address :: "string option"
  x_provenance :: string

definition web_context :: "string \<Rightarrow> string option \<Rightarrow> event_context" where
  "web_context cid ip = \<lparr>x_client_id = cid, x_ip_address = ip, x_provenance = web\<rparr>"

definition operator_context :: "string \<Rightarrow> event_context" where
  "operator_context provenance =
     \<lparr>x_client_id = [], x_ip_address = None, x_provenance = provenance\<rparr>"

definition record_event ::
  "event_type \<Rightarrow> bool \<Rightarrow> row_id option \<Rightarrow> row_id option \<Rightarrow> event_context \<Rightarrow>
     (string \<times> detail_value) list \<Rightarrow> access_db \<Rightarrow> access_db" where
  "record_event et succeeded uid gid x detail db =
     db\<lparr>events := events db @
        [\<lparr>e_type = et, e_succeeded = succeeded, e_user = uid, e_grant = gid,
          e_client_id = take 500 (x_client_id x), e_ip_address = x_ip_address x,
          e_provenance = take 300 (x_provenance x), e_detail = detail\<rparr>]\<rparr>"

lemma record_event_frame [simp]:
  "users (record_event et ok u g x d db) = users db"
  "break_glasses (record_event et ok u g x d db) = break_glasses db"
  "grants (record_event et ok u g x d db) = grants db"
  "authenticators (record_event et ok u g x d db) = authenticators db"
  "links (record_event et ok u g x d db) = links db"
  "codes (record_event et ok u g x d db) = codes db"
  "tokens (record_event et ok u g x d db) = tokens db"
  "throttles (record_event et ok u g x d db) = throttles db"
  "next_id (record_event et ok u g x d db) = next_id db"
  by (simp_all add: record_event_def)

end
