(* ===== verification/Grants.thy ===== *)
theory Grants
  imports AccessState
begin

text \<open>
  Grants and enrolment: \<open>app/mcp_access/services.py\<close> up to the authorization step. Who may hold a
  grant, the scope that is actually granted, and every operator action (\<open>grant\<close>, \<open>revoke\<close>,
  \<open>unlock\<close>, the separate write decision), each as a function from the state to its result and
  the state after it. \<open>now\<close> is the clock reading of the transaction; where a function reads the
  clock twice, both readings are arguments. Random draws are arguments as well.
\<close>

section \<open>Who may hold a grant\<close>

definition grant_refusal ::
  "settings \<Rightarrow> break_glass list \<Rightarrow> instant \<Rightarrow> user \<Rightarrow> refusal option" where
  "grant_refusal cfg bgs now u =
     (if \<not> u_active u then Some AccountNotActive
      else if acting_role (Person u) \<notin> set roles_with_business_read then Some NoReadRole
      else if u_staff u \<or> u_superuser u then Some TechnicalAccount
      else if \<not> may_read_business_content bgs now (Person u) then Some MayNotRead
      else if u_synthetic u \<and> real_data_allowed cfg then Some SyntheticAccount
      else None)"

definition may_connect ::
  "settings \<Rightarrow> break_glass list \<Rightarrow> instant \<Rightarrow> user option \<Rightarrow> grant option \<Rightarrow> bool" where
  "may_connect cfg bgs now uo go =
     (case (uo, go) of
        (Some u, Some g) \<Rightarrow>
          g_status g = Active \<and> g_user g = u_id u \<and> u_active u \<and>
          may_read_business_content bgs now (Person u) \<and> grant_refusal cfg bgs now u = None
      | _ \<Rightarrow> False)"

definition may_write ::
  "settings \<Rightarrow> break_glass list \<Rightarrow> instant \<Rightarrow> user option \<Rightarrow> grant option \<Rightarrow> bool" where
  "may_write cfg bgs now uo go =
     (if \<not> mcp_writes_enabled cfg then False
      else case go of
        None \<Rightarrow> False
      | Some g \<Rightarrow>
          (if \<not> may_connect cfg bgs now uo go then False
           else write_is_enabled g \<and>
             (case uo of None \<Rightarrow> False | Some u \<Rightarrow> may_write_business_content (Person u))))"

definition write_enablement_covers :: "grant \<Rightarrow> instant option \<Rightarrow> bool" where
  "write_enablement_covers g started_at =
     (case (g_write_enabled_at g, started_at) of
        (Some enabled_at, Some started) \<Rightarrow> started \<ge> enabled_at
      | _ \<Rightarrow> False)"

definition narrow_scope :: "settings \<Rightarrow> string \<Rightarrow> bool \<Rightarrow> string" where
  "narrow_scope cfg requested write_allowed =
     (let parts = words requested
      in join_words ([read_scope_name cfg] @
           (if write_allowed \<and> write_scope_name cfg \<in> set parts then [write_scope_name cfg] else [])))"

section \<open>Operator actions\<close>

record issued_enrolment =
  ie_grant :: row_id
  ie_url :: string
  ie_expires_at :: instant

definition enrolment_url :: "settings \<Rightarrow> string \<Rightarrow> string" where
  "enrolment_url cfg tok = issuer cfg @ enrol_path cfg @ ''?kood='' @ tok"

definition invalidate_links :: "row_id \<Rightarrow> instant \<Rightarrow> access_db \<Rightarrow> access_db" where
  "invalidate_links gid now db =
     db\<lparr>links := update_where (\<lambda>l. l_grant l = gid \<and> link_live l)
                   (\<lambda>l. l\<lparr>l_invalidated_at := Some now\<rparr>) (links db)\<rparr>"

definition issue_link ::
  "settings \<Rightarrow> crypto \<Rightarrow> instant \<Rightarrow> string \<times> string \<Rightarrow> grant \<Rightarrow> string \<Rightarrow> access_db \<Rightarrow>
     (refusal exn + issued_enrolment) \<times> access_db" where
  "issue_link cfg cr now draw g provenance db =
     (let db1 = invalidate_links (g_id g) now db;
          nl = new_link cr (fst draw) (snd draw);
          expires = now + seconds (enrolment_link_seconds cfg);
          (i, db2) = fresh db1
      in case create_link
           \<lparr>l_id = i, l_grant = g_id g, l_selector = nl_selector nl,
            l_verifier_digest = nl_verifier_digest nl, l_expires_at = expires, l_used_at = None,
            l_invalidated_at = None, l_issued_via = take 300 provenance\<rparr> db2 of
           None \<Rightarrow> (Inl IntegrityError, db)
         | Some db3 \<Rightarrow>
             (Inr \<lparr>ie_grant = g_id g, ie_url = enrolment_url cfg (nl_token nl),
                   ie_expires_at = expires\<rparr>,
              record_event ENROLMENT_LINK_ISSUED True (Some (g_user g)) (Some (g_id g))
                (operator_context provenance) [(''link'', DId i)] db3))"

definition new_grant :: "row_id \<Rightarrow> row_id \<Rightarrow> row_id option \<Rightarrow> string \<Rightarrow> instant \<Rightarrow> grant" where
  \<comment> \<open>the defaults of \<open>McpAccessGrant\<close>\<close>
  "new_grant i uid created_by via now =
     \<lparr>g_id = i, g_user = uid, g_status = PendingEnrolment, g_created_by = created_by,
      g_created_via = via, g_created_at = now, g_activated_at = None, g_revoked_at = None,
      g_revoke_reason = [], g_failed_attempts = 0, g_locked_until = None, g_lock_count = 0,
      g_total_failed_attempts = 0, g_suspended_at = None, g_write_enabled_at = None,
      g_write_enabled_via = [], g_write_revoked_at = None, g_write_revoke_reason = []\<rparr>"

definition grant_access_body ::
  "settings \<Rightarrow> crypto \<Rightarrow> instant \<Rightarrow> string \<times> string \<Rightarrow> row_id \<Rightarrow> string \<Rightarrow> row_id option \<Rightarrow>
     access_db \<Rightarrow> (refusal exn + (refusal + issued_enrolment)) \<times> access_db" where
  "grant_access_body cfg cr now draw uid provenance created_by db =
     (case user_by_id db uid of
        None \<Rightarrow> (Inl DoesNotExist, db)
      | Some locked \<Rightarrow>
          (let reason = (case grant_refusal cfg (break_glasses db) now locked of
                 Some r \<Rightarrow> Some r
               | None \<Rightarrow> if open_grant db uid \<noteq> None then Some AlreadyOpen else None)
           in case reason of
                Some r \<Rightarrow>
                  (Inr (Inl r),
                   record_event GRANT_REFUSED False (Some uid) None (operator_context provenance)
                     [(''reason'', DRefusal r)] db)
              | None \<Rightarrow>
                  (let (i, db1) = fresh db;
                       g = new_grant i uid created_by (take 300 provenance) now
                   in case create_grant g db1 of
                        None \<Rightarrow> (Inl IntegrityError, db)
                      | Some db2 \<Rightarrow>
                          (let db3 = record_event GRANT_CREATED True (Some uid) (Some i)
                                       (operator_context provenance) [] db2
                           in case issue_link cfg cr now draw g provenance db3 of
                                (Inl e, db4) \<Rightarrow> (Inl e, db4)
                              | (Inr ie, db4) \<Rightarrow> (Inr (Inr ie), db4)))))"

definition raise_refusal ::
  "(refusal exn + (refusal + 'a)) \<times> access_db \<Rightarrow> (refusal exn + 'a) \<times> access_db" where
  \<comment> \<open>the refusal is raised after the transaction, so its audit row is kept\<close>
  "raise_refusal res =
     (case res of
        (Inl e, db) \<Rightarrow> (Inl e, db)
      | (Inr (Inl r), db) \<Rightarrow> (Inl (Refused r), db)
      | (Inr (Inr a), db) \<Rightarrow> (Inr a, db))"

definition grant_access ::
  "settings \<Rightarrow> crypto \<Rightarrow> instant \<Rightarrow> string \<times> string \<Rightarrow> row_id \<Rightarrow> string \<Rightarrow> row_id option \<Rightarrow>
     access_db \<Rightarrow> (refusal exn + issued_enrolment) \<times> access_db" where
  "grant_access cfg cr now draw uid provenance created_by db =
     raise_refusal (atomic (grant_access_body cfg cr now draw uid provenance created_by) db)"

definition issue_enrolment_link ::
  "settings \<Rightarrow> crypto \<Rightarrow> instant \<Rightarrow> string \<times> string \<Rightarrow> row_id \<Rightarrow> string \<Rightarrow> access_db \<Rightarrow>
     (refusal exn + issued_enrolment) \<times> access_db" where
  "issue_enrolment_link cfg cr now draw uid provenance db =
     atomic (\<lambda>db.
       case user_by_id db uid of
         None \<Rightarrow> (Inl DoesNotExist, db)
       | Some locked \<Rightarrow>
           (case first_where (\<lambda>g. g_user g = uid \<and> g_status g = PendingEnrolment) (grants db) of
              None \<Rightarrow> (Inl (Refused NoPendingGrant), db)
            | Some g \<Rightarrow>
                (case grant_refusal cfg (break_glasses db) now locked of
                   Some r \<Rightarrow> (Inl (Refused r), db)
                 | None \<Rightarrow> issue_link cfg cr now draw g provenance db))) db"

definition revoke_tokens ::
  "(token \<Rightarrow> bool) \<Rightarrow> string \<Rightarrow> instant \<Rightarrow> access_db \<Rightarrow> nat \<times> access_db" where
  "revoke_tokens p reason now db =
     (let q = (\<lambda>t. p t \<and> t_revoked_at t = None)
      in (count_where q (tokens db),
          db\<lparr>tokens := update_where q
               (\<lambda>t. t\<lparr>t_revoked_at := Some now, t_revoke_reason := take 64 reason\<rparr>) (tokens db)\<rparr>))"

definition end_grant :: "grant \<Rightarrow> string \<Rightarrow> instant \<Rightarrow> access_db \<Rightarrow> nat \<times> access_db" where
  "end_grant g reason now db =
     (let db1 = save_grant (g_id g)
            (\<lambda>h. h\<lparr>g_status := Revoked, g_revoked_at := Some now, g_revoke_reason := take 300 reason\<rparr>) db;
          db2 = invalidate_links (g_id g) now db1;
          db3 = db2\<lparr>codes := update_where (\<lambda>c. c_grant c = g_id g \<and> c_used_at c = None)
                              (\<lambda>c. c\<lparr>c_used_at := Some now\<rparr>) (codes db2)\<rparr>
      in revoke_tokens (\<lambda>t. t_grant t = g_id g) ''grant_revoked'' now db3)"

definition blank :: "string \<Rightarrow> bool" where
  "blank s \<longleftrightarrow> strip s = []"

definition revoke_grant ::
  "instant \<Rightarrow> row_id \<Rightarrow> string \<Rightarrow> string \<Rightarrow> access_db \<Rightarrow> (refusal exn + nat) \<times> access_db" where
  "revoke_grant now uid reason provenance db =
     atomic (\<lambda>db.
       if blank reason then (Inl (Refused ReasonRequired), db)
       else case open_grant db uid of
         None \<Rightarrow> (Inl (Refused NoOpenGrant), db)
       | Some g \<Rightarrow>
           (let (revoked, db1) = end_grant g reason now db
            in (Inr revoked,
                record_event GRANT_REVOKED True (Some uid) (Some (g_id g))
                  (operator_context provenance)
                  [(''reason'', DText (take 300 reason)), (''tokens_revoked'', DInt (int revoked))]
                  db1))) db"

fun end_grants :: "grant list \<Rightarrow> string \<Rightarrow> string \<Rightarrow> instant \<Rightarrow> access_db \<Rightarrow> nat \<times> access_db" where
  "end_grants [] reason provenance now db = (0, db)"
| "end_grants (g # gs) reason provenance now db =
     (let (revoked, db1) = end_grant g reason now db;
          db2 = record_event GRANT_REVOKED True (Some (g_user g)) (Some (g_id g))
                  (operator_context provenance)
                  [(''reason'', DText (take 300 reason)), (''tokens_revoked'', DInt (int revoked)),
                   (''revoke_all'', DBool True)] db1;
          (more, db3) = end_grants gs reason provenance now db2
      in (revoked + more, db3))"

definition revoke_all ::
  "instant \<Rightarrow> string \<Rightarrow> string \<Rightarrow> access_db \<Rightarrow> (refusal exn + nat \<times> nat) \<times> access_db" where
  "revoke_all now reason provenance db =
     atomic (\<lambda>db.
       if blank reason then (Inl (Refused ReasonRequired), db)
       else
         (let gs = filter open_status (grants db);
              (tokens1, db1) = end_grants gs reason provenance now db;
              (tokens2, db2) = revoke_tokens (\<lambda>t. True) ''revoke_all'' now db1
          in (Inr (length gs, tokens1 + tokens2), db2))) db"

end
