(* ===== verification/Lockout.thy ===== *)
theory Lockout
  imports Grants
begin

text \<open>
  The one check of a grant's personal authenticator code, for connecting and for approving a
  change (\<open>_count_wrong_code\<close> and \<open>_check_personal_code\<close> of \<open>app/mcp_access/services.py\<close>): the
  ladder of locks, the suspension after its last rung, and the single-use time step.
\<close>

definition max_failed_codes :: nat where "max_failed_codes = 5"

definition lock_ladder_seconds :: "int list" where
  "lock_ladder_seconds = [15 * 60, 60 * 60, 4 * 60 * 60]"

datatype outcome_status =
  Ok | BadCode | NoGrant | Locked | Suspended | Unreadable | Throttled

record outcome =
  o_status :: outcome_status
  o_code :: string
  o_wait :: int

definition answer :: "outcome_status \<Rightarrow> outcome" where
  "answer st = \<lparr>o_status = st, o_code = [], o_wait = 0\<rparr>"

definition seconds_until :: "instant option \<Rightarrow> instant \<Rightarrow> int" where
  "seconds_until moment now =
     (case moment of None \<Rightarrow> 0 | Some t \<Rightarrow> max 1 (int_seconds (t - now)))"

section \<open>Counting wrong codes\<close>

definition trips :: "grant \<Rightarrow> bool" where
  \<comment> \<open>whether this wrong code completes a row of them\<close>
  "trips g \<longleftrightarrow> \<not> is_suspended g \<and> Suc (g_failed_attempts g) \<ge> max_failed_codes"

definition counted :: "instant \<Rightarrow> grant \<Rightarrow> grant" where
  \<comment> \<open>the grant after one wrong code\<close>
  "counted now g =
     (let g1 = g\<lparr>g_total_failed_attempts := Suc (g_total_failed_attempts g),
                 g_failed_attempts := (if is_suspended g then g_failed_attempts g
                                       else Suc (g_failed_attempts g))\<rparr>
      in if \<not> trips g then g1
         else let g2 = g1\<lparr>g_failed_attempts := 0, g_lock_count := Suc (g_lock_count g)\<rparr>
           in if g_lock_count g2 > length lock_ladder_seconds
              then g2\<lparr>g_suspended_at := Some now, g_locked_until := None\<rparr>
              else g2\<lparr>g_locked_until :=
                     Some (now + seconds (lock_ladder_seconds ! (g_lock_count g2 - 1)))\<rparr>)"

definition save_counters :: "grant \<Rightarrow> access_db \<Rightarrow> access_db" where
  "save_counters g db =
     save_grant (g_id g)
       (\<lambda>h. h\<lparr>g_failed_attempts := g_failed_attempts g,
              g_total_failed_attempts := g_total_failed_attempts g,
              g_lock_count := g_lock_count g, g_locked_until := g_locked_until g,
              g_suspended_at := g_suspended_at g\<rparr>) db"

definition count_wrong_code ::
  "grant \<Rightarrow> row_id \<Rightarrow> event_context \<Rightarrow> instant \<Rightarrow> event_type \<Rightarrow> access_db \<Rightarrow> outcome \<times> access_db" where
  "count_wrong_code g uid x now refused_event db =
     (let g' = counted now g;
          totals = [(''total_failed_attempts'', DInt (int (g_total_failed_attempts g')))];
          locks = (''lock_count'', DInt (int (g_lock_count g'))) # totals;
          db1 = record_event refused_event False (Some uid) (Some (g_id g)) x
                  ((''reason'', DText ''bad_code'') # totals) (save_counters g' db)
      in (answer BadCode,
          if trips g \<and> is_suspended g'
          then record_event GRANT_SUSPENDED False (Some uid) (Some (g_id g)) x locks db1
          else if trips g
          then record_event GRANT_LOCKED False (Some uid) (Some (g_id g)) x
                 ((''seconds'', DInt (lock_ladder_seconds ! (g_lock_count g' - 1))) # locks) db1
          else db1))"

section \<open>The check\<close>

definition reset_counters :: "row_id \<Rightarrow> access_db \<Rightarrow> access_db" where
  "reset_counters gid db =
     save_grant gid
       (\<lambda>h. h\<lparr>g_failed_attempts := 0, g_total_failed_attempts := 0, g_lock_count := 0,
              g_locked_until := None\<rparr>) db"

definition refused_check ::
  "event_type \<Rightarrow> row_id option \<Rightarrow> row_id option \<Rightarrow> event_context \<Rightarrow> string \<Rightarrow> access_db \<Rightarrow> access_db" where
  "refused_check ev uid gid x reason db =
     record_event ev False uid gid x [(''reason'', DText reason)] db"

definition code_step :: "settings \<Rightarrow> crypto \<Rightarrow> instant \<Rightarrow> authenticator option \<Rightarrow> string \<Rightarrow> int option" where
  \<comment> \<open>the time step the presented code is accepted for\<close>
  "code_step cfg cr tnow ao code =
     (case ao of None \<Rightarrow> None
      | Some a \<Rightarrow>
          (case unseal cfg cr (a_encrypted_secret a) of
             None \<Rightarrow> None
           | Some secret \<Rightarrow> matching_step cr tnow secret code (a_last_used_step a)))"

definition check_personal_code ::
  "settings \<Rightarrow> crypto \<Rightarrow> instant \<Rightarrow> instant \<Rightarrow> user option \<Rightarrow> grant option \<Rightarrow> bool \<Rightarrow> string \<Rightarrow>
     string \<Rightarrow> event_context \<Rightarrow> event_type \<Rightarrow> access_db \<Rightarrow> (outcome + instant) \<times> access_db" where
  "check_personal_code cfg cr now tnow uo go eligible ineligible_reason totp_code x ev db =
     (case (uo, go, eligible) of
        (Some u, Some g, True) \<Rightarrow>
          (let ao = authenticator_of db (g_id g);
               secret = (case ao of None \<Rightarrow> None | Some a \<Rightarrow> unseal cfg cr (a_encrypted_secret a))
           in if ao \<noteq> None \<and> secret = None then
                (Inl (answer Unreadable),
                 refused_check ev (Some (u_id u)) (Some (g_id g)) x ''authenticator_unreadable'' db)
              else case code_step cfg cr tnow ao totp_code of
                None \<Rightarrow> map_prod Inl id (count_wrong_code g (u_id u) x now ev db)
              | Some step \<Rightarrow>
                  (let db1 = save_authenticator (g_id g) (\<lambda>b. b\<lparr>a_last_used_step := step\<rparr>) db
                   in if is_suspended g \<or> is_locked_at g now then
                        (Inl (if is_suspended g then answer Suspended
                              else \<lparr>o_status = Locked, o_code = [],
                                    o_wait = seconds_until (g_locked_until g) now\<rparr>),
                         refused_check ev (Some (u_id u)) (Some (g_id g)) x
                           (if is_suspended g then ''suspended'' else ''locked'') db1)
                      else (Inr now, reset_counters (g_id g) db1)))
      | _ \<Rightarrow>
          (Inl (answer NoGrant),
           refused_check ev (map_option u_id uo) (map_option g_id go) x ineligible_reason db))"

section \<open>Facts\<close>

lemma refused_check_frame [simp]:
  "users (refused_check ev u g x r db) = users db"
  "break_glasses (refused_check ev u g x r db) = break_glasses db"
  "grants (refused_check ev u g x r db) = grants db"
  "authenticators (refused_check ev u g x r db) = authenticators db"
  "links (refused_check ev u g x r db) = links db"
  "codes (refused_check ev u g x r db) = codes db"
  "tokens (refused_check ev u g x r db) = tokens db"
  "throttles (refused_check ev u g x r db) = throttles db"
  "next_id (refused_check ev u g x r db) = next_id db"
  by (simp_all add: refused_check_def)

lemma code_step_later:
  "code_step cfg cr tnow (Some a) code = Some step \<Longrightarrow> a_last_used_step a < step"
  by (auto simp: code_step_def split: option.splits dest: matching_step_Some)

lemma code_step_authenticator: "code_step cfg cr tnow ao code = Some step \<Longrightarrow> \<exists>a. ao = Some a"
  by (auto simp: code_step_def split: option.splits)

end
