(* ===== verification/Enrolment.thy ===== *)
theory Enrolment
  imports Grants
begin

text \<open>
  Enrolment of the personal authenticator (\<open>app/mcp_access/services.py\<close>): looking at a link
  without spending it, the account it names, the address typed on the page, and the one
  operation that spends a link and makes the sealed secret the grant's authenticator.
\<close>

definition peek_link :: "access_db \<Rightarrow> instant \<Rightarrow> string \<Rightarrow> enrolment_link option" where
  "peek_link db now proof =
     (case split_proof proof of
        None \<Rightarrow> None
      | Some (selector, verifier_digest) \<Rightarrow>
          (case first_where (\<lambda>l. l_selector l = selector) (links db) of
             None \<Rightarrow> None
           | Some l \<Rightarrow>
               (if \<not> same (l_verifier_digest l) verifier_digest then None
                else if \<not> link_usable_at l now then None
                else case grant_by_id db (l_grant l) of
                  None \<Rightarrow> None
                | Some g \<Rightarrow> if g_status g \<noteq> PendingEnrolment then None else Some l)))"

definition enrolment_account :: "settings \<Rightarrow> access_db \<Rightarrow> instant \<Rightarrow> string \<Rightarrow> user option" where
  "enrolment_account cfg db now proof =
     (case (if proof \<noteq> [] then peek_link db now proof else None) of
        None \<Rightarrow> None
      | Some l \<Rightarrow>
          (case grant_by_id db (l_grant l) of
             None \<Rightarrow> None
           | Some g \<Rightarrow>
               (case user_by_id db (g_user g) of
                  None \<Rightarrow> None
                | Some account \<Rightarrow>
                    if grant_refusal cfg (break_glasses db) now account \<noteq> None then None
                    else Some account)))"

datatype enrolment_problem = AnotherPersona | LinkNotUsable | AccountNotEligible

definition enrolment_problem_of ::
  "settings \<Rightarrow> access_db \<Rightarrow> instant \<Rightarrow> user \<Rightarrow> grant \<Rightarrow> enrolment_link \<Rightarrow> enrolment_problem option" where
  "enrolment_problem_of cfg db now locked g l =
     (if g_user g \<noteq> u_id locked then Some AnotherPersona
      else if \<not> link_usable_at l now \<or> g_status g \<noteq> PendingEnrolment then Some LinkNotUsable
      else if grant_refusal cfg (break_glasses db) now locked \<noteq> None then Some AccountNotEligible
      else None)"

fun enrolment_reason :: "enrolment_problem option \<Rightarrow> string" where
  "enrolment_reason None = ''bad_code''"
| "enrolment_reason (Some AnotherPersona) = ''another_persona''"
| "enrolment_reason (Some LinkNotUsable) = ''link_not_usable''"
| "enrolment_reason (Some AccountNotEligible) = ''account_not_eligible''"

definition confirm_enrolment ::
  "settings \<Rightarrow> crypto \<Rightarrow> instant \<Rightarrow> instant \<Rightarrow> string \<Rightarrow> string \<Rightarrow> row_id \<Rightarrow> string \<Rightarrow> string \<Rightarrow>
     string option \<Rightarrow> access_db \<Rightarrow> (refusal exn + bool) \<times> access_db" where
  \<comment> \<open>\<open>now\<close> stamps the rows, \<open>tnow\<close> is the later reading of the clock inside the TOTP check\<close>
  "confirm_enrolment cfg cr now tnow nonce proof uid sealed code ip db =
     atomic (\<lambda>db.
       case split_proof proof of
         None \<Rightarrow> (Inr False, db)
       | Some (selector, verifier_digest) \<Rightarrow>
         (case (user_by_id db uid, first_where (\<lambda>l. l_selector l = selector) (links db)) of
            (Some locked, Some l) \<Rightarrow>
              (if \<not> same (l_verifier_digest l) verifier_digest then (Inr False, db)
               else case grant_by_id db (l_grant l) of
                 None \<Rightarrow> (Inl DoesNotExist, db)
               | Some g \<Rightarrow>
                   (let refusal = enrolment_problem_of cfg db now locked g l;
                        secret = (if refusal = None then unseal cfg cr sealed else None);
                        step = (case secret of None \<Rightarrow> None
                                | Some sec \<Rightarrow> matching_step cr tnow sec code 0)
                    in case (secret, step) of
                         (Some sec, Some n) \<Rightarrow>
                           (case create_authenticator
                              \<lparr>a_grant = g_id g, a_encrypted_secret = seal cfg cr nonce sec,
                               a_last_used_step = n, a_confirmed_at = now\<rparr> db of
                              None \<Rightarrow> (Inl IntegrityError, db)
                            | Some db1 \<Rightarrow>
                                (Inr True,
                                 record_event ENROLMENT_COMPLETED True (Some uid) (Some (g_id g))
                                   (web_context [] ip) []
                                   (save_grant (g_id g)
                                     (\<lambda>h. h\<lparr>g_status := Active, g_activated_at := Some now,
                                            g_failed_attempts := 0, g_locked_until := None\<rparr>)
                                     (save_link (l_id l) (\<lambda>k. k\<lparr>l_used_at := Some now\<rparr>) db1))))
                       | _ \<Rightarrow>
                           (Inr False,
                            record_event ENROLMENT_REFUSED False (Some uid)
                              (if g_user g = u_id locked then Some (g_id g) else None)
                              (web_context [] ip)
                              [(''reason'', DText (enrolment_reason refusal))] db)))
          | _ \<Rightarrow> (Inr False, db))) db"

end
