(* ===== verification/Authorize.thy ===== *)
theory Authorize
  imports Lockout Enrolment
begin

text \<open>
  The authorization step of \<open>app/mcp_access/services.py\<close>: minting a one-time code after the
  personal code was checked, the same check on the write-approval page, and the fixed-window
  throttle per gate session and per client address that both run under.

  An attempt runs inside \<open>_throttled\<close>'s transaction, so it is a function from the state to its
  outcome and the state after it; an exception leaves nothing behind.
\<close>

section \<open>Minting a code\<close>

record authorization_request =
  ar_client :: oauth_client
  ar_redirect_uri :: string
  ar_code_challenge :: string
  ar_scope :: string
  ar_resource :: string
  ar_state :: "string option"

definition new_code ::
  "settings \<Rightarrow> crypto \<Rightarrow> instant \<Rightarrow> instant \<Rightarrow> string \<Rightarrow> authorization_request \<Rightarrow> user \<Rightarrow> grant \<Rightarrow>
     string \<Rightarrow> row_id \<Rightarrow> authorization_code" where
  "new_code cfg cr now created raw req u g scope i =
     \<lparr>c_id = i, c_digest = digest cr raw, c_grant = g_id g, c_user = u_id u,
      c_client_id = oc_client_id (ar_client req), c_redirect_uri = ar_redirect_uri req,
      c_code_challenge = ar_code_challenge req, c_scope = scope,
      c_resource = ar_resource req, c_user_epoch = u_epoch u, c_created_at = created,
      c_expires_at = now + seconds (authorization_code_seconds cfg), c_used_at = None,
      c_family_id = None\<rparr>"

definition mint_code ::
  "settings \<Rightarrow> crypto \<Rightarrow> instant \<Rightarrow> instant \<Rightarrow> string \<Rightarrow> authorization_request \<Rightarrow> user \<Rightarrow> grant \<Rightarrow>
     string option \<Rightarrow> access_db \<Rightarrow> (refusal exn + outcome) \<times> access_db" where
  \<comment> \<open>the part of \<open>authorize\<close> after the check; \<open>created\<close> is the stamp of the new row\<close>
  "mint_code cfg cr now created raw req u g ip db =
     (let scope = narrow_scope cfg (ar_scope req)
                    (may_write cfg (break_glasses db) now (Some u) (Some g));
          (i, db1) = fresh db
      in case create_code (new_code cfg cr now created raw req u g scope i) db1 of
           None \<Rightarrow> (Inl IntegrityError, db)
         | Some db2 \<Rightarrow>
             (Inr \<lparr>o_status = Ok, o_code = raw, o_wait = 0\<rparr>,
              record_event AUTHORIZATION_GRANTED True (Some (u_id u)) (Some (g_id g))
                (web_context (oc_client_id (ar_client req)) ip)
                ([(''resource'', DText (ar_resource req)), (''scope'', DText scope)] @
                 (if scope \<noteq> ar_scope req
                  then [(''requested_scope'', DText (ar_scope req))] else [])) db2))"

definition authorize ::
  "settings \<Rightarrow> crypto \<Rightarrow> instant \<Rightarrow> instant \<Rightarrow> instant \<Rightarrow> string \<Rightarrow> row_id \<Rightarrow> authorization_request \<Rightarrow>
     string \<Rightarrow> string option \<Rightarrow> access_db \<Rightarrow> (refusal exn + outcome) \<times> access_db" where
  "authorize cfg cr now tnow created raw uid req totp_code ip db =
     atomic (\<lambda>db.
       let uo = user_by_id db uid;
           go = active_grant db uid;
           x = web_context (oc_client_id (ar_client req)) ip
       in case check_personal_code cfg cr now tnow uo go
                 (may_connect cfg (break_glasses db) now uo go) ''no_active_grant''
                 totp_code x AUTHORIZATION_REFUSED db of
            (Inl refused, db1) \<Rightarrow> (Inr refused, db1)
          | (Inr moment, db1) \<Rightarrow>
              (case (uo, go) of
                 (Some u, Some g) \<Rightarrow> mint_code cfg cr moment created raw req u g ip db1
               | _ \<Rightarrow> (Inr (answer NoGrant), db1))) db"

section \<open>The write-approval page's code\<close>

definition grant_of_user :: "access_db \<Rightarrow> row_id \<Rightarrow> row_id \<Rightarrow> grant option" where
  "grant_of_user db gid uid =
     first_where (\<lambda>g. g_id g = gid \<and> g_user g = uid \<and> g_status g = Active) (grants db)"

definition confirm_write_attempt ::
  "settings \<Rightarrow> crypto \<Rightarrow> instant \<Rightarrow> instant \<Rightarrow> row_id \<Rightarrow> row_id \<Rightarrow> string \<Rightarrow> string option \<Rightarrow>
     access_db \<Rightarrow> (refusal exn + outcome) \<times> access_db" where
  "confirm_write_attempt cfg cr now tnow uid gid code ip db =
     atomic (\<lambda>db.
       let uo = user_by_id db uid;
           go = grant_of_user db gid uid;
           connects = may_connect cfg (break_glasses db) now uo go;
           x = web_context [] ip
       in case check_personal_code cfg cr now tnow uo go
                 (connects \<and> may_write cfg (break_glasses db) now uo go)
                 (if connects then ''write_not_allowed'' else ''no_active_grant'')
                 code x WRITE_CONFIRMATION_REFUSED db of
            (Inl refused, db1) \<Rightarrow> (Inr refused, db1)
          | (Inr moment, db1) \<Rightarrow>
              (Inr (answer Ok),
               record_event WRITE_CONFIRMED True (map_option u_id uo) (map_option g_id go) x [] db1)) db"

section \<open>The throttle\<close>

record throttle_key =
  tk_key :: string
  tk_limit :: nat

definition held_throttle :: "string \<Rightarrow> instant \<Rightarrow> access_db \<Rightarrow> throttle_row \<times> access_db" where
  \<comment> \<open>\<open>get_or_create\<close>, then the locking read\<close>
  "held_throttle key now db =
     (case first_where (\<lambda>r. th_key r = key) (throttles db) of
        Some r \<Rightarrow> (r, db)
      | None \<Rightarrow>
          (let r = \<lparr>th_key = key, th_failures = 0, th_window_started_at = now\<rparr>
           in (r, db\<lparr>throttles := throttles db @ [r]\<rparr>)))"

definition throttle_window :: "settings \<Rightarrow> int" where
  "throttle_window cfg = seconds (authorize_throttle_seconds cfg)"

definition rolled :: "settings \<Rightarrow> instant \<Rightarrow> throttle_row \<Rightarrow> throttle_row" where
  \<comment> \<open>the row as held in memory: a window that has passed starts again\<close>
  "rolled cfg now r =
     (if th_window_started_at r + throttle_window cfg \<le> now
      then r\<lparr>th_failures := 0, th_window_started_at := now\<rparr> else r)"

fun hold_rows ::
  "settings \<Rightarrow> instant \<Rightarrow> throttle_key list \<Rightarrow> access_db \<Rightarrow>
     (throttle_row list \<times> throttle_row list) \<times> access_db" where
  "hold_rows cfg now [] db = (([], []), db)"
| "hold_rows cfg now (k # ks) db =
     (let (stored, db1) = held_throttle (tk_key k) now db;
          row = rolled cfg now stored;
          ((rows, blocked), db2) = hold_rows cfg now ks db1
      in ((row # rows, (if th_failures row \<ge> tk_limit k then row # blocked else blocked)), db2))"

definition hold_throttles ::
  "settings \<Rightarrow> instant \<Rightarrow> throttle_key list \<Rightarrow> access_db \<Rightarrow> (throttle_row list \<times> int) \<times> access_db" where
  "hold_throttles cfg now throttle db =
     (let ((rows, blocked), db1) = hold_rows cfg now (sort_key tk_key throttle) db;
          waits = map (\<lambda>r. seconds_until (Some (th_window_started_at r + throttle_window cfg)) now) blocked
      in ((rows, (case waits of [] \<Rightarrow> 0 | w # ws \<Rightarrow> fold max ws w)), db1))"

definition save_throttle :: "throttle_row \<Rightarrow> access_db \<Rightarrow> access_db" where
  "save_throttle r db =
     db\<lparr>throttles := update_where (\<lambda>s. th_key s = th_key r)
        (\<lambda>s. s\<lparr>th_failures := th_failures r, th_window_started_at := th_window_started_at r\<rparr>)
        (throttles db)\<rparr>"

definition charge_throttles :: "throttle_row list \<Rightarrow> bool \<Rightarrow> access_db \<Rightarrow> access_db" where
  "charge_throttles rows failed db =
     fold (\<lambda>r. save_throttle (if failed then r\<lparr>th_failures := Suc (th_failures r)\<rparr> else r)) rows db"

definition throttled ::
  "settings \<Rightarrow> instant \<Rightarrow> row_id option \<Rightarrow> string \<Rightarrow> string option \<Rightarrow> throttle_key list \<Rightarrow> event_type \<Rightarrow>
     (access_db \<Rightarrow> (refusal exn + outcome) \<times> access_db) \<Rightarrow> access_db \<Rightarrow>
     (refusal exn + outcome) \<times> access_db" where
  "throttled cfg now uid cid ip throttle ev attempt db =
     atomic (\<lambda>db.
       let ((rows, wait), db1) = hold_throttles cfg now throttle db
       in if wait \<noteq> 0 then
            (Inr \<lparr>o_status = Throttled, o_code = [], o_wait = wait\<rparr>,
             refused_check ev uid None (web_context cid ip) ''throttled'' db1)
          else case attempt db1 of
            (Inl e, db2) \<Rightarrow> (Inl e, db2)
          | (Inr out, db2) \<Rightarrow> (Inr out, charge_throttles rows (o_status out \<noteq> Ok) db2)) db"

definition authorize_attempt ::
  "settings \<Rightarrow> crypto \<Rightarrow> instant \<Rightarrow> instant \<Rightarrow> instant \<Rightarrow> instant \<Rightarrow> string \<Rightarrow> row_id option \<Rightarrow>
     authorization_request \<Rightarrow> string \<Rightarrow> string option \<Rightarrow> throttle_key list \<Rightarrow> access_db \<Rightarrow>
     (refusal exn + outcome) \<times> access_db" where
  "authorize_attempt cfg cr hnow now tnow created raw uid req totp_code ip throttle db =
     (let cid = oc_client_id (ar_client req)
      in throttled cfg hnow uid cid ip throttle AUTHORIZATION_REFUSED
        (\<lambda>db. case uid of
           None \<Rightarrow>
             (Inr (answer NoGrant),
              refused_check AUTHORIZATION_REFUSED None None (web_context cid ip)
                ''unknown_account'' db)
         | Some i \<Rightarrow> authorize cfg cr now tnow created raw i req totp_code ip db) db)"

definition confirm_write_code ::
  "settings \<Rightarrow> crypto \<Rightarrow> instant \<Rightarrow> instant \<Rightarrow> instant \<Rightarrow> row_id \<Rightarrow> row_id \<Rightarrow> string \<Rightarrow>
     string option \<Rightarrow> throttle_key list \<Rightarrow> access_db \<Rightarrow> (refusal exn + outcome) \<times> access_db" where
  "confirm_write_code cfg cr hnow now tnow uid gid code ip throttle db =
     throttled cfg hnow (Some uid) [] ip throttle WRITE_CONFIRMATION_REFUSED
       (confirm_write_attempt cfg cr now tnow uid gid code ip) db"

section \<open>The address on the enrolment page\<close>

text \<open>\<open>unicodedata.normalize\<close> and SQL's \<open>UPPER\<close> are the two functions of text that the code uses
  and that live in tables outside it.\<close>

record text_tables =
  nfkc :: "string \<Rightarrow> string"
  sql_upper :: "string \<Rightarrow> string"

definition lower_char :: "char \<Rightarrow> char" where
  "lower_char c =
     (let n = (of_char c :: nat)
      in if 65 \<le> n \<and> n \<le> 90 \<or> 192 \<le> n \<and> n \<le> 222 \<and> n \<noteq> 215 then char_of (n + 32) else c)"

definition normalise_address :: "text_tables \<Rightarrow> string \<Rightarrow> string" where
  "normalise_address tt raw = map lower_char (strip (nfkc tt raw))"

definition account_for_address :: "text_tables \<Rightarrow> access_db \<Rightarrow> string \<Rightarrow> user option" where
  "account_for_address tt db address =
     (let normal = take 320 (normalise_address tt address)
      in if normal = [] \<or> CHR ''@'' \<notin> set normal then None
         else case filter (\<lambda>u. sql_upper tt (u_upn u) = sql_upper tt normal) (users db) of
           [u] \<Rightarrow> Some u | _ \<Rightarrow> None)"

datatype address_outcome = AddressOk row_id | AddressRefused | AddressThrottled int

definition check_enrolment_address ::
  "settings \<Rightarrow> text_tables \<Rightarrow> instant \<Rightarrow> instant \<Rightarrow> string \<Rightarrow> string \<Rightarrow> string option \<Rightarrow>
     throttle_key list \<Rightarrow> access_db \<Rightarrow> (refusal exn + address_outcome) \<times> access_db" where
  "check_enrolment_address cfg tt hnow now proof address ip throttle db =
     atomic (\<lambda>db.
       let ((rows, wait), db1) = hold_throttles cfg hnow throttle db;
           x = web_context [] ip
       in if wait \<noteq> 0 then
            (Inr (AddressThrottled wait),
             refused_check ENROLMENT_REFUSED None None x ''throttled'' db1)
          else
            (let account = enrolment_account cfg db1 now proof;
                 typed = account_for_address tt db1 address
             in case (account, typed) of
                  (Some a, Some b) \<Rightarrow>
                    (if u_id b = u_id a then (Inr (AddressOk (u_id a)), charge_throttles rows False db1)
                     else (Inr AddressRefused, charge_throttles rows True
                       (refused_check ENROLMENT_REFUSED (Some (u_id a))
                         (map_option g_id (open_grant db1 (u_id a))) x ''address_mismatch'' db1)))
                | (Some a, None) \<Rightarrow>
                    (Inr AddressRefused, charge_throttles rows True
                       (refused_check ENROLMENT_REFUSED (Some (u_id a))
                         (map_option g_id (open_grant db1 (u_id a))) x ''address_mismatch'' db1))
                | (None, _) \<Rightarrow>
                    (Inr AddressRefused, charge_throttles rows True
                       (refused_check ENROLMENT_REFUSED None None x ''link_not_usable'' db1)))) db"

definition record_denied ::
  "row_id option \<Rightarrow> authorization_request \<Rightarrow> string option \<Rightarrow> access_db \<Rightarrow> access_db" where
  "record_denied uid req ip db =
     record_event AUTHORIZATION_DENIED False uid None
       (web_context (oc_client_id (ar_client req)) ip) [] db"

end
