(* ===== verification/Tokens.thy ===== *)
theory Tokens
  imports Authorize
begin

text \<open>
  Access and refresh tokens (\<open>app/mcp_access/services.py\<close>): exchanging a code, rotating a refresh
  token, answering a retried rotation, and RFC 7009 revocation. Every refusal of a known code
  or token is \<open>invalid_grant\<close>, \<open>invalid_target\<close> or \<open>invalid_scope\<close> (\<open>OAuthError\<close>); its reason goes
  to the audit trail only.
\<close>

section \<open>Answers\<close>

datatype oauth_error =
    InvalidGrant | InvalidTarget | InvalidScope | InvalidRequest | InvalidClient | UnsupportedGrantType

record issued_tokens =
  it_access_token :: string
  it_refresh_token :: string
  it_expires_in :: int
  it_scope :: string
  it_family_id :: row_id

type_synonym token_answer = "oauth_error + issued_tokens"

definition family_ends_at :: "settings \<Rightarrow> instant \<Rightarrow> instant" where
  "family_ends_at cfg started = started + seconds (refresh_family_max_seconds cfg)"

section \<open>Issuing a pair\<close>

record pair_request =
  pr_grant :: grant
  pr_user :: user
  pr_client_id :: string
  pr_scopes :: string
  pr_resource :: string
  pr_family_id :: row_id
  pr_started_at :: instant
  pr_auth_method :: string

definition new_token ::
  "crypto \<Rightarrow> row_id \<Rightarrow> token_kind \<Rightarrow> string \<Rightarrow> instant \<Rightarrow> instant \<Rightarrow> pair_request \<Rightarrow> token" where
  "new_token cr i kind raw now expires pr =
     \<lparr>t_id = i, t_kind = kind, t_digest = digest cr raw, t_family_id = pr_family_id pr,
      t_grant = g_id (pr_grant pr), t_user = u_id (pr_user pr), t_client_id = pr_client_id pr,
      t_scopes = pr_scopes pr, t_resource = pr_resource pr, t_user_epoch = u_epoch (pr_user pr),
      t_issued_at = now, t_expires_at = expires, t_revoked_at = None, t_revoke_reason = [],
      t_replaced_by = None, t_last_used_at = None, t_family_started_at = Some (pr_started_at pr),
      t_auth_method = take 32 (pr_auth_method pr)\<rparr>"

definition issue_pair ::
  "settings \<Rightarrow> crypto \<Rightarrow> instant \<Rightarrow> string \<times> string \<Rightarrow> pair_request \<Rightarrow> access_db \<Rightarrow>
     (refusal exn + issued_tokens \<times> row_id) \<times> access_db" where
  \<comment> \<open>the answer and the id of the new refresh token\<close>
  "issue_pair cfg cr now raws pr db =
     (let (i, db1) = fresh db;
          access = new_token cr i Access (fst raws) now (now + seconds (access_token_seconds cfg)) pr
      in case create_token access db1 of
           None \<Rightarrow> (Inl IntegrityError, db)
         | Some db2 \<Rightarrow>
             (let (j, db3) = fresh db2;
                  refresh = new_token cr j Refresh (snd raws) now
                    (min (now + seconds (refresh_token_seconds cfg))
                         (family_ends_at cfg (pr_started_at pr))) pr
              in case create_token refresh db3 of
                   None \<Rightarrow> (Inl IntegrityError, db)
                 | Some db4 \<Rightarrow>
                     (Inr (\<lparr>it_access_token = fst raws, it_refresh_token = snd raws,
                            it_expires_in = access_token_seconds cfg, it_scope = pr_scopes pr,
                            it_family_id = pr_family_id pr\<rparr>, j), db4)))"

definition still_may_connect ::
  "settings \<Rightarrow> instant \<Rightarrow> grant \<Rightarrow> row_id \<Rightarrow> nat \<Rightarrow> access_db \<Rightarrow> user option" where
  "still_may_connect cfg now g uid epoch db =
     (case user_by_id db uid of
        None \<Rightarrow> None
      | Some u \<Rightarrow>
          if \<not> may_connect cfg (break_glasses db) now (Some u) (Some g) \<or> u_epoch u \<noteq> epoch
          then None else Some u)"

definition refused_token ::
  "row_id \<Rightarrow> row_id \<Rightarrow> string \<Rightarrow> string option \<Rightarrow> string \<Rightarrow> string \<Rightarrow> access_db \<Rightarrow> access_db" where
  "refused_token uid gid cid ip grant_type reason db =
     record_event TOKEN_REFUSED False (Some uid) (Some gid) (web_context cid ip)
       [(''grant_type'', DText grant_type), (''reason'', DText reason)] db"

section \<open>Exchanging a code\<close>

definition code_problem ::
  "settings \<Rightarrow> crypto \<Rightarrow> instant \<Rightarrow> string \<Rightarrow> string \<Rightarrow> string \<Rightarrow> string \<Rightarrow> authorization_code \<Rightarrow>
     string option" where
  \<comment> \<open>the checks between spending the code and looking at the grant, in their order\<close>
  "code_problem cfg cr now cid redirect_uri code_verifier resource c =
     (if c_expires_at c \<le> now then Some ''code_expired''
      else if \<not> same (c_client_id c) cid then Some ''client_mismatch''
      else if c_redirect_uri c \<noteq> redirect_uri then Some ''redirect_uri_mismatch''
      else if \<not> pkce_matches cr code_verifier (c_code_challenge c) then Some ''pkce_mismatch''
      else if normalise_resource resource \<noteq> c_resource c then Some ''resource_mismatch''
      else if \<not> resource_is_allowed cfg (c_resource c) then Some ''resource_not_allowed''
      else None)"

definition code_refused ::
  "authorization_code \<Rightarrow> string \<Rightarrow> string option \<Rightarrow> string \<Rightarrow> access_db \<Rightarrow>
     (refusal exn + token_answer) \<times> access_db" where
  "code_refused c cid ip reason db =
     (Inr (Inl InvalidGrant),
      refused_token (c_user c) (c_grant c) cid ip ''authorization_code'' reason db)"

definition exchange_spent ::
  "settings \<Rightarrow> crypto \<Rightarrow> instant \<Rightarrow> string \<times> string \<Rightarrow> string \<Rightarrow> string option \<Rightarrow> string \<Rightarrow>
     authorization_code \<Rightarrow> access_db \<Rightarrow> (refusal exn + token_answer) \<times> access_db" where
  \<comment> \<open>the end of \<open>_exchange_code\<close>: the code is spent and every check of the request passed\<close>
  "exchange_spent cfg cr now raws cid ip auth_method c db =
     (case grant_by_id db (c_grant c) of
        None \<Rightarrow> (Inl DoesNotExist, db)
      | Some g \<Rightarrow>
          (case still_may_connect cfg now g (c_user c) (c_user_epoch c) db of
             None \<Rightarrow> code_refused c cid ip ''account_not_eligible'' db
           | Some u \<Rightarrow>
               (let (family, db1) = fresh db;
                    scopes = narrow_scope cfg (c_scope c)
                      (may_write cfg (break_glasses db) now (Some u) (Some g) \<and>
                       write_enablement_covers g (Some (c_created_at c)))
                in case issue_pair cfg cr now raws
                     \<lparr>pr_grant = g, pr_user = u, pr_client_id = c_client_id c, pr_scopes = scopes,
                      pr_resource = c_resource c, pr_family_id = family, pr_started_at = now,
                      pr_auth_method = auth_method\<rparr> db1 of
                     (Inl e, db2) \<Rightarrow> (Inl e, db2)
                   | (Inr (issued, _), db2) \<Rightarrow>
                       (Inr (Inr issued),
                        record_event TOKEN_ISSUED True (Some (u_id u)) (Some (g_id g))
                          (web_context cid ip)
                          [(''family'', DId family), (''resource'', DText (c_resource c)),
                           (''scope'', DText scopes)]
                          (save_code (c_id c) (\<lambda>d. d\<lparr>c_family_id := Some family\<rparr>) db2)))))"

definition exchange_code ::
  "settings \<Rightarrow> crypto \<Rightarrow> instant \<Rightarrow> string \<times> string \<Rightarrow> string \<Rightarrow> string \<Rightarrow> string \<Rightarrow> string \<Rightarrow> string \<Rightarrow>
     string option \<Rightarrow> string \<Rightarrow> access_db \<Rightarrow> (refusal exn + token_answer) \<times> access_db" where
  "exchange_code cfg cr now raws cid code redirect_uri code_verifier resource ip auth_method db =
     atomic (\<lambda>db.
       case opaque_digest cr code of
         None \<Rightarrow> (Inr (Inl InvalidGrant), db)
       | Some d \<Rightarrow>
           (case first_where (\<lambda>c. c_digest c = d) (codes db) of
              None \<Rightarrow> (Inr (Inl InvalidGrant), db)
            | Some c \<Rightarrow>
                (if c_used_at c \<noteq> None then
                   (let db1 = (case c_family_id c of None \<Rightarrow> db
                         | Some f \<Rightarrow> snd (revoke_tokens (\<lambda>t. t_family_id t = f) ''code_reused'' now db))
                    in code_refused c cid ip ''code_reused'' db1)
                 else
                   (let db1 = save_code (c_id c) (\<lambda>e. e\<lparr>c_used_at := Some now\<rparr>) db
                    in case code_problem cfg cr now cid redirect_uri code_verifier resource c of
                         Some reason \<Rightarrow> code_refused c cid ip reason db1
                       | None \<Rightarrow> exchange_spent cfg cr now raws cid ip auth_method c db1)))) db"

section \<open>Rotating a refresh token\<close>

definition family_started :: "token \<Rightarrow> instant" where
  "family_started t = (case t_family_started_at t of None \<Rightarrow> t_issued_at t | Some s \<Rightarrow> s)"

definition retried_rotation ::
  "settings \<Rightarrow> crypto \<Rightarrow> instant \<Rightarrow> token \<Rightarrow> string \<Rightarrow> access_db \<Rightarrow> issued_tokens option" where
  "retried_rotation cfg cr now t refresh_token db =
     (case (t_revoked_at t, t_replaced_by t) of
        (Some revoked_at, Some s) \<Rightarrow>
          (if now - revoked_at > seconds (refresh_grace_seconds cfg) then None
           else case token_by_id db s of
             None \<Rightarrow> None
           | Some successor \<Rightarrow>
               (if t_replaced_by successor \<noteq> None \<or> t_revoked_at successor \<noteq> None
                   \<or> t_expires_at successor \<le> now then None
                else
                  (let (access_raw, refresh_raw) = successor_pair cfg cr refresh_token
                   in if \<not> same (t_digest successor) (digest cr refresh_raw) then None
                      else case first_where (\<lambda>a. t_digest a = digest cr access_raw \<and>
                             t_kind a = Access \<and> t_family_id a = t_family_id t \<and>
                             t_revoked_at a = None) (tokens db) of
                        None \<Rightarrow> None
                      | Some access \<Rightarrow>
                          (if t_expires_at access \<le> now then None
                           else Some \<lparr>it_access_token = access_raw, it_refresh_token = refresh_raw,
                             it_expires_in = max 1 (int_seconds (t_expires_at access - now)),
                             it_scope = t_scopes successor, it_family_id = t_family_id t\<rparr>))))
      | _ \<Rightarrow> None)"

definition end_family :: "row_id \<Rightarrow> string \<Rightarrow> instant \<Rightarrow> access_db \<Rightarrow> nat \<times> access_db" where
  "end_family f reason now db = revoke_tokens (\<lambda>t. t_family_id t = f) reason now db"

definition refresh_refused ::
  "token \<Rightarrow> string \<Rightarrow> string option \<Rightarrow> string \<Rightarrow> oauth_error \<Rightarrow> access_db \<Rightarrow>
     (refusal exn + token_answer) \<times> access_db" where
  "refresh_refused t cid ip reason err db =
     (Inr (Inl err), refused_token (t_user t) (t_grant t) cid ip ''refresh_token'' reason db)"

definition reuse_detected ::
  "instant \<Rightarrow> token \<Rightarrow> string \<Rightarrow> string option \<Rightarrow> access_db \<Rightarrow> (refusal exn + token_answer) \<times> access_db" where
  "reuse_detected now t cid ip db =
     (let (revoked, db1) = end_family (t_family_id t) ''refresh_reused'' now db
      in (Inr (Inl InvalidGrant),
          record_event REFRESH_REUSE_DETECTED False (Some (t_user t)) (Some (t_grant t))
            (web_context cid ip)
            [(''family'', DId (t_family_id t)), (''tokens_revoked'', DInt (int revoked)),
             (''seconds_since_rotation'',
              (case t_revoked_at t of None \<Rightarrow> DNone | Some r \<Rightarrow> DInt (round_seconds (now - r))))] db1))"

definition requested_problem ::
  "settings \<Rightarrow> string \<Rightarrow> string \<Rightarrow> string \<Rightarrow> token \<Rightarrow> (string \<times> oauth_error) option" where
  \<comment> \<open>the checks of the request against a live token, in their order\<close>
  "requested_problem cfg auth_method resource scope t =
     (if t_auth_method t \<noteq> [] \<and> auth_method \<noteq> [] \<and> t_auth_method t \<noteq> auth_method
      then Some (''auth_method_changed'', InvalidGrant)
      else if resource \<noteq> [] \<and> normalise_resource resource \<noteq> t_resource t
      then Some (''resource_mismatch'', InvalidTarget)
      else if \<not> resource_is_allowed cfg (t_resource t)
      then Some (''resource_not_allowed'', InvalidGrant)
      else if words scope \<noteq> [] \<and> \<not> scope_words scope \<subseteq> scope_set t
      then Some (''scope_widened'', InvalidScope)
      else None)"

definition asked_scope :: "string \<Rightarrow> token \<Rightarrow> string" where
  \<comment> \<open>\<open>'' ''.join(sorted(requested or token.scope_set))\<close>\<close>
  "asked_scope scope t =
     join_words (sort (remdups (if words scope \<noteq> [] then words scope else words (t_scopes t))))"

definition rotate ::
  "settings \<Rightarrow> crypto \<Rightarrow> instant \<Rightarrow> token \<Rightarrow> string \<Rightarrow> string \<Rightarrow> string \<Rightarrow> string option \<Rightarrow> string \<Rightarrow>
     access_db \<Rightarrow> (refusal exn + token_answer) \<times> access_db" where
  \<comment> \<open>the end of \<open>_refresh\<close>: the token is live and the request is within it\<close>
  "rotate cfg cr now t refresh_token cid scope ip auth_method db =
     (case grant_by_id db (t_grant t) of
        None \<Rightarrow> (Inl DoesNotExist, db)
      | Some g \<Rightarrow>
          (case still_may_connect cfg now g (t_user t) (t_user_epoch t) db of
             None \<Rightarrow> refresh_refused t cid ip ''account_not_eligible'' InvalidGrant
                       (snd (end_family (t_family_id t) ''not_eligible'' now db))
           | Some u \<Rightarrow>
               (let scopes = narrow_scope cfg (asked_scope scope t)
                      (may_write cfg (break_glasses db) now (Some u) (Some g) \<and>
                       write_enablement_covers g (Some (family_started t)))
                in case issue_pair cfg cr now (successor_pair cfg cr refresh_token)
                     \<lparr>pr_grant = g, pr_user = u, pr_client_id = t_client_id t, pr_scopes = scopes,
                      pr_resource = t_resource t, pr_family_id = t_family_id t,
                      pr_started_at = family_started t,
                      pr_auth_method = (if t_auth_method t \<noteq> [] then t_auth_method t
                                        else auth_method)\<rparr> db of
                     (Inl e, db1) \<Rightarrow> (Inl e, db1)
                   | (Inr (issued, j), db1) \<Rightarrow>
                       (Inr (Inr issued),
                        record_event TOKEN_REFRESHED True (Some (u_id u)) (Some (g_id g))
                          (web_context cid ip)
                          [(''family'', DId (t_family_id t)), (''scope'', DText scopes)]
                          (save_token (t_id t)
                            (\<lambda>s. s\<lparr>t_replaced_by := Some j, t_revoked_at := Some now,
                                   t_revoke_reason := ''rotated'', t_last_used_at := Some now\<rparr>) db1)))))"

definition refresh_live ::
  "settings \<Rightarrow> crypto \<Rightarrow> instant \<Rightarrow> token \<Rightarrow> string \<Rightarrow> string \<Rightarrow> string \<Rightarrow> string \<Rightarrow> string option \<Rightarrow>
     string \<Rightarrow> access_db \<Rightarrow> (refusal exn + token_answer) \<times> access_db" where
  \<comment> \<open>\<open>_refresh\<close> for a token of this client that was never rotated\<close>
  "refresh_live cfg cr now t refresh_token cid resource scope ip auth_method db =
     (if t_revoked_at t \<noteq> None then refresh_refused t cid ip ''revoked'' InvalidGrant db
      else if t_expires_at t \<le> now then refresh_refused t cid ip ''expired'' InvalidGrant db
      else if family_ends_at cfg (family_started t) \<le> now then
        refresh_refused t cid ip ''family_expired'' InvalidGrant
          (snd (end_family (t_family_id t) ''family_expired'' now db))
      else case requested_problem cfg auth_method resource scope t of
        Some (reason, err) \<Rightarrow> refresh_refused t cid ip reason err db
      | None \<Rightarrow> rotate cfg cr now t refresh_token cid scope ip auth_method db)"

definition refresh ::
  "settings \<Rightarrow> crypto \<Rightarrow> instant \<Rightarrow> string \<Rightarrow> string \<Rightarrow> string \<Rightarrow> string \<Rightarrow> string option \<Rightarrow> string \<Rightarrow>
     access_db \<Rightarrow> (refusal exn + token_answer) \<times> access_db" where
  "refresh cfg cr now cid refresh_token resource scope ip auth_method db =
     atomic (\<lambda>db.
       case opaque_digest cr refresh_token of
         None \<Rightarrow> (Inr (Inl InvalidGrant), db)
       | Some d \<Rightarrow>
           (case first_where (\<lambda>t. t_digest t = d \<and> t_kind t = Refresh) (tokens db) of
              None \<Rightarrow> (Inr (Inl InvalidGrant), db)
            | Some t \<Rightarrow>
                (if \<not> same (t_client_id t) cid then
                   refresh_refused t cid ip ''client_mismatch'' InvalidGrant db
                 else if t_replaced_by t \<noteq> None then
                   (case retried_rotation cfg cr now t refresh_token db of
                      Some retried \<Rightarrow>
                        (Inr (Inr retried),
                         record_event TOKEN_REFRESHED True (Some (t_user t)) (Some (t_grant t))
                           (web_context cid ip)
                           [(''family'', DId (t_family_id t)), (''retry_within_grace'', DBool True)] db)
                    | None \<Rightarrow> reuse_detected now t cid ip db)
                 else refresh_live cfg cr now t refresh_token cid resource scope ip auth_method db))) db"

section \<open>Revocation by the client\<close>

definition token_kind_text :: "token_kind \<Rightarrow> string" where
  "token_kind_text k = (case k of Access \<Rightarrow> ''ACCESS'' | Refresh \<Rightarrow> ''REFRESH'')"

definition revoke_token ::
  "crypto \<Rightarrow> instant \<Rightarrow> string \<Rightarrow> string \<Rightarrow> string option \<Rightarrow> access_db \<Rightarrow>
     (refusal exn + bool) \<times> access_db" where
  "revoke_token cr now cid raw ip db =
     atomic (\<lambda>db.
       case opaque_digest cr raw of
         None \<Rightarrow> (Inr False, db)
       | Some d \<Rightarrow>
           (case first_where (\<lambda>t. t_digest t = d) (tokens db) of
              None \<Rightarrow> (Inr False, db)
            | Some row \<Rightarrow>
                (if \<not> same (t_client_id row) cid then (Inr False, db)
                 else
                   (let (revoked, db1) =
                          (if t_kind row = Refresh
                           then end_family (t_family_id row) ''client_revoked'' now db
                           else revoke_tokens (\<lambda>t. t_id t = t_id row) ''client_revoked'' now db)
                    in (Inr (revoked \<noteq> 0),
                        record_event TOKEN_REVOKED True (Some (t_user row)) (Some (t_grant row))
                          (web_context cid ip)
                          [(''kind'', DText (token_kind_text (t_kind row))),
                           (''tokens_revoked'', DInt (int revoked))] db1))))) db"

end
