(* ===== verification/Operators.thy ===== *)
theory Operators
  imports Grants
begin

text \<open>
  The rest of what an operator does (\<open>manage.py mcp_access\<close>): unlocking a grant, the separate
  write decision with its kill switch, and the listing. From \<open>app/mcp_access/services.py\<close>.
\<close>

section \<open>Unlocking\<close>

definition unlock ::
  "row_id \<Rightarrow> string \<Rightarrow> access_db \<Rightarrow> (refusal exn + bool) \<times> access_db" where
  "unlock uid provenance db =
     atomic (\<lambda>db.
       case open_grant db uid of
         None \<Rightarrow> (Inl (Refused NoOpenGrant), db)
       | Some g \<Rightarrow>
           (let was_suspended = is_suspended g;
                was_locked = (g_locked_until g \<noteq> None \<or> g_failed_attempts g > 0
                              \<or> g_lock_count g > 0 \<or> was_suspended);
                db1 = save_grant (g_id g)
                  (\<lambda>h. h\<lparr>g_failed_attempts := 0, g_locked_until := None, g_lock_count := 0,
                         g_suspended_at := None\<rparr>) db
            in (Inr was_locked,
                record_event GRANT_UNLOCKED True (Some uid) (Some (g_id g))
                  (operator_context provenance)
                  [(''was_suspended'', DBool was_suspended),
                   (''total_failed_attempts'', DInt (int (g_total_failed_attempts g)))] db1))) db"

section \<open>The write decision\<close>

definition write_refusal ::
  "settings \<Rightarrow> break_glass list \<Rightarrow> instant \<Rightarrow> user \<Rightarrow> grant option \<Rightarrow> refusal option" where
  "write_refusal cfg bgs now u go =
     (if \<not> u_active u then Some AccountNotActive
      else if \<not> may_write_business_content (Person u) then Some NoWriteRole
      else case grant_refusal cfg bgs now u of
        Some r \<Rightarrow> Some r
      | None \<Rightarrow>
          (case go of
             None \<Rightarrow> Some NoOpenGrant
           | Some g \<Rightarrow> if write_is_enabled g then Some WriteAlreadyEnabled else None))"

definition grant_write_body ::
  "settings \<Rightarrow> instant \<Rightarrow> row_id \<Rightarrow> string \<Rightarrow> access_db \<Rightarrow>
     (refusal exn + (refusal + row_id)) \<times> access_db" where
  "grant_write_body cfg now uid provenance db =
     (case user_by_id db uid of
        None \<Rightarrow> (Inl DoesNotExist, db)
      | Some locked \<Rightarrow>
          (let go = open_grant db uid
           in case (write_refusal cfg (break_glasses db) now locked go, go) of
                (Some r, _) \<Rightarrow>
                  (Inr (Inl r),
                   record_event WRITE_REFUSED False (Some uid) (map_option g_id go)
                     (operator_context provenance) [(''reason'', DRefusal r)] db)
              | (None, None) \<Rightarrow> (Inr (Inl NoOpenGrant), db)
              | (None, Some g) \<Rightarrow>
                  (Inr (Inr (g_id g)),
                   record_event WRITE_ENABLED True (Some uid) (Some (g_id g))
                     (operator_context provenance) []
                     (save_grant (g_id g)
                       (\<lambda>h. h\<lparr>g_write_enabled_at := Some now,
                              g_write_enabled_via := take 300 provenance,
                              g_write_revoked_at := None, g_write_revoke_reason := []\<rparr>) db))))"

definition grant_write ::
  "settings \<Rightarrow> instant \<Rightarrow> row_id \<Rightarrow> string \<Rightarrow> access_db \<Rightarrow> (refusal exn + row_id) \<times> access_db" where
  "grant_write cfg now uid provenance db =
     raise_refusal (atomic (grant_write_body cfg now uid provenance) db)"

definition end_write :: "row_id \<Rightarrow> string \<Rightarrow> instant \<Rightarrow> access_db \<Rightarrow> access_db" where
  "end_write gid reason now db =
     save_grant gid
       (\<lambda>h. h\<lparr>g_write_revoked_at := Some now, g_write_revoke_reason := take 300 reason\<rparr>) db"

definition revoke_write ::
  "instant \<Rightarrow> row_id \<Rightarrow> string \<Rightarrow> string \<Rightarrow> access_db \<Rightarrow> (refusal exn + unit) \<times> access_db" where
  "revoke_write now uid reason provenance db =
     atomic (\<lambda>db.
       if blank reason then (Inl (Refused ReasonRequired), db)
       else case user_by_id db uid of
         None \<Rightarrow> (Inl DoesNotExist, db)
       | Some _ \<Rightarrow>
           (case open_grant db uid of
              None \<Rightarrow> (Inl (Refused NoOpenGrant), db)
            | Some g \<Rightarrow>
                (if \<not> write_is_enabled g then (Inl (Refused NoWritePermission), db)
                 else (Inr (),
                   record_event WRITE_REVOKED True (Some uid) (Some (g_id g))
                     (operator_context provenance) [(''reason'', DText (take 300 reason))]
                     (end_write (g_id g) reason now db))))) db"

fun end_writes :: "grant list \<Rightarrow> string \<Rightarrow> string \<Rightarrow> instant \<Rightarrow> access_db \<Rightarrow> access_db" where
  "end_writes [] reason provenance now db = db"
| "end_writes (g # gs) reason provenance now db =
     end_writes gs reason provenance now
       (record_event WRITE_REVOKED True (Some (g_user g)) (Some (g_id g))
          (operator_context provenance)
          [(''reason'', DText (take 300 reason)), (''revoke_all_writes'', DBool True)]
          (end_write (g_id g) reason now db))"

definition revoke_all_writes ::
  "instant \<Rightarrow> string \<Rightarrow> string \<Rightarrow> access_db \<Rightarrow> (refusal exn + nat) \<times> access_db" where
  "revoke_all_writes now reason provenance db =
     atomic (\<lambda>db.
       if blank reason then (Inl (Refused ReasonRequired), db)
       else
         (let gs = filter write_is_enabled (grants db)
          in (Inr (length gs), end_writes gs reason provenance now db))) db"

section \<open>The listing\<close>

datatype write_state = WriteOn | WriteRevoked | WriteNever

definition write_state_of :: "grant \<Rightarrow> write_state" where
  "write_state_of g =
     (if write_is_enabled g then WriteOn
      else if g_write_revoked_at g \<noteq> None then WriteRevoked
      else WriteNever)"

record grant_row =
  gr_upn :: string
  gr_status :: grant_status
  gr_enrolled :: bool
  gr_active_tokens :: nat
  gr_last_used :: "instant option"
  gr_locked_until :: "instant option"
  gr_suspended :: bool
  gr_total_failed_attempts :: nat
  gr_write :: write_state

definition max_of :: "instant list \<Rightarrow> instant option" where
  \<comment> \<open>\<open>max(stamps) if stamps else None\<close>, and SQL's \<open>MAX\<close>, which skips nulls\<close>
  "max_of xs = (case xs of [] \<Rightarrow> None | x # ys \<Rightarrow> Some (fold max ys x))"

definition grant_row_of :: "access_db \<Rightarrow> instant \<Rightarrow> grant \<Rightarrow> grant_row" where
  "grant_row_of db now g =
     (let own = filter (\<lambda>t. t_grant t = g_id g) (tokens db);
          last_issue = max_of (map t_issued_at own);
          last_refresh = max_of (List.map_filter t_last_used_at own)
      in \<lparr>gr_upn = (case user_by_id db (g_user g) of None \<Rightarrow> [] | Some u \<Rightarrow> u_upn u),
          gr_status = g_status g,
          gr_enrolled = (authenticator_of db (g_id g) \<noteq> None),
          gr_active_tokens =
            count_where (\<lambda>t. t_revoked_at t = None \<and> t_expires_at t > now) own,
          gr_last_used = max_of (List.map_filter id [last_issue, last_refresh]),
          gr_locked_until = (if is_locked_at g now then g_locked_until g else None),
          gr_suspended = is_suspended g,
          gr_total_failed_attempts = g_total_failed_attempts g,
          gr_write = write_state_of g\<rparr>)"

definition grant_rows :: "access_db \<Rightarrow> instant \<Rightarrow> grant_row list" where
  \<comment> \<open>newest first, by \<open>created_at\<close>\<close>
  "grant_rows db now =
     map (grant_row_of db now) (rev (sort_key g_created_at (grants db)))"

end
