(* ===== verification/Interfaces.thy ===== *)
theory Interfaces
  imports Prelude
begin

text \<open>
  The contracts that more than one component relies on, as locales over the operations a
  client calls. The components interpret them on their own definitions:

  \<^item> \<open>step_system\<close>: an invariant that every operation keeps holds after every sequence of them;
  \<^item> \<open>final_rows\<close>: a row in a final status is never changed again, whatever is called;
  \<^item> \<open>replay_guard\<close>: a check that accepts only a value later than the last one it accepted;
  \<^item> \<open>guess_budget\<close>: a counter that closes after a fixed number of failures.
\<close>

section \<open>Invariants of a sequence of operations\<close>

locale step_system =
  fixes step :: "'s \<Rightarrow> 'e \<Rightarrow> 's"
    and inv :: "'s \<Rightarrow> bool"
  assumes step_inv: "inv s \<Longrightarrow> inv (step s e)"
begin

lemma run_inv: "inv s \<Longrightarrow> inv (foldl step s es)"
  by (induction es arbitrary: s) (auto intro: step_inv)

lemma run_prefix_inv: "inv s \<Longrightarrow> inv (foldl step s (take n es))"
  by (rule run_inv)

end

section \<open>Final statuses\<close>

locale final_rows = step_system +
  fixes final :: "'s \<Rightarrow> 'k \<Rightarrow> bool"
    and view :: "'s \<Rightarrow> 'k \<Rightarrow> 'v"
  assumes final_kept: "inv s \<Longrightarrow> final s k \<Longrightarrow> final (step s e) k"
    and view_kept: "inv s \<Longrightarrow> final s k \<Longrightarrow> view (step s e) k = view s k"
begin

lemma final_forever: "inv s \<Longrightarrow> final s k \<Longrightarrow> final (foldl step s es) k"
  by (induction es arbitrary: s) (auto intro: step_inv final_kept)

lemma view_forever: "inv s \<Longrightarrow> final s k \<Longrightarrow> view (foldl step s es) k = view s k"
proof (induction es arbitrary: s)
  case (Cons e es)
  then show ?case by (simp add: step_inv final_kept view_kept)
qed simp

end

section \<open>Single-use values with an order\<close>

text \<open>
  \<open>accepts s i\<close> is the value the check accepts on input \<open>i\<close>, if any; \<open>spend s i\<close> is the state
  after it, and \<open>mark s\<close> the last value accepted.
\<close>

locale replay_guard =
  fixes accepts :: "'s \<Rightarrow> 'i \<Rightarrow> int option"
    and spend :: "'s \<Rightarrow> 'i \<Rightarrow> 's"
    and mark :: "'s \<Rightarrow> int"
  assumes accepts_later: "accepts s i = Some n \<Longrightarrow> mark s < n \<and> mark (spend s i) = n"
    and refused_kept: "accepts s i = None \<Longrightarrow> mark (spend s i) = mark s"
begin

fun accepted :: "'s \<Rightarrow> 'i list \<Rightarrow> int list" where
  "accepted s [] = []"
| "accepted s (i # is) =
     (case accepts s i of None \<Rightarrow> [] | Some n \<Rightarrow> [n]) @ accepted (spend s i) is"

lemma accepted_above: "n \<in> set (accepted s is) \<Longrightarrow> mark s < n"
proof (induction "is" arbitrary: s)
  case (Cons i "is")
  show ?case
  proof (cases "accepts s i")
    case None
    with Cons.prems have "n \<in> set (accepted (spend s i) is)" by simp
    with Cons.IH [of "spend s i"] None show ?thesis by (simp add: refused_kept)
  next
    case (Some m)
    with Cons.prems have "n = m \<or> n \<in> set (accepted (spend s i) is)" by simp
    then show ?thesis
    proof
      assume "n = m"
      with Some show ?thesis using accepts_later [of s i m] by simp
    next
      assume "n \<in> set (accepted (spend s i) is)"
      then have "mark (spend s i) < n" by (rule Cons.IH)
      with accepts_later [OF Some] show ?thesis by simp
    qed
  qed
qed simp

lemma accepted_strictly_increasing: "sorted_wrt (<) (accepted s is)"
proof (induction "is" arbitrary: s)
  case (Cons i "is")
  show ?case
  proof (cases "accepts s i")
    case None
    then show ?thesis using Cons.IH by simp
  next
    case (Some m)
    have "\<forall>n \<in> set (accepted (spend s i) is). m < n"
      using accepted_above accepts_later [OF Some] by metis
    with Some show ?thesis using Cons.IH by simp
  qed
qed simp

lemma accepted_once: "distinct (accepted s is)"
  using accepted_strictly_increasing [of s "is"] by (simp add: strict_sorted_iff)

end

section \<open>A bounded number of failures\<close>

text \<open>
  \<open>fails s i\<close> is the state after one failed attempt, \<open>admits s\<close> whether an attempt would be
  checked at all, \<open>spent s\<close> how much of the budget is gone; \<open>apt s i\<close> says which attempts the
  contract speaks of (those of one window, for a counter with windows).
\<close>

locale guess_budget =
  fixes fails :: "'s \<Rightarrow> 'i \<Rightarrow> 's"
    and admits :: "'s \<Rightarrow> bool"
    and spent :: "'s \<Rightarrow> nat"
    and budget :: nat
    and apt :: "'s \<Rightarrow> 'i \<Rightarrow> bool"
  assumes admitted_spends: "apt s i \<Longrightarrow> admits s \<Longrightarrow> spent (fails s i) = Suc (spent s)"
    and closed_keeps: "apt s i \<Longrightarrow> \<not> admits s \<Longrightarrow> spent (fails s i) = spent s"
    and admits_iff: "apt s i \<Longrightarrow> admits s \<longleftrightarrow> spent s < budget"
    and apt_kept: "apt s i \<Longrightarrow> apt s j \<Longrightarrow> apt (fails s i) j"
begin

fun admitted :: "'s \<Rightarrow> 'i list \<Rightarrow> nat" where
  "admitted s [] = 0"
| "admitted s (i # is) = (if admits s then 1 else 0) + admitted (fails s i) is"

lemma spent_after:
  "\<forall>i \<in> set is. apt s i \<Longrightarrow> spent (foldl fails s is) = spent s + admitted s is"
proof (induction "is" arbitrary: s)
  case (Cons i "is")
  then have "\<forall>j \<in> set is. apt (fails s i) j" by (auto intro: apt_kept)
  then have "spent (foldl fails (fails s i) is) = spent (fails s i) + admitted (fails s i) is"
    by (rule Cons.IH)
  moreover have "spent (fails s i) = spent s + (if admits s then 1 else 0)"
    using Cons.prems by (simp add: admitted_spends closed_keeps)
  ultimately show ?case by simp
qed simp

lemma admitted_count:
  "\<forall>i \<in> set is. apt s i \<Longrightarrow> spent s \<le> budget \<Longrightarrow> admitted s is = min (length is) (budget - spent s)"
proof (induction "is" arbitrary: s)
  case (Cons i "is")
  then have apt: "apt s i" and rest: "\<forall>j \<in> set is. apt (fails s i) j" by (auto intro: apt_kept)
  show ?case
  proof (cases "admits s")
    case True
    with apt Cons.prems(2) have "spent (fails s i) = Suc (spent s)" "spent s < budget"
      by (simp_all add: admitted_spends admits_iff)
    with Cons.IH [OF rest] True show ?thesis by simp
  next
    case False
    with apt Cons.prems(2) have "spent (fails s i) = spent s" "spent s = budget"
      by (simp_all add: closed_keeps admits_iff [OF apt])
    with Cons.IH [OF rest] False show ?thesis by simp
  qed
qed simp

lemma closed_after:
  assumes "\<forall>i \<in> set is. apt s i" and "spent s \<le> budget" and "budget - spent s \<le> length is"
  shows "spent (foldl fails s is) = budget"
  using assms by (simp add: spent_after admitted_count)

end

end
