(* ===== verification/AccessMachine.thy ===== *)
theory AccessMachine
  imports Tokens Operators Interfaces
begin

text \<open>
  The abstract machine of the authorization server: what may happen to its tables in one step,
  as a relation \<open>moves\<close> whose rules say nothing of requests, clients or pages, and the invariant
  \<open>access_inv\<close> that every move keeps. That every operation of the services is a sequence of
  moves is proved in \<open>AccessRefinement\<close>; what holds of all moves (revoked tokens, spent codes and
  ended grants never change again, the trail only grows, a time step only advances) then holds
  of every operation.
\<close>

section \<open>The invariant\<close>

definition counters_ok :: "grant \<Rightarrow> bool" where
  "counters_ok g \<longleftrightarrow>
     g_failed_attempts g < max_failed_codes \<and>
     g_lock_count g \<le> Suc (length lock_ladder_seconds) \<and>
     (is_suspended g \<longleftrightarrow> g_lock_count g = Suc (length lock_ladder_seconds)) \<and>
     (is_suspended g \<longrightarrow> g_failed_attempts g = 0 \<and> g_locked_until g = None) \<and>
     max_failed_codes * g_lock_count g + g_failed_attempts g \<le> g_total_failed_attempts g"

definition owned :: "grant list \<Rightarrow> row_id \<Rightarrow> row_id \<Rightarrow> (grant_status \<Rightarrow> bool) \<Rightarrow> bool" where
  "owned gs gid uid p \<longleftrightarrow>
     (\<exists>g \<in> set gs. g_id g = gid \<and> g_user g = uid \<and> p (g_status g))"

definition held :: "grant list \<Rightarrow> row_id \<Rightarrow> (grant_status \<Rightarrow> bool) \<Rightarrow> bool" where
  "held gs gid p \<longleftrightarrow> (\<exists>g \<in> set gs. g_id g = gid \<and> p (g_status g))"

definition grants_ok :: "grant list \<Rightarrow> row_id \<Rightarrow> bool" where
  "grants_ok gs n \<longleftrightarrow>
     unique_on g_id gs \<and> unique_when open_status g_user gs \<and>
     (\<forall>g \<in> set gs. g_id g < n \<and> counters_ok g)"

definition links_ok :: "grant list \<Rightarrow> enrolment_link list \<Rightarrow> row_id \<Rightarrow> bool" where
  "links_ok gs ls n \<longleftrightarrow>
     unique_on l_id ls \<and> unique_on l_selector ls \<and> unique_when link_live l_grant ls \<and>
     (\<forall>l \<in> set ls. l_id l < n \<and>
        held gs (l_grant l) (\<lambda>s. link_live l \<longrightarrow> s = PendingEnrolment))"

definition authenticators_ok :: "grant list \<Rightarrow> authenticator list \<Rightarrow> bool" where
  "authenticators_ok gs as \<longleftrightarrow>
     unique_on a_grant as \<and>
     (\<forall>a \<in> set as. held gs (a_grant a) (\<lambda>s. s \<noteq> PendingEnrolment)) \<and>
     (\<forall>g \<in> set gs. g_status g = Active \<longrightarrow> (\<exists>a \<in> set as. a_grant a = g_id g))"

definition code_ok :: "grant list \<Rightarrow> row_id \<Rightarrow> authorization_code \<Rightarrow> bool" where
  "code_ok gs n c \<longleftrightarrow> c_id c < n \<and>
     owned gs (c_grant c) (c_user c)
       (\<lambda>s. if c_used_at c = None then s = Active else s \<noteq> PendingEnrolment) \<and>
     (c_used_at c = None \<longrightarrow> c_family_id c = None) \<and>
     (\<forall>f. c_family_id c = Some f \<longrightarrow> f < n)"

definition codes_ok :: "grant list \<Rightarrow> authorization_code list \<Rightarrow> row_id \<Rightarrow> bool" where
  "codes_ok gs cs n \<longleftrightarrow>
     unique_on c_id cs \<and> unique_on c_digest cs \<and> (\<forall>c \<in> set cs. code_ok gs n c)"

definition live_refresh :: "token \<Rightarrow> bool" where
  "live_refresh t \<longleftrightarrow> t_kind t = Refresh \<and> t_revoked_at t = None"

definition lineage :: "token \<Rightarrow> row_id \<times> row_id \<times> string \<times> string \<times> instant" where
  \<comment> \<open>what all tokens of a family share\<close>
  "lineage t = (t_grant t, t_user t, t_client_id t, t_resource t, family_started t)"

definition token_ok :: "grant list \<Rightarrow> row_id \<Rightarrow> token \<Rightarrow> bool" where
  "token_ok gs n t \<longleftrightarrow> t_id t < n \<and> t_family_id t < n \<and>
     owned gs (t_grant t) (t_user t)
       (\<lambda>s. if t_revoked_at t = None then s = Active else s \<noteq> PendingEnrolment) \<and>
     (t_replaced_by t \<noteq> None \<longrightarrow> t_revoked_at t \<noteq> None)"

definition one_lineage :: "token list \<Rightarrow> bool" where
  "one_lineage ts \<longleftrightarrow>
     (\<forall>s \<in> set ts. \<forall>t \<in> set ts. t_family_id s = t_family_id t \<longrightarrow> lineage s = lineage t)"

definition tokens_ok :: "grant list \<Rightarrow> token list \<Rightarrow> row_id \<Rightarrow> bool" where
  "tokens_ok gs ts n \<longleftrightarrow>
     unique_on t_id ts \<and> unique_on t_digest ts \<and> unique_when live_refresh t_family_id ts \<and>
     (\<forall>t \<in> set ts. token_ok gs n t) \<and> one_lineage ts"

definition access_inv :: "access_db \<Rightarrow> bool" where
  "access_inv db \<longleftrightarrow> unique_on u_id (users db) \<and> unique_on th_key (throttles db) \<and>
     grants_ok (grants db) (next_id db) \<and>
     links_ok (grants db) (links db) (next_id db) \<and>
     authenticators_ok (grants db) (authenticators db) \<and>
     codes_ok (grants db) (codes db) (next_id db) \<and>
     tokens_ok (grants db) (tokens db) (next_id db)"

lemmas access_inv_defs = grants_ok_def links_ok_def authenticators_ok_def codes_ok_def tokens_ok_def

section \<open>The moves\<close>

definition keeps_grant :: "(grant \<Rightarrow> grant) \<Rightarrow> grant \<Rightarrow> bool" where
  "keeps_grant f h \<longleftrightarrow> g_id (f h) = g_id h \<and> g_user (f h) = g_user h \<and> g_status (f h) = g_status h
     \<and> g_revoked_at (f h) = g_revoked_at h \<and> g_revoke_reason (f h) = g_revoke_reason h
     \<and> (counters_ok h \<longrightarrow> counters_ok (f h))"

definition is_pair :: "row_id \<Rightarrow> token \<Rightarrow> token \<Rightarrow> bool" where
  \<comment> \<open>two new tokens of one family, with the next two ids\<close>
  "is_pair i a r \<longleftrightarrow> t_id a = i \<and> t_id r = Suc i \<and> t_kind a = Access \<and> t_kind r = Refresh \<and>
     t_revoked_at a = None \<and> t_revoked_at r = None \<and> t_replaced_by a = None \<and> t_replaced_by r = None \<and>
     t_family_id a = t_family_id r \<and> lineage a = lineage r \<and> t_digest a \<noteq> t_digest r"

definition add_pair :: "token \<Rightarrow> token \<Rightarrow> access_db \<Rightarrow> access_db" where
  "add_pair a r db = db\<lparr>tokens := tokens db @ [a, r], next_id := Suc (Suc (next_id db))\<rparr>"

definition use_code :: "row_id \<Rightarrow> instant \<Rightarrow> row_id option \<Rightarrow> access_db \<Rightarrow> access_db" where
  "use_code i now f db =
     save_code i (\<lambda>c. c\<lparr>c_used_at := Some now, c_family_id := f\<rparr>) db"

definition rotate_token :: "row_id \<Rightarrow> instant \<Rightarrow> row_id \<Rightarrow> access_db \<Rightarrow> access_db" where
  "rotate_token i now j db =
     save_token i (\<lambda>s. s\<lparr>t_replaced_by := Some j, t_revoked_at := Some now,
                          t_revoke_reason := ''rotated'', t_last_used_at := Some now\<rparr>) db"

inductive moves :: "access_db \<Rightarrow> access_db \<Rightarrow> bool" where
  trail: "moves db (db\<lparr>events := events db @ [e]\<rparr>)"
| next_row: "moves db (db\<lparr>next_id := Suc (next_id db)\<rparr>)"
| throttle: "unique_on th_key rows \<Longrightarrow> moves db (db\<lparr>throttles := rows\<rparr>)"
| people: "unique_on u_id us \<Longrightarrow> moves db (db\<lparr>users := us, break_glasses := bgs\<rparr>)"
| new_grant: "g_id g = next_id db \<Longrightarrow> g_status g = PendingEnrolment \<Longrightarrow> counters_ok g \<Longrightarrow>
    \<forall>h \<in> set (grants db). open_status h \<longrightarrow> g_user h \<noteq> g_user g \<Longrightarrow>
    moves db (db\<lparr>next_id := Suc (next_id db), grants := grants db @ [g]\<rparr>)"
| edit_grant: "\<forall>h \<in> set (grants db). g_id h = i \<longrightarrow> keeps_grant f h \<Longrightarrow> moves db (save_grant i f db)"
| end_grant: "g \<in> set (grants db) \<Longrightarrow> open_status g \<Longrightarrow> moves db (snd (end_grant g reason now db))"
| new_link: "held (grants db) gid (\<lambda>s. s = PendingEnrolment) \<Longrightarrow> l_grant l = gid \<Longrightarrow> l_id l = next_id db \<Longrightarrow>
    \<forall>m \<in> set (links db). l_selector m \<noteq> l_selector l \<Longrightarrow>
    moves db ((invalidate_links gid now db)\<lparr>next_id := Suc (next_id db),
      links := links (invalidate_links gid now db) @ [l]\<rparr>)"
| enrol: "l \<in> set (links db) \<Longrightarrow> g \<in> set (grants db) \<Longrightarrow> g_id g = l_grant l \<Longrightarrow>
    g_status g = PendingEnrolment \<Longrightarrow> link_live l \<Longrightarrow> a_grant a = g_id g \<Longrightarrow>
    moves db (save_grant (g_id g)
      (\<lambda>h. h\<lparr>g_status := Active, g_activated_at := Some now, g_failed_attempts := 0,
             g_locked_until := None\<rparr>)
      (save_link (l_id l) (\<lambda>k. k\<lparr>l_used_at := Some now\<rparr>)
        (db\<lparr>authenticators := authenticators db @ [a]\<rparr>)))"
| spend_step: "\<forall>a \<in> set (authenticators db). a_grant a = gid \<longrightarrow> a_last_used_step a < n \<Longrightarrow>
    moves db (save_authenticator gid (\<lambda>b. b\<lparr>a_last_used_step := n\<rparr>) db)"
| new_code: "c_id c = next_id db \<Longrightarrow> c_used_at c = None \<Longrightarrow> c_family_id c = None \<Longrightarrow>
    owned (grants db) (c_grant c) (c_user c) (\<lambda>s. s = Active) \<Longrightarrow>
    \<forall>d \<in> set (codes db). c_digest d \<noteq> c_digest c \<Longrightarrow>
    moves db (db\<lparr>next_id := Suc (next_id db), codes := codes db @ [c]\<rparr>)"
| spend_code: "c \<in> set (codes db) \<Longrightarrow> c_used_at c = None \<Longrightarrow> moves db (use_code (c_id c) now None db)"
| exchange: "c \<in> set (codes db) \<Longrightarrow> c_used_at c = None \<Longrightarrow> t_family_id a = next_id db \<Longrightarrow>
    is_pair (Suc (next_id db)) a r \<Longrightarrow> owned (grants db) (t_grant a) (t_user a) (\<lambda>s. s = Active) \<Longrightarrow>
    \<forall>s \<in> set (tokens db). t_digest s \<noteq> t_digest a \<and> t_digest s \<noteq> t_digest r \<Longrightarrow>
    moves db (use_code (c_id c) now (Some (next_id db))
      (add_pair a r (db\<lparr>next_id := Suc (next_id db)\<rparr>)))"
| revoke: "moves db (snd (revoke_tokens p reason now db))"
| rotation: "t \<in> set (tokens db) \<Longrightarrow> live_refresh t \<Longrightarrow> is_pair (next_id db) a r \<Longrightarrow>
    t_family_id a = t_family_id t \<Longrightarrow> lineage a = lineage t \<Longrightarrow>
    \<forall>s \<in> set (tokens db). t_digest s \<noteq> t_digest a \<and> t_digest s \<noteq> t_digest r \<Longrightarrow>
    moves db (rotate_token (t_id t) now (t_id r) (add_pair a r db))"

abbreviation reaches :: "access_db \<Rightarrow> access_db \<Rightarrow> bool" where
  "reaches \<equiv> moves\<^sup>*\<^sup>*"

lemma reaches_event [simp]: "reaches db db1 \<Longrightarrow> reaches db (record_event et ok u g x d db1)"
  unfolding record_event_def by (erule rtranclp.rtrancl_into_rtrancl, rule moves.trail)

lemma reaches_refused [simp]: "reaches db db1 \<Longrightarrow> reaches db (refused_check ev u g x r db1)"
  unfolding refused_check_def by simp

section \<open>Every move keeps the invariant\<close>

lemma owned_mono: "owned (grants db) gid u p \<Longrightarrow> (\<And>s. p s \<Longrightarrow> q s) \<Longrightarrow> owned (grants db) gid u q"
  by (auto simp: owned_def)

lemma held_owned: "held gs gid p \<longleftrightarrow> (\<exists>u. owned gs gid u p)"
  by (auto simp: held_def owned_def)

lemma owned_update:
  assumes "owned gs gid u p"
    and "\<And>h. h \<in> set gs \<Longrightarrow> c h \<Longrightarrow> g_id (f h) = g_id h \<and> g_user (f h) = g_user h \<and>
           (g_id h = gid \<longrightarrow> p (g_status h) \<longrightarrow> q (g_status (f h)))"
    and "\<And>h. h \<in> set gs \<Longrightarrow> \<not> c h \<Longrightarrow> g_id h = gid \<Longrightarrow> p (g_status h) \<Longrightarrow> q (g_status h)"
  shows "owned (update_where c f gs) gid u q"
proof -
  from assms(1) obtain g where g: "g \<in> set gs" "g_id g = gid" "g_user g = u" "p (g_status g)"
    by (auto simp: owned_def)
  let ?h = "if c g then f g else g"
  have "?h \<in> set (update_where c f gs)" using g(1) by (auto simp: in_update_where)
  moreover have "g_id ?h = gid \<and> g_user ?h = u \<and> q (g_status ?h)"
    using g assms(2) [of g] assms(3) [of g] by auto
  ultimately show ?thesis unfolding owned_def by blast
qed

lemma save_grant_frame [simp]:
  "users (save_grant i f db) = users db" "break_glasses (save_grant i f db) = break_glasses db"
  "authenticators (save_grant i f db) = authenticators db" "links (save_grant i f db) = links db"
  "codes (save_grant i f db) = codes db" "tokens (save_grant i f db) = tokens db"
  "throttles (save_grant i f db) = throttles db" "events (save_grant i f db) = events db"
  "next_id (save_grant i f db) = next_id db"
  by (simp_all add: save_grant_def)

lemma grants_ok_mono: "n \<le> m \<Longrightarrow> grants_ok gs n \<Longrightarrow> grants_ok gs m"
  unfolding grants_ok_def by (meson order_less_le_trans)

lemma links_ok_mono: "n \<le> m \<Longrightarrow> links_ok gs ls n \<Longrightarrow> links_ok gs ls m"
  unfolding links_ok_def by (meson order_less_le_trans)

lemma codes_ok_mono: "n \<le> m \<Longrightarrow> codes_ok gs cs n \<Longrightarrow> codes_ok gs cs m"
  unfolding codes_ok_def code_ok_def by (meson order_less_le_trans)

lemma tokens_ok_mono: "n \<le> m \<Longrightarrow> tokens_ok gs ts n \<Longrightarrow> tokens_ok gs ts m"
  unfolding tokens_ok_def token_ok_def by (meson order_less_le_trans)

lemmas ok_mono = grants_ok_mono links_ok_mono codes_ok_mono tokens_ok_mono

text \<open>Changes of the grants that keep who owns what.\<close>

lemma owns_kept:
  assumes "\<And>gid u p. owned gs gid u p \<Longrightarrow> owned gs' gid u p"
  shows "links_ok gs ls n \<Longrightarrow> links_ok gs' ls n" "codes_ok gs cs n \<Longrightarrow> codes_ok gs' cs n"
    "tokens_ok gs ts n \<Longrightarrow> tokens_ok gs' ts n" "held gs gid p \<Longrightarrow> held gs' gid p"
  unfolding links_ok_def codes_ok_def code_ok_def tokens_ok_def token_ok_def held_owned
  by (meson assms)+

lemma owned_edit:
  assumes "\<forall>h \<in> set gs. g_id h = i \<longrightarrow> keeps_grant f h" and "owned gs gid u p"
  shows "owned (update_where (\<lambda>g. g_id g = i) f gs) gid u p"
  using assms(2) by (rule owned_update) (use assms(1) in \<open>auto simp: keeps_grant_def\<close>)

lemma grants_ok_edit:
  assumes "\<forall>h \<in> set gs. g_id h = i \<longrightarrow> keeps_grant f h" and "grants_ok gs n"
  shows "grants_ok (update_where (\<lambda>g. g_id g = i) f gs) n"
  using assms
  by (auto simp: grants_ok_def ball_update_where keeps_grant_def open_status_def
      intro!: unique_on_update [THEN iffD2] unique_when_update)

lemma authenticators_ok_edit:
  assumes "\<forall>h \<in> set gs. g_id h = i \<longrightarrow> keeps_grant f h" and "authenticators_ok gs as"
  shows "authenticators_ok (update_where (\<lambda>g. g_id g = i) f gs) as"
  using assms owns_kept(4) [OF owned_edit [OF assms(1)]]
  by (auto simp: authenticators_ok_def in_update_where keeps_grant_def split: if_splits)

lemma edit_grant_inv:
  assumes "\<forall>h \<in> set (grants db). g_id h = i \<longrightarrow> keeps_grant f h" and "access_inv db"
  shows "access_inv (save_grant i f db)"
  using assms(2) grants_ok_edit [OF assms(1)] authenticators_ok_edit [OF assms(1)]
    owns_kept [OF owned_edit [OF assms(1)]]
  by (simp add: access_inv_def) (simp add: save_grant_def)

text \<open>A new grant.\<close>

lemma owned_snoc: "owned gs gid u p \<Longrightarrow> owned (gs @ [g]) gid u p"
  by (auto simp: owned_def)

lemma new_grant_inv:
  assumes "g_id g = next_id db" "g_status g = PendingEnrolment" "counters_ok g"
    "\<forall>h \<in> set (grants db). open_status h \<longrightarrow> g_user h \<noteq> g_user g" and "access_inv db"
  shows "access_inv (db\<lparr>next_id := Suc (next_id db), grants := grants db @ [g]\<rparr>)"
proof -
  have "grants_ok (grants db @ [g]) (Suc (next_id db))"
    using assms by (auto simp: access_inv_def grants_ok_def unique_on_snoc unique_when_snoc)
  moreover have "authenticators_ok (grants db @ [g]) (authenticators db)"
    using assms(2,5) owns_kept(4) [OF owned_snoc, of "grants db"]
    by (auto simp: access_inv_def authenticators_ok_def)
  ultimately show ?thesis
    using assms(5) owns_kept [OF owned_snoc, where gs = "grants db"] ok_mono [OF le_SucI [OF le_refl]]
    by (simp add: access_inv_def)
qed

text \<open>Revoking tokens.\<close>

lemma revoke_tokens_simps:
  "snd (revoke_tokens p reason now db) =
     db\<lparr>tokens := update_where (\<lambda>t. p t \<and> t_revoked_at t = None)
       (\<lambda>t. t\<lparr>t_revoked_at := Some now, t_revoke_reason := take 64 reason\<rparr>) (tokens db)\<rparr>"
  by (simp add: revoke_tokens_def Let_def)

lemma token_ok_revoked:
  "token_ok gs n t \<Longrightarrow> t_revoked_at t = None \<Longrightarrow>
     token_ok gs n (t\<lparr>t_revoked_at := Some now, t_revoke_reason := r\<rparr>)"
  by (auto simp: token_ok_def owned_def)

lemma one_lineage_update:
  assumes "\<And>t. lineage (f t) = lineage t \<and> t_family_id (f t) = t_family_id t" and "one_lineage ts"
  shows "one_lineage (update_where p f ts)"
proof -
  have same: "lineage (if p t then f t else t) = lineage t"
    "t_family_id (if p t then f t else t) = t_family_id t" for t
    using assms(1) by simp_all
  show ?thesis
    using assms(2) unfolding one_lineage_def ball_update_where same .
qed

lemma one_lineage_snoc:
  "one_lineage ts \<Longrightarrow> (\<And>s. s \<in> set ts \<Longrightarrow> t_family_id s = t_family_id t \<Longrightarrow> lineage s = lineage t) \<Longrightarrow>
     one_lineage (ts @ [t])"
  unfolding one_lineage_def by (metis Un_iff set_append set_ConsD list.set(1) empty_iff)

lemma lineage_stamps [simp]:
  "lineage (t\<lparr>t_revoked_at := a, t_revoke_reason := r\<rparr>) = lineage t"
  "lineage (t\<lparr>t_replaced_by := j, t_revoked_at := a, t_revoke_reason := r, t_last_used_at := b\<rparr>)
     = lineage t"
  by (simp_all add: lineage_def family_started_def split: option.split)

lemma tokens_ok_revoke:
  assumes "tokens_ok gs ts n"
  shows "tokens_ok gs (update_where (\<lambda>t. p t \<and> t_revoked_at t = None)
      (\<lambda>t. t\<lparr>t_revoked_at := Some now, t_revoke_reason := r\<rparr>) ts) n"
proof -
  have "\<forall>t \<in> set ts. token_ok gs n t" using assms by (simp add: tokens_ok_def)
  then show ?thesis
    using assms unfolding tokens_ok_def
    by (intro conjI one_lineage_update)
      (auto simp: unique_on_update ball_update_where live_refresh_def token_ok_revoked intro!: unique_when_update)
qed

lemma revoke_inv: "access_inv db \<Longrightarrow> access_inv (snd (revoke_tokens p reason now db))"
  by (simp add: access_inv_def revoke_tokens_simps tokens_ok_revoke)

text \<open>Enrolment links.\<close>

lemma links_ok_invalidate:
  assumes "links_ok gs ls n"
  shows "links_ok gs (update_where (\<lambda>l. l_grant l = gid \<and> link_live l)
      (\<lambda>l. l\<lparr>l_invalidated_at := Some now\<rparr>) ls) n"
  using assms
  by (auto simp: links_ok_def unique_on_update ball_update_where link_live_def held_def
      intro!: unique_when_update)

lemma new_link_inv:
  assumes "held (grants db) gid (\<lambda>s. s = PendingEnrolment)" "l_grant l = gid" "l_id l = next_id db"
    "\<forall>m \<in> set (links db). l_selector m \<noteq> l_selector l" and inv: "access_inv db"
  shows "access_inv ((invalidate_links gid now db)\<lparr>next_id := Suc (next_id db),
      links := links (invalidate_links gid now db) @ [l]\<rparr>)"
proof -
  let ?ls = "update_where (\<lambda>l. l_grant l = gid \<and> link_live l)
      (\<lambda>l. l\<lparr>l_invalidated_at := Some now\<rparr>) (links db)"
  have ls: "links_ok (grants db) ?ls (next_id db)"
    using inv by (auto simp: access_inv_def intro: links_ok_invalidate)
  moreover have "\<forall>m \<in> set ?ls. l_selector m \<noteq> l_selector l \<and> \<not> (link_live m \<and> l_grant m = gid)"
    using assms(4) by (auto simp: ball_update_where link_live_def)
  moreover have "held (grants db) (l_grant l) (\<lambda>s. link_live l \<longrightarrow> s = PendingEnrolment)"
    using assms(1,2) by (auto simp: held_def)
  ultimately have "links_ok (grants db) (?ls @ [l]) (Suc (next_id db))"
    using assms(2,3) by (fastforce simp: links_ok_def unique_on_snoc unique_when_snoc)
  then show ?thesis
    using inv ok_mono [OF le_SucI [OF le_refl]] by (simp add: access_inv_def invalidate_links_def)
qed

text \<open>Ending a grant.\<close>

lemma end_grant_simps:
  "snd (end_grant g reason now db) =
     db\<lparr>grants := update_where (\<lambda>h. g_id h = g_id g)
          (\<lambda>h. h\<lparr>g_status := Revoked, g_revoked_at := Some now, g_revoke_reason := take 300 reason\<rparr>)
          (grants db),
        links := update_where (\<lambda>l. l_grant l = g_id g \<and> link_live l)
          (\<lambda>l. l\<lparr>l_invalidated_at := Some now\<rparr>) (links db),
        codes := update_where (\<lambda>c. c_grant c = g_id g \<and> c_used_at c = None)
          (\<lambda>c. c\<lparr>c_used_at := Some now\<rparr>) (codes db),
        tokens := update_where (\<lambda>t. t_grant t = g_id g \<and> t_revoked_at t = None)
          (\<lambda>t. t\<lparr>t_revoked_at := Some now, t_revoke_reason := take 64 ''grant_revoked''\<rparr>) (tokens db)\<rparr>"
  by (simp add: end_grant_def revoke_tokens_simps save_grant_def invalidate_links_def Let_def)

lemma owned_ended:
  assumes "owned gs gid u p" and "gid \<noteq> i \<Longrightarrow> (\<And>s. p s \<Longrightarrow> q s)" and "gid = i \<Longrightarrow> q Revoked"
  shows "owned (update_where (\<lambda>h. g_id h = i)
    (\<lambda>h. h\<lparr>g_status := Revoked, g_revoked_at := a, g_revoke_reason := r\<rparr>) gs) gid u q"
  using assms(1) by (rule owned_update) (use assms(2,3) in auto)

lemma held_ended:
  assumes "held gs gid p" and "gid \<noteq> i \<Longrightarrow> (\<And>s. p s \<Longrightarrow> q s)" and "gid = i \<Longrightarrow> q Revoked"
  shows "held (update_where (\<lambda>h. g_id h = i)
    (\<lambda>h. h\<lparr>g_status := Revoked, g_revoked_at := a, g_revoke_reason := r\<rparr>) gs) gid q"
  proof -
  obtain u where u: "owned gs gid u p" using assms(1) by (auto simp: held_owned)
  show ?thesis unfolding held_owned by (rule exI [of _ u], rule owned_ended [OF u]) (use assms(2,3) in blast)+
qed

lemma end_grant_inv:
  assumes inv: "access_inv db"
  shows "access_inv (snd (end_grant g reason now db))"
proof -
  let ?gs = "update_where (\<lambda>h. g_id h = g_id g)
    (\<lambda>h. h\<lparr>g_status := Revoked, g_revoked_at := Some now, g_revoke_reason := take 300 reason\<rparr>) (grants db)"
  let ?t = "\<lambda>t. if t_grant t = g_id g \<and> t_revoked_at t = None
    then t\<lparr>t_revoked_at := Some now, t_revoke_reason := take 64 ''grant_revoked''\<rparr> else t"
  have "grants_ok ?gs (next_id db)"
    using inv by (auto simp: access_inv_def grants_ok_def unique_on_update ball_update_where
        open_status_def counters_ok_def is_suspended_def intro!: unique_when_update)
  moreover have "links_ok ?gs (update_where (\<lambda>l. l_grant l = g_id g \<and> link_live l)
          (\<lambda>l. l\<lparr>l_invalidated_at := Some now\<rparr>) (links db)) (next_id db)"
    using inv by (auto simp: access_inv_def links_ok_def unique_on_update ball_update_where link_live_def
        intro!: unique_when_update elim!: held_ended)
  moreover have "authenticators_ok ?gs (authenticators db)"
    using inv by (auto simp: access_inv_def authenticators_ok_def in_update_where
        intro: held_ended split: if_splits)
  moreover have "codes_ok ?gs (update_where (\<lambda>c. c_grant c = g_id g \<and> c_used_at c = None)
          (\<lambda>c. c\<lparr>c_used_at := Some now\<rparr>) (codes db)) (next_id db)"
    using inv by (auto simp: access_inv_def codes_ok_def code_ok_def unique_on_update ball_update_where
        elim!: owned_ended split: if_splits)
  moreover have "tokens_ok ?gs (update_where (\<lambda>t. t_grant t = g_id g \<and> t_revoked_at t = None)
          (\<lambda>t. t\<lparr>t_revoked_at := Some now, t_revoke_reason := take 64 ''grant_revoked''\<rparr>) (tokens db))
          (next_id db)"
  proof -
    have old: "tokens_ok (grants db) (tokens db) (next_id db)" using inv by (simp add: access_inv_def)
    have each: "token_ok ?gs (next_id db) (?t t)" if "t \<in> set (tokens db)" for t
      using that old by (auto simp: tokens_ok_def token_ok_def elim!: owned_ended split: if_splits)
    show ?thesis
      using tokens_ok_revoke [OF old, where p = "\<lambda>t. t_grant t = g_id g"] each
      unfolding tokens_ok_def ball_update_where by blast
  qed
  ultimately show ?thesis using inv by (simp add: access_inv_def end_grant_simps)
qed

text \<open>Enrolling the authenticator.\<close>

lemma owned_activated:
  assumes "owned gs gid u p" and "gid = i \<Longrightarrow> q Active" and "gid \<noteq> i \<Longrightarrow> (\<And>s. p s \<Longrightarrow> q s)"
  shows "owned (update_where (\<lambda>h. g_id h = i)
    (\<lambda>h. h\<lparr>g_status := Active, g_activated_at := a, g_failed_attempts := 0, g_locked_until := None\<rparr>) gs)
    gid u q"
  using assms(1) by (rule owned_update) (use assms(2,3) in auto)

lemma held_activated:
  assumes "held gs gid p" and "gid = i \<Longrightarrow> q Active" and "gid \<noteq> i \<Longrightarrow> (\<And>s. p s \<Longrightarrow> q s)"
  shows "held (update_where (\<lambda>h. g_id h = i)
    (\<lambda>h. h\<lparr>g_status := Active, g_activated_at := a, g_failed_attempts := 0, g_locked_until := None\<rparr>) gs)
    gid q"
  proof -
  obtain u where u: "owned gs gid u p" using assms(1) by (auto simp: held_owned)
  show ?thesis unfolding held_owned by (rule exI [of _ u], rule owned_activated [OF u]) (use assms(2,3) in blast)+
qed

lemma enrol_inv:
  assumes l: "l \<in> set (links db)" "g_id g = l_grant l" "link_live l"
    and g: "g \<in> set (grants db)" "g_status g = PendingEnrolment"
    and a: "a_grant a = g_id g" and inv: "access_inv db"
  shows "access_inv (save_grant (g_id g)
      (\<lambda>h. h\<lparr>g_status := Active, g_activated_at := Some now, g_failed_attempts := 0,
             g_locked_until := None\<rparr>)
      (save_link (l_id l) (\<lambda>k. k\<lparr>l_used_at := Some now\<rparr>)
        (db\<lparr>authenticators := authenticators db @ [a]\<rparr>)))"
proof -
  let ?gs = "update_where (\<lambda>h. g_id h = g_id g)
    (\<lambda>h. h\<lparr>g_status := Active, g_activated_at := Some now, g_failed_attempts := 0,
             g_locked_until := None\<rparr>) (grants db)"
  have gs: "grants_ok (grants db) (next_id db)" using inv by (simp add: access_inv_def)
  have only: "h = g" if "h \<in> set (grants db)" "g_id h = g_id g" for h
    using gs that g(1) by (auto simp: grants_ok_def dest: unique_onD)
  have opened: "g_status h \<noteq> Revoked" if "h \<in> set (grants db)" "g_id h = g_id g" for h
    using only [OF that] g(2) by simp
  have "grants_ok ?gs (next_id db)"
    using gs opened by (auto simp: grants_ok_def unique_on_update ball_update_where open_status_def
        counters_ok_def is_suspended_def max_failed_codes_def intro!: unique_when_update)
  moreover have "links_ok ?gs (update_where (\<lambda>k. l_id k = l_id l) (\<lambda>k. k\<lparr>l_used_at := Some now\<rparr>)
      (links db)) (next_id db)"
  proof -
    have old: "links_ok (grants db) (links db) (next_id db)" using inv by (simp add: access_inv_def)
    have "k = l" if "k \<in> set (links db)" "link_live k" "l_grant k = l_grant l" for k
      using old that l by (auto simp: links_ok_def dest: unique_whenD)
    then show ?thesis
      using old l(2) by (fastforce simp: links_ok_def unique_on_update ball_update_where link_live_def
          intro!: unique_when_update elim!: held_activated)
  qed
  moreover have "authenticators_ok ?gs (authenticators db @ [a])"
  proof -
    have old: "authenticators_ok (grants db) (authenticators db)" using inv by (simp add: access_inv_def)
    have "\<not> held (grants db) (g_id g) (\<lambda>s. s \<noteq> PendingEnrolment)"
      using only g(2) by (auto simp: held_def)
    then have "a_grant a \<notin> a_grant ` set (authenticators db)"
      using old a by (auto simp: authenticators_ok_def)
    moreover have "held ?gs (g_id g) (\<lambda>s. s \<noteq> PendingEnrolment)"
      by (rule held_activated [where p = "\<lambda>s. True"]) (use g(1) in \<open>auto simp: held_def\<close>)
    moreover have "held ?gs (a_grant b) (\<lambda>s. s \<noteq> PendingEnrolment)" if "b \<in> set (authenticators db)" for b
      by (rule held_activated [where p = "\<lambda>s. s \<noteq> PendingEnrolment"])
        (use that old in \<open>auto simp: authenticators_ok_def\<close>)
    moreover have "\<exists>b \<in> set (authenticators db @ [a]). a_grant b = g_id h"
      if h: "h \<in> set ?gs" "g_status h = Active" for h
    proof -
      obtain k where k: "k \<in> set (grants db)" "g_id h = g_id k" "g_id k = g_id g \<or> g_status k = Active"
        using h by (auto simp: in_update_where split: if_splits)
      then show ?thesis using old a by (auto simp: authenticators_ok_def)
    qed
    ultimately show ?thesis
      using old a by (simp add: authenticators_ok_def unique_on_snoc)
  qed
  moreover have "codes_ok ?gs (codes db) (next_id db)"
    using inv by (fastforce simp: access_inv_def codes_ok_def code_ok_def elim!: owned_activated)
  moreover have "tokens_ok ?gs (tokens db) (next_id db)"
    using inv by (fastforce simp: access_inv_def tokens_ok_def token_ok_def elim!: owned_activated)
  ultimately show ?thesis
    using inv by (simp add: access_inv_def save_link_def) (simp add: save_grant_def)
qed

text \<open>Spending a time step.\<close>

lemma spend_step_inv:
  assumes "access_inv db"
  shows "access_inv (save_authenticator gid (\<lambda>b. b\<lparr>a_last_used_step := n\<rparr>) db)"
proof -
  let ?as = "update_where (\<lambda>a. a_grant a = gid) (\<lambda>b. b\<lparr>a_last_used_step := n\<rparr>) (authenticators db)"
  have same: "a_grant ` set ?as = a_grant ` set (authenticators db)"
    by (metis (no_types, lifting) list.set_map map_update_where authenticator.select_convs(1) authenticator.surjective authenticator.update_convs(3))
  have old: "authenticators_ok (grants db) (authenticators db)" using assms by (simp add: access_inv_def)
  have "\<exists>a \<in> set ?as. a_grant a = i" if "\<exists>a \<in> set (authenticators db). a_grant a = i" for i
  proof -
    have "i \<in> a_grant ` set ?as" unfolding same using that by auto
    then show ?thesis by auto
  qed
  then have "authenticators_ok (grants db) ?as"
    using old by (auto simp: authenticators_ok_def unique_on_update ball_update_where)
  then show ?thesis using assms by (simp add: access_inv_def save_authenticator_def)
qed

text \<open>Authorization codes.\<close>

lemma new_code_inv:
  assumes "c_id c = next_id db" "c_used_at c = None" "c_family_id c = None"
    "owned (grants db) (c_grant c) (c_user c) (\<lambda>s. s = Active)"
    "\<forall>d \<in> set (codes db). c_digest d \<noteq> c_digest c" and inv: "access_inv db"
  shows "access_inv (db\<lparr>next_id := Suc (next_id db), codes := codes db @ [c]\<rparr>)"
proof -
  have "codes_ok (grants db) (codes db) (Suc (next_id db))" and "\<forall>d \<in> set (codes db). c_id d < next_id db"
    using inv codes_ok_mono [OF le_SucI [OF le_refl]]
    by (simp_all add: access_inv_def) (simp add: codes_ok_def code_ok_def)
  then have "c_id c \<notin> c_id ` set (codes db)" and "c_digest c \<notin> c_digest ` set (codes db)"
    using assms(1,5) by auto
  moreover have "code_ok (grants db) (Suc (next_id db)) c" using assms(1-4) by (simp add: code_ok_def)
  ultimately have "codes_ok (grants db) (codes db @ [c]) (Suc (next_id db))"
    using \<open>codes_ok (grants db) (codes db) (Suc (next_id db))\<close> by (simp add: codes_ok_def unique_on_snoc)
  then show ?thesis
    using inv ok_mono [OF le_SucI [OF le_refl]] by (simp add: access_inv_def)
qed

lemma codes_ok_use:
  assumes "codes_ok gs cs n" "c \<in> set cs" "c_used_at c = None" "\<forall>g. f = Some g \<longrightarrow> g < n"
  shows "codes_ok gs (update_where (\<lambda>d. c_id d = c_id c)
     (\<lambda>d. d\<lparr>c_used_at := Some now, c_family_id := f\<rparr>) cs) n"
proof -
  have same: "d = c" if "d \<in> set cs" "c_id d = c_id c" for d
    using assms(1,2) that by (auto simp: codes_ok_def dest: unique_onD)
  have "code_ok gs n c" using assms(1,2) by (simp add: codes_ok_def)
  then have "code_ok gs n (c\<lparr>c_used_at := Some now, c_family_id := f\<rparr>)"
    using assms(3,4) by (auto simp: code_ok_def owned_def)
  then have "\<forall>d \<in> set cs. code_ok gs n (if c_id d = c_id c
      then d\<lparr>c_used_at := Some now, c_family_id := f\<rparr> else d)"
    using assms(1) same by (auto simp: codes_ok_def)
  then show ?thesis
    using assms(1) by (simp add: codes_ok_def unique_on_update ball_update_where)
qed

lemma spend_code_inv:
  "c \<in> set (codes db) \<Longrightarrow> c_used_at c = None \<Longrightarrow> \<forall>g. f = Some g \<longrightarrow> g < next_id db \<Longrightarrow> access_inv db \<Longrightarrow>
     access_inv (use_code (c_id c) now f db)"
  by (simp add: access_inv_def use_code_def save_code_def codes_ok_use)

text \<open>New token pairs.\<close>

definition pair_fits :: "access_db \<Rightarrow> token \<Rightarrow> token \<Rightarrow> bool" where
  "pair_fits db a r \<longleftrightarrow> is_pair (next_id db) a r \<and>
     owned (grants db) (t_grant a) (t_user a) (\<lambda>s. s = Active) \<and>
     (\<forall>s \<in> set (tokens db). t_digest s \<noteq> t_digest a \<and> t_digest s \<noteq> t_digest r) \<and>
     t_family_id a < next_id db \<and>
     (\<forall>s \<in> set (tokens db). t_family_id s = t_family_id a \<longrightarrow> lineage s = lineage a)"

lemma tokens_ok_pair:
  assumes fit: "pair_fits db a r" and ok: "tokens_ok (grants db) ts (next_id db)"
    and ids: "t_id ` set ts = t_id ` set (tokens db)" "t_digest ` set ts = t_digest ` set (tokens db)"
    and fams: "\<forall>s \<in> set ts. t_family_id s = t_family_id a \<longrightarrow> lineage s = lineage a \<and> \<not> live_refresh s"
  shows "tokens_ok (grants db) (ts @ [a, r]) (Suc (Suc (next_id db)))"
proof -
  have pair: "is_pair (next_id db) a r" using fit by (simp add: pair_fits_def)
  have u: "t_user r = t_user a" "t_grant r = t_grant a" "t_family_id r = t_family_id a" "lineage r = lineage a"
    using pair by (auto simp: is_pair_def lineage_def)
  have "t_id s < next_id db" if "s \<in> set ts" for s
    using ok that by (auto simp: tokens_ok_def token_ok_def)
  then have u1: "unique_on t_id (ts @ [a, r])"
    using ok pair unfolding unique_on_def tokens_ok_def is_pair_def by fastforce
  have "t_digest a \<notin> t_digest ` set ts" "t_digest r \<notin> t_digest ` set ts"
    using fit unfolding ids(2) by (auto simp: pair_fits_def)
  then have u2: "unique_on t_digest (ts @ [a, r])"
    using ok pair by (auto simp: unique_on_def tokens_ok_def is_pair_def)
  have u3: "unique_when live_refresh t_family_id (ts @ [a, r])"
    using ok pair fams u unfolding unique_when_def tokens_ok_def
    by (auto simp: live_refresh_def is_pair_def)
  have u4: "\<forall>t \<in> set (ts @ [a, r]). token_ok (grants db) (Suc (Suc (next_id db))) t"
    using fit u pair tokens_ok_mono [OF _ ok, of "Suc (Suc (next_id db))"]
    by (auto simp: pair_fits_def token_ok_def is_pair_def tokens_ok_def)
  have "one_lineage ((ts @ [a]) @ [r])"
    by (intro one_lineage_snoc) (use ok fams u in \<open>auto simp: tokens_ok_def\<close>)
  then show ?thesis using u1 u2 u3 u4 by (simp add: tokens_ok_def)
qed

lemma add_pair_inv:
  assumes fit: "pair_fits db a r" and inv: "access_inv db"
    and dead: "\<forall>s \<in> set (tokens db). t_family_id s = t_family_id a \<longrightarrow> \<not> live_refresh s"
  shows "access_inv (add_pair a r db)"
proof -
  have "tokens_ok (grants db) (tokens db @ [a, r]) (Suc (Suc (next_id db)))"
    by (rule tokens_ok_pair [OF fit]) (use fit inv dead in \<open>auto simp: access_inv_def pair_fits_def\<close>)
  then show ?thesis
    using inv ok_mono(1-3) [of "next_id db" "Suc (Suc (next_id db))"]
    by (simp add: access_inv_def add_pair_def)
qed

lemma next_row_inv: "access_inv db \<Longrightarrow> access_inv (db\<lparr>next_id := Suc (next_id db)\<rparr>)"
  using ok_mono [of "next_id db" "Suc (next_id db)"] by (simp add: access_inv_def)

lemma exchange_inv:
  assumes "c \<in> set (codes db)" "c_used_at c = None" "t_family_id a = next_id db"
    "is_pair (Suc (next_id db)) a r" "owned (grants db) (t_grant a) (t_user a) (\<lambda>s. s = Active)"
    "\<forall>s \<in> set (tokens db). t_digest s \<noteq> t_digest a \<and> t_digest s \<noteq> t_digest r"
    and inv: "access_inv db"
  shows "access_inv (use_code (c_id c) now (Some (next_id db))
      (add_pair a r (db\<lparr>next_id := Suc (next_id db)\<rparr>)))"
proof -
  let ?db = "db\<lparr>next_id := Suc (next_id db)\<rparr>"
  have "\<forall>s \<in> set (tokens db). t_family_id s < next_id db"
    using inv by (auto simp: access_inv_def tokens_ok_def token_ok_def)
  then have "\<forall>s \<in> set (tokens db). t_family_id s \<noteq> t_family_id a" using assms(3) by auto
  then have "access_inv (add_pair a r ?db)"
    using assms next_row_inv [OF inv] by (intro add_pair_inv) (auto simp: pair_fits_def)
  then show ?thesis
    using assms(1,2) by (intro spend_code_inv) (auto simp: add_pair_def)
qed

lemma rotation_inv:
  assumes t: "t \<in> set (tokens db)" "live_refresh t" and pair: "is_pair (next_id db) a r"
    and fam: "t_family_id a = t_family_id t" "lineage a = lineage t"
    and new: "\<forall>s \<in> set (tokens db). t_digest s \<noteq> t_digest a \<and> t_digest s \<noteq> t_digest r"
    and inv: "access_inv db"
  shows "access_inv (rotate_token (t_id t) now (t_id r) (add_pair a r db))"
proof -
  let ?f = "\<lambda>s. s\<lparr>t_replaced_by := Some (t_id r), t_revoked_at := Some now,
                    t_revoke_reason := ''rotated'', t_last_used_at := Some now\<rparr>"
  let ?ts = "update_where (\<lambda>s. t_id s = t_id t) ?f (tokens db)"
  have ok: "tokens_ok (grants db) (tokens db) (next_id db)" using inv by (simp add: access_inv_def)
  have t_ok: "token_ok (grants db) (next_id db) t" using ok t(1) by (simp add: tokens_ok_def)
  have same: "s = t" if "s \<in> set (tokens db)" "t_id s = t_id t" for s
    using ok that t(1) by (auto simp: tokens_ok_def dest: unique_onD)
  have ids: "map t_id ?ts = map t_id (tokens db)" "map t_digest ?ts = map t_digest (tokens db)"
    by (simp_all add: map_update_where)
  have "token_ok (grants db) (next_id db) (?f t)"
    using t_ok t(2) by (auto simp: token_ok_def live_refresh_def owned_def)
  then have each: "\<forall>s \<in> set (tokens db). token_ok (grants db) (next_id db) (if t_id s = t_id t then ?f s else s)"
    using ok same by (auto simp: tokens_ok_def)
  have ts: "tokens_ok (grants db) ?ts (next_id db)"
    unfolding tokens_ok_def
  proof (intro conjI)
    show "unique_when live_refresh t_family_id ?ts"
      using ok by (auto simp: tokens_ok_def live_refresh_def intro!: unique_when_update)
    show "one_lineage ?ts"
      using ok by (intro one_lineage_update) (simp_all add: tokens_ok_def)
  qed (use ok each ids in \<open>simp_all add: tokens_ok_def unique_on_def ball_update_where\<close>)
  have "owned (grants db) (t_grant a) (t_user a) (\<lambda>s. s = Active)"
    using t_ok t(2) fam by (auto simp: token_ok_def live_refresh_def lineage_def)
  moreover have lin: "lineage s = lineage a" if "s \<in> set (tokens db)" "t_family_id s = t_family_id a" for s
    using ok that t(1) fam by (metis tokens_ok_def one_lineage_def)
  ultimately have "pair_fits db a r"
    using pair new fam(1) t_ok by (simp add: pair_fits_def token_ok_def)
  moreover note ts
  moreover have "\<forall>s \<in> set ?ts. t_family_id s = t_family_id a \<longrightarrow> lineage s = lineage a \<and> \<not> live_refresh s"
  proof -
    have "\<not> live_refresh s" if "s \<in> set (tokens db)" "t_family_id s = t_family_id a" "t_id s \<noteq> t_id t" for s
      using ok that t fam by (metis tokens_ok_def unique_whenD)
    then show ?thesis using lin fam(2) same by (auto simp: ball_update_where live_refresh_def)
  qed
  ultimately have "tokens_ok (grants db) (?ts @ [a, r]) (Suc (Suc (next_id db)))"
    using arg_cong [OF ids(1), of set] arg_cong [OF ids(2), of set] by (intro tokens_ok_pair) simp_all
  moreover have "update_where (\<lambda>s. t_id s = t_id t) ?f [a, r] = [a, r]"
    using t_ok pair by (auto simp: update_where_Cons token_ok_def is_pair_def)
  ultimately show ?thesis
    using inv ok_mono(1-3) [of "next_id db" "Suc (Suc (next_id db))"]
    by (simp add: access_inv_def add_pair_def rotate_token_def save_token_def update_where_append)
qed

theorem moves_inv: "moves db db' \<Longrightarrow> access_inv db \<Longrightarrow> access_inv db'"
proof (induction rule: moves.induct)
  case (trail db e) then show ?case by (simp add: access_inv_def)
next
  case (throttle rows db) then show ?case by (simp add: access_inv_def)
next
  case (people us db bgs) then show ?case by (simp add: access_inv_def)
qed (blast intro: next_row_inv new_grant_inv edit_grant_inv end_grant_inv new_link_inv enrol_inv
      spend_step_inv new_code_inv spend_code_inv exchange_inv revoke_inv rotation_inv)+

lemma reaches_inv: "reaches db db' \<Longrightarrow> access_inv db \<Longrightarrow> access_inv db'"
  by (induction rule: rtranclp_induct) (auto intro: moves_inv)

end
