(* ===== verification/AccessHistory.thy ===== *)
theory AccessHistory
  imports AccessMachine
begin

text \<open>
  What no sequence of moves undoes: a revoked token and a spent code are never written again, an
  ended grant stays ended, the columns that say what a token is worth never change, the time
  step of an authenticator only advances, and the audit trail only grows.
\<close>

section \<open>What no move undoes\<close>

definition token_core ::
  "token \<Rightarrow> (row_id \<times> token_kind \<times> string \<times> row_id) \<times> (row_id \<times> row_id \<times> string \<times> string \<times> string)
     \<times> (nat \<times> instant \<times> instant \<times> instant option)" where
  \<comment> \<open>the columns that are never written again\<close>
  "token_core t = ((t_id t, t_kind t, t_digest t, t_family_id t),
     (t_grant t, t_user t, t_client_id t, t_scopes t, t_resource t),
     (t_user_epoch t, t_issued_at t, t_expires_at t, t_family_started_at t))"

lemma kept_update:
  "t \<in> set ts \<Longrightarrow> \<not> p t \<Longrightarrow> t \<in> set (update_where p f ts)"
  by (auto simp: in_update_where)

lemma moves_revoked_token:
  assumes "moves db db'" and "access_inv db" and "t \<in> set (tokens db)" and "t_revoked_at t \<noteq> None"
  shows "t \<in> set (tokens db')"
  using assms
proof (induction rule: moves.induct)
  case (end_grant g db reason now)
  then show ?case by (simp add: end_grant_simps kept_update)
next
  case (revoke db p reason now)
  then show ?case by (simp add: revoke_tokens_simps kept_update)
next
  case (rotation s db a r now)
  then have "t_id t \<noteq> t_id s"
    by (auto simp: access_inv_def tokens_ok_def live_refresh_def dest: unique_onD)
  then show ?case
    using rotation by (simp add: rotate_token_def save_token_def add_pair_def kept_update)
qed (simp_all add: invalidate_links_def use_code_def save_code_def save_link_def add_pair_def
    save_authenticator_def)

lemma moves_used_code:
  assumes "moves db db'" and "access_inv db" and "c \<in> set (codes db)" and "c_used_at c \<noteq> None"
  shows "c \<in> set (codes db')"
  using assms
proof (induction rule: moves.induct)
  case (end_grant g db reason now)
  then show ?case by (simp add: end_grant_simps kept_update)
next
  case (spend_code d db now)
  then have "c_id c \<noteq> c_id d" by (auto simp: access_inv_def codes_ok_def dest: unique_onD)
  then show ?case using spend_code by (simp add: use_code_def save_code_def kept_update)
next
  case (exchange d db a r now)
  then have "c_id c \<noteq> c_id d" by (auto simp: access_inv_def codes_ok_def dest: unique_onD)
  then show ?case using exchange by (simp add: use_code_def save_code_def add_pair_def kept_update)
qed (simp_all add: invalidate_links_def save_link_def add_pair_def revoke_tokens_simps
    rotate_token_def save_token_def save_authenticator_def)

lemma moves_ended_grant:
  assumes "moves db db'" and "access_inv db" and "g \<in> set (grants db)" and "g_status g = Revoked"
  shows "\<exists>h \<in> set (grants db'). g_id h = g_id g \<and> g_user h = g_user g \<and> g_status h = Revoked \<and>
    g_revoked_at h = g_revoked_at g \<and> g_revoke_reason h = g_revoke_reason g"
  using assms
proof (induction rule: moves.induct)
  case (edit_grant db i f)
  let ?h = "if g_id g = i then f g else g"
  have "?h \<in> set (grants (save_grant i f db))"
    using edit_grant(3) by (auto simp: save_grant_def in_update_where)
  then show ?case using edit_grant by (intro bexI [of _ ?h]) (auto simp: keeps_grant_def)
next
  case (end_grant h db reason now)
  then have "g_id g \<noteq> g_id h"
    by (auto simp: access_inv_def grants_ok_def open_status_def dest: unique_onD)
  then show ?case using end_grant by (intro bexI [of _ g]) (auto simp: end_grant_simps kept_update)
next
  case (enrol l db h a now)
  then have "g_id g \<noteq> g_id h"
    by (auto simp: access_inv_def grants_ok_def dest: unique_onD)
  then show ?case
    using enrol by (intro bexI [of _ g]) (auto simp: save_grant_def save_link_def kept_update)
qed (auto simp: invalidate_links_def save_link_def add_pair_def revoke_tokens_simps use_code_def
    save_code_def rotate_token_def save_token_def save_authenticator_def intro: bexI)

lemma moves_trail: "moves db db' \<Longrightarrow> \<exists>es. events db' = events db @ es"
  by (induction rule: moves.induct)
    (auto simp: invalidate_links_def save_link_def add_pair_def revoke_tokens_simps use_code_def
      save_code_def rotate_token_def save_token_def save_authenticator_def end_grant_simps)

lemma core_kept:
  "t \<in> set ts \<Longrightarrow> (\<And>s. token_core (f s) = token_core s) \<Longrightarrow>
     \<exists>s \<in> set (update_where p f ts). token_core s = token_core t"
  by (rule bexI [of _ "if p t then f t else t"]) (auto simp: in_update_where)

lemma token_core_stamps [simp]:
  "token_core (t\<lparr>t_revoked_at := a, t_revoke_reason := r\<rparr>) = token_core t"
  "token_core (t\<lparr>t_replaced_by := j, t_revoked_at := a, t_revoke_reason := r, t_last_used_at := b\<rparr>)
     = token_core t"
  by (simp_all add: token_core_def)

lemma rotate_token_tokens:
  "tokens (rotate_token i now j db) = update_where (\<lambda>t. t_id t = i)
     (\<lambda>s. s\<lparr>t_replaced_by := Some j, t_revoked_at := Some now, t_revoke_reason := ''rotated'',
            t_last_used_at := Some now\<rparr>) (tokens db)"
  by (simp add: rotate_token_def save_token_def)

lemma moves_token_core:
  "moves db db' \<Longrightarrow> t \<in> set (tokens db) \<Longrightarrow> \<exists>s \<in> set (tokens db'). token_core s = token_core t"
proof (induction rule: moves.induct)
  case (end_grant g db reason now)
  then show ?case by (simp add: end_grant_simps core_kept)
next
  case (revoke db p reason now)
  then show ?case by (simp add: revoke_tokens_simps core_kept)
next
  case (rotation s db a r now)
  then show ?case unfolding rotate_token_tokens by (intro core_kept) (simp_all add: add_pair_def)
qed (auto simp: invalidate_links_def save_link_def add_pair_def use_code_def save_code_def
    save_authenticator_def)

lemma moves_step:
  assumes "moves db db'" and "access_inv db" and "a \<in> set (authenticators db)"
  shows "\<exists>b \<in> set (authenticators db'). a_grant b = a_grant a \<and>
    a_encrypted_secret b = a_encrypted_secret a \<and> a_last_used_step a \<le> a_last_used_step b"
  using assms
proof (induction rule: moves.induct)
  case (spend_step db gid n)
  let ?b = "if a_grant a = gid then a\<lparr>a_last_used_step := n\<rparr> else a"
  have "?b \<in> set (authenticators (save_authenticator gid (\<lambda>b. b\<lparr>a_last_used_step := n\<rparr>) db))"
    using spend_step(3) by (auto simp: save_authenticator_def in_update_where)
  then show ?case using spend_step by (intro bexI [of _ ?b]) auto
qed (auto simp: invalidate_links_def save_link_def add_pair_def revoke_tokens_simps use_code_def
    save_code_def rotate_token_def save_token_def end_grant_simps)

lemma reaches_kept:
  assumes "reaches db db'" and "access_inv db"
  shows "t \<in> set (tokens db) \<Longrightarrow> t_revoked_at t \<noteq> None \<Longrightarrow> t \<in> set (tokens db')"
    and "c \<in> set (codes db) \<Longrightarrow> c_used_at c \<noteq> None \<Longrightarrow> c \<in> set (codes db')"
  using assms
  by (induction rule: rtranclp_induct) (auto intro: moves_revoked_token moves_used_code reaches_inv)

lemma reaches_ended_grant:
  assumes "reaches db db'" and "access_inv db" and "g \<in> set (grants db)" and "g_status g = Revoked"
  shows "\<exists>h \<in> set (grants db'). g_id h = g_id g \<and> g_user h = g_user g \<and> g_status h = Revoked \<and>
    g_revoked_at h = g_revoked_at g \<and> g_revoke_reason h = g_revoke_reason g"
  using assms
proof (induction rule: rtranclp_induct)
  case (step y z)
  then obtain h where "h \<in> set (grants y)" "g_id h = g_id g" "g_user h = g_user g"
    "g_status h = Revoked" "g_revoked_at h = g_revoked_at g" "g_revoke_reason h = g_revoke_reason g"
    by auto
  then show ?case using moves_ended_grant [OF step(2) _ \<open>h \<in> set (grants y)\<close>] step reaches_inv by auto
qed auto

lemma reaches_trail: "reaches db db' \<Longrightarrow> \<exists>es. events db' = events db @ es"
proof (induction rule: rtranclp_induct)
  case (step y z)
  then show ?case using moves_trail [OF step(2)] by auto
qed simp

lemma reaches_token_core:
  "reaches db db' \<Longrightarrow> t \<in> set (tokens db) \<Longrightarrow> \<exists>s \<in> set (tokens db'). token_core s = token_core t"
proof (induction rule: rtranclp_induct)
  case (step y z)
  then show ?case using moves_token_core [OF step(2)] by metis
qed auto

lemma reaches_step:
  assumes "reaches db db'" and "access_inv db" and "a \<in> set (authenticators db)"
  shows "\<exists>b \<in> set (authenticators db'). a_grant b = a_grant a \<and>
    a_encrypted_secret b = a_encrypted_secret a \<and> a_last_used_step a \<le> a_last_used_step b"
  using assms
proof (induction rule: rtranclp_induct)
  case (step y z)
  then obtain b where b: "b \<in> set (authenticators y)" "a_grant b = a_grant a"
    "a_encrypted_secret b = a_encrypted_secret a" "a_last_used_step a \<le> a_last_used_step b" by auto
  then show ?case using moves_step [OF step(2) _ b(1)] step reaches_inv by (metis order_trans)
qed auto

end
