(* ===== verification/AccessRefinement.thy ===== *)
theory AccessRefinement
  imports AccessHistory
begin

text \<open>
  Every operation of the services is a sequence of moves of the abstract machine
  (\<open>AccessMachine\<close>), one lemma \<open>..._reaches\<close> per operation. An operation that raises leaves the state as
  it was, which is no move at all.
\<close>

lemma reaches_move: "reaches db db1 \<Longrightarrow> moves db1 db2 \<Longrightarrow> reaches db db2"
  by (rule rtranclp.rtrancl_into_rtrancl)

lemma atomic_reaches:
  "(\<And>a s'. block db = (Inr a, s') \<Longrightarrow> reaches db s') \<Longrightarrow> reaches db (snd (atomic block db))"
  by (rule atomic_preserves [where P = "reaches db"]) auto

lemma raise_refusal_state [simp]: "snd (raise_refusal res) = snd res"
  by (cases res) (auto simp: raise_refusal_def split: sum.splits)

lemma by_id_member [dest]:
  "user_by_id db i = Some u \<Longrightarrow> u \<in> set (users db) \<and> u_id u = i"
  "grant_by_id db i = Some g \<Longrightarrow> g \<in> set (grants db) \<and> g_id g = i"
  "open_grant db i = Some g \<Longrightarrow> g \<in> set (grants db) \<and> g_user g = i \<and> open_status g"
  "active_grant db i = Some g \<Longrightarrow> g \<in> set (grants db) \<and> g_user g = i \<and> g_status g = Active"
  "authenticator_of db i = Some a \<Longrightarrow> a \<in> set (authenticators db) \<and> a_grant a = i"
  "token_by_id db i = Some t \<Longrightarrow> t \<in> set (tokens db) \<and> t_id t = i"
  by (auto simp: user_by_id_def grant_by_id_def open_grant_def active_grant_def authenticator_of_def
      token_by_id_def)

lemma same_grant:
  "access_inv db \<Longrightarrow> g \<in> set (grants db) \<Longrightarrow> h \<in> set (grants db) \<Longrightarrow> g_id h = g_id g \<Longrightarrow> h = g"
  by (auto simp: access_inv_def grants_ok_def dest: unique_onD)

lemma grant_counters: "access_inv db \<Longrightarrow> g \<in> set (grants db) \<Longrightarrow> counters_ok g"
  by (auto simp: access_inv_def grants_ok_def)

lemma invalidate_selectors:
  "(\<forall>m \<in> set (links (invalidate_links gid now db)). l_selector m \<noteq> s) \<longleftrightarrow>
     (\<forall>m \<in> set (links db). l_selector m \<noteq> s)"
  by (auto simp: invalidate_links_def ball_update_where)

lemma invalidate_links_frame [simp]:
  "users (invalidate_links gid now db) = users db" "grants (invalidate_links gid now db) = grants db"
  "next_id (invalidate_links gid now db) = next_id db" "codes (invalidate_links gid now db) = codes db"
  "tokens (invalidate_links gid now db) = tokens db"
  by (simp_all add: invalidate_links_def)

section \<open>Operator actions\<close>

lemma issue_link_reaches:
  assumes "g \<in> set (grants db)" and "g_status g = PendingEnrolment"
    and out: "issue_link cfg cr now draw g prov db = (Inr ie, db')"
  shows "reaches db db'"
proof -
  let ?i = "invalidate_links (g_id g) now db"
  let ?l = "\<lparr>l_id = next_id db, l_grant = g_id g, l_selector = nl_selector (new_link cr (fst draw) (snd draw)),
    l_verifier_digest = nl_verifier_digest (new_link cr (fst draw) (snd draw)),
    l_expires_at = now + seconds (enrolment_link_seconds cfg), l_used_at = None,
    l_invalidated_at = None, l_issued_via = take 300 prov\<rparr>"
  let ?e = "record_event ENROLMENT_LINK_ISSUED True (Some (g_user g)) (Some (g_id g))
    (operator_context prov) [(''link'', DId (next_id db))]"
  have l: "\<forall>m \<in> set (links ?i). l_selector m \<noteq> l_selector ?l"
    and db': "db' = ?e (?i\<lparr>next_id := Suc (next_id db), links := links ?i @ [?l]\<rparr>)"
    using out by (auto simp: issue_link_def fresh_def create_link_def Let_def split: if_splits)
  have "held (grants db) (g_id g) (\<lambda>s. s = PendingEnrolment)" using assms by (auto simp: held_def)
  then have "moves db (?i\<lparr>next_id := Suc (next_id db), links := links ?i @ [?l]\<rparr>)"
    using l unfolding invalidate_selectors by (intro moves.new_link) simp_all
  then show ?thesis unfolding db' by (intro reaches_event) auto
qed

lemma grant_access_reaches:
  assumes inv: "access_inv db"
  shows "reaches db (snd (grant_access cfg cr now draw uid prov by db))"
  unfolding grant_access_def raise_refusal_state
proof (rule atomic_reaches)
  fix a db'
  assume out: "grant_access_body cfg cr now draw uid prov by db = (Inr a, db')"
  then obtain u where u: "user_by_id db uid = Some u"
    by (auto simp: grant_access_body_def split: option.splits)
  show "reaches db db'"
  proof (cases a)
    case (Inl r)
    with out u show ?thesis
      by (auto simp: grant_access_body_def fresh_def create_grant_def Let_def
          split: option.splits if_splits prod.splits sum.splits)
  next
    case (Inr ie)
    let ?g = "new_grant (next_id db) uid by (take 300 prov) now"
    let ?d = "db\<lparr>next_id := Suc (next_id db), grants := grants db @ [?g]\<rparr>"
    have "\<forall>h \<in> set (grants db). open_status h \<longrightarrow> g_user h \<noteq> g_user ?g"
      and link: "issue_link cfg cr now draw ?g prov
        (record_event GRANT_CREATED True (Some uid) (Some (next_id db)) (operator_context prov) [] ?d)
        = (Inr ie, db')"
      using out u Inr
      by (auto simp: grant_access_body_def fresh_def create_grant_def Let_def new_grant_def open_status_def
          split: option.splits if_splits prod.splits sum.splits)
    then have "moves db ?d"
      by (intro moves.new_grant)
        (auto simp: new_grant_def counters_ok_def is_suspended_def max_failed_codes_def lock_ladder_seconds_def)
    then have "reaches db (record_event GRANT_CREATED True (Some uid) (Some (next_id db))
        (operator_context prov) [] ?d)" by (intro reaches_event) auto
    also have "reaches \<dots> db'"
      by (rule issue_link_reaches [OF _ _ link]) (auto simp: new_grant_def)
    finally show ?thesis .
  qed
qed

lemma issue_enrolment_link_reaches:
  "reaches db (snd (issue_enrolment_link cfg cr now draw uid prov db))"
  unfolding issue_enrolment_link_def
  by (rule atomic_reaches) (auto split: option.splits intro: issue_link_reaches)

lemma revoke_grant_reaches: "reaches db (snd (revoke_grant now uid reason prov db))"
  unfolding revoke_grant_def
proof (rule atomic_reaches, goal_cases)
  case (1 a db')
  then obtain g where g: "open_grant db uid = Some g"
    and db': "\<exists>d. db' = record_event GRANT_REVOKED True (Some uid) (Some (g_id g))
      (operator_context prov) d (snd (end_grant g reason now db))"
    by (auto split: option.splits if_splits simp: Let_def split_beta)
  then show ?case using moves.end_grant [of g db reason now] by (auto intro!: reaches_event)
qed

lemma revoke_tokens_reaches:
  "reaches db db1 \<Longrightarrow> revoke_tokens p reason now db1 = (n, db2) \<Longrightarrow> reaches db db2"
  using moves.revoke [of db1 p reason now] by (auto intro: reaches_move)

lemma end_grants_reaches:
  assumes "end_grants gs reason prov now db = (n, db')" and "distinct (map g_id gs)"
    and "\<forall>g \<in> set gs. g \<in> set (grants db) \<and> open_status g"
  shows "reaches db db'"
  using assms
proof (induction gs arbitrary: db n)
  case (Cons g gs)
  let ?e = "\<lambda>k. record_event GRANT_REVOKED True (Some (g_user g)) (Some (g_id g)) (operator_context prov)
      [(''reason'', DText (take 300 reason)), (''tokens_revoked'', DInt (int k)), (''revoke_all'', DBool True)]"
  obtain k db1 where k: "end_grant g reason now db = (k, db1)" by fastforce
  have first: "reaches db (?e k db1)"
    using moves.end_grant [of g db reason now] k Cons.prems(3) by (intro reaches_event) auto
  have "h \<in> set (grants db1) \<and> open_status h" if h: "h \<in> set gs" for h
  proof -
    have "h \<in> set (grants db)" "g_id h \<noteq> g_id g" "open_status h"
      using h Cons.prems(2,3) by (auto simp: image_iff)
    then have "h \<in> set (grants (snd (end_grant g reason now db)))" by (simp add: end_grant_simps kept_update)
    then show ?thesis using k \<open>open_status h\<close> by simp
  qed
  moreover obtain m where "end_grants gs reason prov now (?e k db1) = (m, db')"
    using Cons.prems(1) k by (auto simp: Let_def split: prod.splits)
  ultimately have "reaches (?e k db1) db'"
    using Cons.IH [of "?e k db1" m] Cons.prems(2) by simp
  with first show ?case by simp
qed simp

lemma revoke_all_reaches:
  assumes "access_inv db"
  shows "reaches db (snd (revoke_all now reason prov db))"
  unfolding revoke_all_def
proof (rule atomic_reaches, goal_cases)
  case (1 a db')
  let ?gs = "filter open_status (grants db)"
  obtain m db1 n where "end_grants ?gs reason prov now db = (m, db1)"
    and last: "revoke_tokens (\<lambda>t. True) ''revoke_all'' now db1 = (n, db')"
    using 1 by (auto simp: Let_def split: if_splits prod.splits)
  moreover have "distinct (map g_id ?gs)"
    using assms by (auto simp: access_inv_def grants_ok_def unique_on_def distinct_map_filter)
  ultimately have "reaches db db1" by (auto intro: end_grants_reaches)
  then show ?case using last by (rule revoke_tokens_reaches)
qed

lemma edit_reaches:
  "reaches db db1 \<Longrightarrow> \<forall>h \<in> set (grants db1). g_id h = i \<longrightarrow> keeps_grant f h \<Longrightarrow>
     reaches db (save_grant i f db1)"
  by (erule reaches_move) (rule moves.edit_grant)

lemma unlock_reaches: "reaches db (snd (unlock uid prov db))"
  unfolding unlock_def
  by (rule atomic_reaches)
    (auto split: option.splits simp: Let_def keeps_grant_def counters_ok_def is_suspended_def
      lock_ladder_seconds_def max_failed_codes_def intro!: reaches_event edit_reaches)

lemma end_write_reaches: "reaches db db1 \<Longrightarrow> reaches db (end_write i reason now db1)"
  unfolding end_write_def
  by (erule edit_reaches) (auto simp: keeps_grant_def counters_ok_def is_suspended_def)

lemma grant_write_reaches: "reaches db (snd (grant_write cfg now uid prov db))"
  unfolding grant_write_def raise_refusal_state
  by (rule atomic_reaches)
    (auto split: option.splits simp: grant_write_body_def Let_def keeps_grant_def counters_ok_def
      is_suspended_def intro!: reaches_event edit_reaches)

lemma revoke_write_reaches: "reaches db (snd (revoke_write now uid reason prov db))"
  unfolding revoke_write_def
  by (rule atomic_reaches) (auto split: option.splits if_splits intro!: reaches_event end_write_reaches)

lemma end_writes_reaches: "reaches db db1 \<Longrightarrow> reaches db (end_writes gs reason prov now db1)"
  by (induction gs arbitrary: db1) (auto intro!: reaches_event end_write_reaches)

lemma revoke_all_writes_reaches: "reaches db (snd (revoke_all_writes now reason prov db))"
  unfolding revoke_all_writes_def
  by (rule atomic_reaches) (auto split: if_splits simp: Let_def intro!: end_writes_reaches)

section \<open>Enrolment and the personal code\<close>

lemma enrol_reaches:
  assumes "first_where p (links db) = Some l" and "grant_by_id db (l_grant l) = Some g"
    and "enrolment_problem_of cfg db now locked g l = None"
    and "create_authenticator a db = Some db1" and "a_grant a = g_id g"
  shows "reaches db (save_grant (g_id g) (\<lambda>h. h\<lparr>g_status := Active, g_activated_at := Some now,
              g_failed_attempts := 0, g_locked_until := None\<rparr>)
            (save_link (l_id l) (\<lambda>k. k\<lparr>l_used_at := Some now\<rparr>) db1))"
proof -
  have "g_status g = PendingEnrolment" "link_live l"
    using assms(3) by (auto simp: enrolment_problem_of_def link_usable_at_def link_live_def split: if_splits)
  moreover have "l \<in> set (links db)" "g \<in> set (grants db)" "g_id g = l_grant l" using assms(1,2) by auto
  ultimately show ?thesis
    using moves.enrol [of l db g a now] assms(4,5) by (auto simp: create_authenticator_def split: if_splits)
qed

lemma confirm_enrolment_reaches:
  "reaches db (snd (confirm_enrolment cfg cr now tnow nonce proof uid sealed code ip db))"
  unfolding confirm_enrolment_def
  by (rule atomic_reaches)
    (auto simp: Let_def split: option.splits prod.splits if_splits intro!: reaches_event enrol_reaches)

lemma counted_keeps: "counters_ok g \<Longrightarrow> counters_ok (counted now g)"
  by (cases "g_lock_count g = Suc (length lock_ladder_seconds)"; cases "is_suspended g")
    (auto simp: counters_ok_def counted_def trips_def Let_def is_suspended_def max_failed_codes_def
      lock_ladder_seconds_def)

lemma count_wrong_reaches:
  assumes "access_inv db" and "g \<in> set (grants db)"
  shows "reaches db (snd (count_wrong_code g uid x now ev db))"
proof -
  have "reaches db (save_counters (counted now g) db)"
    unfolding save_counters_def
  proof (rule edit_reaches)
    have id: "g_id (counted now g) = g_id g" by (simp add: counted_def Let_def)
    have "counters_ok (counted now g)" using assms by (intro counted_keeps grant_counters)
    then show "\<forall>h \<in> set (grants db). g_id h = g_id (counted now g) \<longrightarrow> keeps_grant
      (\<lambda>h. h\<lparr>g_failed_attempts := g_failed_attempts (counted now g),
        g_total_failed_attempts := g_total_failed_attempts (counted now g),
        g_lock_count := g_lock_count (counted now g), g_locked_until := g_locked_until (counted now g),
        g_suspended_at := g_suspended_at (counted now g)\<rparr>) h"
      by (auto simp: keeps_grant_def counters_ok_def is_suspended_def)
  qed simp
  then show ?thesis by (simp add: count_wrong_code_def Let_def)
qed

lemma check_reaches:
  assumes inv: "access_inv db" and g: "\<And>g. go = Some g \<Longrightarrow> g \<in> set (grants db)"
  shows "reaches db (snd (check_personal_code cfg cr now tnow uo go el why code x ev db))"
proof (cases "uo = None \<or> go = None \<or> \<not> el")
  case True
  then show ?thesis by (cases uo; cases go) (auto simp: check_personal_code_def)
next
  case False
  then obtain u h where s: "uo = Some u" "go = Some h" "el" by auto
  show ?thesis
  proof (cases "code_step cfg cr tnow (authenticator_of db (g_id h)) code")
    case None
    then show ?thesis
      using count_wrong_reaches [OF inv g [OF s(2)]] s by (simp add: check_personal_code_def Let_def)
  next
    case (Some n)
    then obtain a where a: "authenticator_of db (g_id h) = Some a" using code_step_authenticator by blast
    let ?db = "save_authenticator (g_id h) (\<lambda>b. b\<lparr>a_last_used_step := n\<rparr>) db"
    have "unique_on a_grant (authenticators db)" using inv by (simp add: access_inv_def authenticators_ok_def)
    then have "b = a" if "b \<in> set (authenticators db)" "a_grant b = g_id h" for b
      using a that by (intro unique_onD [of a_grant "authenticators db" b a]) auto
    then have "moves db ?db"
      using Some a by (intro moves.spend_step) (auto dest: code_step_later)
    moreover have "reaches ?db (reset_counters (g_id h) ?db)"
      if "\<not> is_suspended h"
      unfolding reset_counters_def
    proof (rule edit_reaches, simp, intro ballI impI)
      fix k assume k: "k \<in> set (grants ?db)" "g_id k = g_id h"
      then have "k = h" using same_grant [OF inv g [OF s(2)]] by (simp add: save_authenticator_def)
      then show "keeps_grant (\<lambda>h. h\<lparr>g_failed_attempts := 0, g_total_failed_attempts := 0,
          g_lock_count := 0, g_locked_until := None\<rparr>) k"
        using that by (simp add: keeps_grant_def counters_ok_def is_suspended_def max_failed_codes_def)
    qed
    ultimately show ?thesis
      using s Some by (auto simp: check_personal_code_def Let_def intro: converse_rtranclp_into_rtranclp)
  qed
qed

lemma check_frame:
  "codes (snd (check_personal_code cfg cr now tnow uo go el why code x ev db)) = codes db"
  "next_id (snd (check_personal_code cfg cr now tnow uo go el why code x ev db)) = next_id db"
  by (auto simp: check_personal_code_def Let_def reset_counters_def save_authenticator_def
      count_wrong_code_def save_counters_def split: option.splits bool.splits)

lemma check_success:
  assumes "check_personal_code cfg cr now tnow uo go el why code x ev db = (Inr m, db1)"
  obtains u g a n where "uo = Some u" "go = Some g" "el" "m = now"
    "authenticator_of db (g_id g) = Some a" "code_step cfg cr tnow (Some a) code = Some n"
    "\<not> is_suspended g" "\<not> is_locked_at g now"
    "db1 = reset_counters (g_id g) (save_authenticator (g_id g) (\<lambda>b. b\<lparr>a_last_used_step := n\<rparr>) db)"
  using assms
  by (auto simp: check_personal_code_def Let_def count_wrong_code_def code_step_def
      split: option.splits bool.splits if_splits)

lemma owned_reaches_active:
  "g \<in> set (grants db) \<Longrightarrow> g_status g = Active \<Longrightarrow> owned (grants db) (g_id g) (g_user g) (\<lambda>s. s = Active)"
  by (auto simp: owned_def)

lemma mint_reaches:
  assumes "owned (grants db) (g_id g) (u_id u) (\<lambda>s. s = Active)"
    and out: "mint_code cfg cr now created raw req u g ip db = (Inr a, db')"
  shows "reaches db db'"
proof -
  let ?c = "new_code cfg cr now created raw req u g (narrow_scope cfg (ar_scope req)
    (may_write cfg (break_glasses db) now (Some u) (Some g))) (next_id db)"
  have new: "\<forall>d \<in> set (codes db). c_digest d \<noteq> c_digest ?c"
    and db': "\<exists>e. db' = record_event AUTHORIZATION_GRANTED True (Some (u_id u)) (Some (g_id g))
      (web_context (oc_client_id (ar_client req)) ip) e
      (db\<lparr>next_id := Suc (next_id db), codes := codes db @ [?c]\<rparr>)"
    using out by (auto simp: mint_code_def fresh_def create_code_def Let_def split: if_splits)
  have "moves db (db\<lparr>next_id := Suc (next_id db), codes := codes db @ [?c]\<rparr>)"
    using new assms(1) by (intro moves.new_code) (simp_all add: new_code_def)
  then show ?thesis using db' by (auto intro!: reaches_event)
qed

lemma check_active:
  assumes "owned (grants db) i u (\<lambda>s. s = Active)"
  shows "owned (grants (snd (check_personal_code cfg cr now tnow uo go el why code x ev db))) i u (\<lambda>s. s = Active)"
  using assms
  by (auto simp: check_personal_code_def Let_def reset_counters_def save_authenticator_def
      count_wrong_code_def save_counters_def save_grant_def split: option.splits bool.splits
      intro!: owned_update)

lemma authorize_reaches:
  assumes inv: "access_inv db"
  shows "reaches db (snd (authorize cfg cr now tnow created raw uid req code ip db))"
  unfolding authorize_def
proof (rule atomic_reaches, goal_cases)
  case (1 a db')
  let ?ck = "check_personal_code cfg cr now tnow (user_by_id db uid) (active_grant db uid)
    (may_connect cfg (break_glasses db) now (user_by_id db uid) (active_grant db uid)) ''no_active_grant''
    code (web_context (oc_client_id (ar_client req)) ip) AUTHORIZATION_REFUSED db"
  have ck: "reaches db (snd ?ck)" by (rule check_reaches [OF inv]) auto
  show ?case
  proof (cases "fst ?ck")
    case (Inl refused)
    with 1 ck show ?thesis by (auto simp: Let_def split: prod.splits)
  next
    case (Inr m)
    then obtain u g n ac where s: "user_by_id db uid = Some u" "active_grant db uid = Some g"
      using check_success [of cfg cr now tnow "user_by_id db uid" "active_grant db uid" _ _ code _ _ db m "snd ?ck"]
      by (metis prod.collapse)
    have "owned (grants db) (g_id g) (u_id u) (\<lambda>s. s = Active)"
      using s by (auto simp: owned_def)
    then have "owned (grants (snd ?ck)) (g_id g) (u_id u) (\<lambda>s. s = Active)" by (rule check_active)
    moreover have "mint_code cfg cr m created raw req u g ip (snd ?ck) = (Inr a, db')"
      using 1 Inr s by (auto simp: Let_def split: prod.splits)
    ultimately have "reaches (snd ?ck) db'" by (rule mint_reaches)
    with ck show ?thesis by simp
  qed
qed

lemma grant_of_user_member [dest]:
  "grant_of_user db i u = Some g \<Longrightarrow> g \<in> set (grants db) \<and> g_id g = i \<and> g_user g = u \<and> g_status g = Active"
  by (auto simp: grant_of_user_def)

lemma confirm_write_attempt_reaches:
  assumes inv: "access_inv db"
  shows "reaches db (snd (confirm_write_attempt cfg cr now tnow uid gid code ip db))"
  unfolding confirm_write_attempt_def
proof (rule atomic_reaches, goal_cases)
  case (1 a db')
  have ck: "reaches db (snd (check_personal_code cfg cr now tnow (user_by_id db uid)
      (grant_of_user db gid uid) el why code x ev db))" for el why x ev
    by (rule check_reaches [OF inv]) auto
  show ?case
    using 1 ck by (auto simp: Let_def split: prod.splits sum.splits intro!: reaches_event)
      (metis snd_conv)+
qed

section \<open>Throttles\<close>

lemma throttle_reaches:
  "reaches db db1 \<Longrightarrow> unique_on th_key rows \<Longrightarrow> reaches db (db1\<lparr>throttles := rows\<rparr>)"
  by (erule reaches_move) (rule moves.throttle)

lemma throttles_unique: "access_inv db \<Longrightarrow> unique_on th_key (throttles db)"
  by (simp add: access_inv_def)

lemma hold_rows_reaches:
  "access_inv db \<Longrightarrow> hold_rows cfg now ks db = (rb, db') \<Longrightarrow> reaches db db'"
proof (induction ks arbitrary: rb db)
  case (Cons k ks)
  obtain r db1 where h: "held_throttle (tk_key k) now db = (r, db1)" by fastforce
  have "reaches db db1"
    using h throttles_unique [OF Cons.prems(1)]
    by (auto simp: held_throttle_def Let_def first_where_None unique_on_snoc split: option.splits
        intro!: throttle_reaches) blast
  moreover obtain rb' where "hold_rows cfg now ks db1 = (rb', db')"
    using Cons.prems(2) h by (auto simp: Let_def split: prod.splits)
  moreover have "access_inv db1" using \<open>reaches db db1\<close> Cons.prems(1) by (rule reaches_inv)
  ultimately show ?case using Cons.IH by (meson rtranclp_trans)
qed simp

lemma hold_throttles_reaches:
  "access_inv db \<Longrightarrow> hold_throttles cfg now ks db = (rw, db') \<Longrightarrow> reaches db db'"
  by (auto simp: hold_throttles_def Let_def split: prod.splits intro: hold_rows_reaches)

lemma save_throttle_reaches:
  "reaches db db1 \<Longrightarrow> access_inv db \<Longrightarrow> reaches db (save_throttle r db1)"
  unfolding save_throttle_def
  by (rule throttle_reaches) (auto simp: unique_on_update intro: throttles_unique reaches_inv)

lemma charge_throttles_reaches:
  "reaches db db1 \<Longrightarrow> access_inv db \<Longrightarrow> reaches db (charge_throttles rows failed db1)"
  unfolding charge_throttles_def
  by (induction rows arbitrary: db1) (simp_all add: save_throttle_reaches)

lemma throttled_reaches:
  assumes inv: "access_inv db"
    and attempt: "\<And>db1 out db2. access_inv db1 \<Longrightarrow> attempt db1 = (Inr out, db2) \<Longrightarrow> reaches db1 db2"
  shows "reaches db (snd (throttled cfg now uid cid ip ks ev attempt db))"
  unfolding throttled_def
proof (rule atomic_reaches, goal_cases)
  case (1 a db')
  obtain rows wait db1 where h: "hold_throttles cfg now ks db = ((rows, wait), db1)"
    by (metis prod.collapse)
  have db1: "reaches db db1" "access_inv db1"
    using hold_throttles_reaches [OF inv h] reaches_inv inv by auto
  show ?case
  proof (cases "wait = 0")
    case False
    with 1 h db1 show ?thesis by auto
  next
    case True
    with 1 h obtain out db2 where "attempt db1 = (Inr out, db2)"
      "db' = charge_throttles rows (o_status out \<noteq> Ok) db2"
      by (auto split: prod.splits sum.splits)
    then show ?thesis
      using attempt [OF db1(2)] db1(1) inv by (auto intro!: charge_throttles_reaches)
  qed
qed

lemma authorize_attempt_reaches:
  "access_inv db \<Longrightarrow> reaches db (snd (authorize_attempt cfg cr h now tnow created raw uid req code ip ks db))"
  unfolding authorize_attempt_def Let_def
proof (rule throttled_reaches, assumption, goal_cases)
  case (1 db1 out db2)
  then show ?case using authorize_reaches [OF 1(2)] by (cases uid) (auto, metis snd_conv)
qed

lemma confirm_write_code_reaches:
  "access_inv db \<Longrightarrow> reaches db (snd (confirm_write_code cfg cr h now tnow uid gid code ip ks db))"
  unfolding confirm_write_code_def
  by (rule throttled_reaches) (assumption, metis confirm_write_attempt_reaches snd_conv)

lemma check_enrolment_address_reaches:
  assumes inv: "access_inv db"
  shows "reaches db (snd (check_enrolment_address cfg tt h now proof address ip ks db))"
  unfolding check_enrolment_address_def
proof (rule atomic_reaches, goal_cases)
  case (1 a db')
  obtain rows wait db1 where h: "hold_throttles cfg h ks db = ((rows, wait), db1)"
    by (metis prod.collapse)
  have "reaches db db1" using hold_throttles_reaches [OF inv h] .
  with 1 h inv show ?case
    by (auto simp: Let_def split: option.splits if_splits intro!: charge_throttles_reaches)
qed

lemma record_denied_reaches: "reaches db (record_denied uid req ip db)"
  unfolding record_denied_def by simp

section \<open>Tokens\<close>

lemma still_may_connect_Some:
  "still_may_connect cfg now g uid epoch db = Some u \<Longrightarrow>
     user_by_id db uid = Some u \<and> u_id u = uid \<and> g_status g = Active \<and> g_user g = u_id u \<and>
     u_epoch u = epoch \<and> may_connect cfg (break_glasses db) now (Some u) (Some g)"
  by (auto simp: still_may_connect_def may_connect_def split: option.splits if_splits)

lemma refused_token_frame [simp]:
  "tokens (refused_token u g c ip gt r db) = tokens db" "codes (refused_token u g c ip gt r db) = codes db"
  "grants (refused_token u g c ip gt r db) = grants db" "next_id (refused_token u g c ip gt r db) = next_id db"
  "users (refused_token u g c ip gt r db) = users db"
  by (simp_all add: refused_token_def)

lemma refused_token_reaches: "reaches db db1 \<Longrightarrow> reaches db (refused_token u g c ip gt r db1)"
  by (simp add: refused_token_def)

lemma end_family_reaches: "reaches db db1 \<Longrightarrow> reaches db (snd (end_family f reason now db1))"
  unfolding end_family_def by (erule reaches_move) (rule moves.revoke)

lemma revoke_snd_reaches: "reaches db db1 \<Longrightarrow> reaches db (snd (revoke_tokens p reason now db1))"
  by (erule reaches_move) (rule moves.revoke)

text \<open>What \<open>issue_pair\<close> adds.\<close>

definition access_of :: "settings \<Rightarrow> crypto \<Rightarrow> instant \<Rightarrow> string \<times> string \<Rightarrow> pair_request \<Rightarrow> row_id \<Rightarrow> token" where
  "access_of cfg cr now raws pr i =
     new_token cr i Access (fst raws) now (now + seconds (access_token_seconds cfg)) pr"

definition refresh_of :: "settings \<Rightarrow> crypto \<Rightarrow> instant \<Rightarrow> string \<times> string \<Rightarrow> pair_request \<Rightarrow> row_id \<Rightarrow> token" where
  "refresh_of cfg cr now raws pr i =
     new_token cr i Refresh (snd raws) now
       (min (now + seconds (refresh_token_seconds cfg)) (family_ends_at cfg (pr_started_at pr))) pr"

lemma issue_pair_Inr:
  assumes "issue_pair cfg cr now raws pr db = (Inr (issued, j), db')"
  defines "a \<equiv> access_of cfg cr now raws pr (next_id db)"
    and "r \<equiv> refresh_of cfg cr now raws pr (Suc (next_id db))"
  shows "db' = add_pair a r db" and "is_pair (next_id db) a r" and "j = t_id r"
    and "\<forall>s \<in> set (tokens db). t_digest s \<noteq> t_digest a \<and> t_digest s \<noteq> t_digest r"
    and "issued = \<lparr>it_access_token = fst raws, it_refresh_token = snd raws,
      it_expires_in = access_token_seconds cfg, it_scope = pr_scopes pr, it_family_id = pr_family_id pr\<rparr>"
  using assms
  by (auto simp: issue_pair_def fresh_def create_token_def Let_def add_pair_def is_pair_def access_of_def
      refresh_of_def new_token_def lineage_def family_started_def split: if_splits)

lemma save_code_frame [simp]:
  "tokens (save_code i f db) = tokens db" "grants (save_code i f db) = grants db"
  "users (save_code i f db) = users db" "break_glasses (save_code i f db) = break_glasses db"
  "next_id (save_code i f db) = next_id db"
  by (simp_all add: save_code_def)

lemma spend_is_use:
  assumes "access_inv db" and "c \<in> set (codes db)" and "c_used_at c = None"
  shows "save_code (c_id c) (\<lambda>e. e\<lparr>c_used_at := Some now\<rparr>) db = use_code (c_id c) now None db"
proof -
  have "e\<lparr>c_used_at := Some now\<rparr> = e\<lparr>c_used_at := Some now, c_family_id := None\<rparr>"
    if "e \<in> set (codes db)" "c_id e = c_id c" for e
  proof -
    have "e = c" using assms that by (auto simp: access_inv_def codes_ok_def dest: unique_onD)
    then have "c_family_id e = None" using assms by (auto simp: access_inv_def codes_ok_def code_ok_def)
    then show ?thesis by (cases e) simp
  qed
  then show ?thesis by (simp add: use_code_def save_code_def update_where_def)
qed

lemma exchange_is_use:
  "save_code i (\<lambda>d. d\<lparr>c_family_id := f\<rparr>)
     (add_pair a r ((save_code i (\<lambda>e. e\<lparr>c_used_at := Some now\<rparr>) db)\<lparr>next_id := n\<rparr>)) =
   use_code i now f (add_pair a r (db\<lparr>next_id := n\<rparr>))"
  by (cases db) (simp add: use_code_def save_code_def add_pair_def update_where_def)

lemma exchange_spent_reaches:
  assumes inv: "access_inv db" and mem: "c \<in> set (codes db)" and unused: "c_used_at c = None"
    and out: "exchange_spent cfg cr now raws cid ip am c
        (save_code (c_id c) (\<lambda>e. e\<lparr>c_used_at := Some now\<rparr>) db) = (Inr ans, db')"
  shows "reaches db db'"
proof -
  let ?db1 = "save_code (c_id c) (\<lambda>e. e\<lparr>c_used_at := Some now\<rparr>) db"
  let ?n = "next_id db"
  have spent: "reaches db ?db1"
    unfolding spend_is_use [OF inv mem unused] using moves.spend_code [OF mem unused] by auto
  obtain g where g: "grant_by_id ?db1 (c_grant c) = Some g"
    using out by (auto simp: exchange_spent_def split: option.splits)
  show ?thesis
  proof (cases "still_may_connect cfg now g (c_user c) (c_user_epoch c) ?db1")
    case None
    then show ?thesis
      using out g spent by (auto simp: exchange_spent_def code_refused_def intro!: refused_token_reaches)
  next
    case (Some u)
    let ?pr = "\<lparr>pr_grant = g, pr_user = u, pr_client_id = c_client_id c,
      pr_scopes = narrow_scope cfg (c_scope c) (may_write cfg (break_glasses db) now (Some u) (Some g) \<and>
                 write_enablement_covers g (Some (c_created_at c))),
      pr_resource = c_resource c, pr_family_id = ?n, pr_started_at = now, pr_auth_method = am\<rparr>"
    obtain issued j db2 e
      where p: "issue_pair cfg cr now raws ?pr (?db1\<lparr>next_id := Suc ?n\<rparr>) = (Inr (issued, j), db2)"
      and db': "db' = record_event TOKEN_ISSUED True (Some (u_id u)) (Some (g_id g)) (web_context cid ip) e
         (save_code (c_id c) (\<lambda>d. d\<lparr>c_family_id := Some ?n\<rparr>) db2)"
      using out g Some by (auto simp: exchange_spent_def fresh_def Let_def split: prod.splits sum.splits)
    note new = issue_pair_Inr [OF p]
    let ?a = "access_of cfg cr now raws ?pr (Suc ?n)"
    let ?r = "refresh_of cfg cr now raws ?pr (Suc (Suc ?n))"
    have who: "g \<in> set (grants db)" "g_status g = Active" "g_user g = u_id u"
      using g still_may_connect_Some [OF Some] by auto
    have "moves db (use_code (c_id c) now (Some ?n) (add_pair ?a ?r (db\<lparr>next_id := Suc ?n\<rparr>)))"
      using mem unused who new(2,4)
      by (intro moves.exchange) (auto simp: access_of_def new_token_def owned_def)
    then show ?thesis
      unfolding db' using new(1) by (intro reaches_event) (simp add: exchange_is_use)
  qed
qed

lemma exchange_code_reaches:
  assumes inv: "access_inv db"
  shows "reaches db (snd (exchange_code cfg cr now raws cid code uri verifier resource ip am db))"
  unfolding exchange_code_def
proof (rule atomic_reaches, goal_cases)
  case (1 ans db')
  show ?case
  proof (cases "\<exists>d c. opaque_digest cr code = Some d \<and> first_where (\<lambda>c. c_digest c = d) (codes db) = Some c")
    case False
    with 1 show ?thesis by (auto split: option.splits)
  next
    case True
    then obtain d c where d: "opaque_digest cr code = Some d"
      and c: "first_where (\<lambda>c. c_digest c = d) (codes db) = Some c" by auto
    then have mem: "c \<in> set (codes db)" by auto
    show ?thesis
    proof (cases "c_used_at c")
      case (Some t)
      then show ?thesis
        using 1 d c by (auto simp: code_refused_def Let_def split: option.splits
            intro!: refused_token_reaches revoke_snd_reaches)
    next
      case None
      have spent: "reaches db (save_code (c_id c) (\<lambda>e. e\<lparr>c_used_at := Some now\<rparr>) db)"
        unfolding spend_is_use [OF inv mem None] using moves.spend_code [OF mem None] by auto
      show ?thesis
      proof (cases "code_problem cfg cr now cid uri verifier resource c")
        case (Some why)
        then show ?thesis
          using 1 d c None spent by (auto simp: code_refused_def intro!: refused_token_reaches)
      next
        case ok: None
        then show ?thesis using 1 d c None exchange_spent_reaches [OF inv mem None] by simp
      qed
    qed
  qed
qed

lemma rotate_reaches:
  assumes inv: "access_inv db" and t: "t \<in> set (tokens db)" "live_refresh t"
    and out: "rotate cfg cr now t raw cid scope ip am db = (Inr ans, db')"
  shows "reaches db db'"
proof -
  obtain g where g: "grant_by_id db (t_grant t) = Some g"
    using out by (auto simp: rotate_def split: option.splits)
  show ?thesis
  proof (cases "still_may_connect cfg now g (t_user t) (t_user_epoch t) db")
    case None
    then show ?thesis
      using out g by (auto simp: rotate_def refresh_refused_def intro!: refused_token_reaches end_family_reaches)
  next
    case (Some u)
    let ?pr = "\<lparr>pr_grant = g, pr_user = u, pr_client_id = t_client_id t,
      pr_scopes = narrow_scope cfg (asked_scope scope t) (may_write cfg (break_glasses db) now (Some u) (Some g) \<and>
        write_enablement_covers g (Some (family_started t))), pr_resource = t_resource t,
      pr_family_id = t_family_id t, pr_started_at = family_started t,
      pr_auth_method = (if t_auth_method t \<noteq> [] then t_auth_method t else am)\<rparr>"
    obtain issued j db1 e where p: "issue_pair cfg cr now (successor_pair cfg cr raw) ?pr db = (Inr (issued, j), db1)"
      and db': "db' = record_event TOKEN_REFRESHED True (Some (u_id u)) (Some (g_id g)) (web_context cid ip) e
         (rotate_token (t_id t) now j db1)"
      using out g Some by (auto simp: rotate_def rotate_token_def Let_def split: prod.splits sum.splits)
    note new = issue_pair_Inr [OF p]
    let ?a = "access_of cfg cr now (successor_pair cfg cr raw) ?pr (next_id db)"
    have "t_family_id ?a = t_family_id t" "lineage ?a = lineage t"
      using g still_may_connect_Some [OF Some]
      by (auto simp: access_of_def new_token_def lineage_def family_started_def)
    then have "moves db (rotate_token (t_id t) now j db1)"
      unfolding new(1,3) by (rule moves.rotation [OF t new(2) _ _ new(4)])
    then show ?thesis unfolding db' by (intro reaches_event) auto
  qed
qed

lemma refresh_live_reaches:
  assumes inv: "access_inv db" and t: "t \<in> set (tokens db)" "t_kind t = Refresh"
    and out: "refresh_live cfg cr now t raw cid resource scope ip am db = (Inr ans, db')"
  shows "reaches db db'"
proof (cases "t_revoked_at t = None \<and> \<not> t_expires_at t \<le> now \<and> \<not> family_ends_at cfg (family_started t) \<le> now
    \<and> requested_problem cfg am resource scope t = None")
  case True
  then show ?thesis
    using out t by (intro rotate_reaches [OF inv t(1)]) (auto simp: refresh_live_def live_refresh_def)
next
  case False
  then show ?thesis
    using out by (auto simp: refresh_live_def refresh_refused_def split: if_splits option.splits
        intro!: refused_token_reaches end_family_reaches)
qed

lemma refresh_reaches:
  assumes inv: "access_inv db"
  shows "reaches db (snd (refresh cfg cr now cid raw resource scope ip am db))"
  unfolding refresh_def
proof (rule atomic_reaches, goal_cases)
  case (1 ans db')
  show ?case
  proof (cases "\<exists>d t. opaque_digest cr raw = Some d \<and>
      first_where (\<lambda>t. t_digest t = d \<and> t_kind t = Refresh) (tokens db) = Some t")
    case False
    with 1 show ?thesis by (auto split: option.splits)
  next
    case True
    then obtain d t where d: "opaque_digest cr raw = Some d"
      and t: "first_where (\<lambda>t. t_digest t = d \<and> t_kind t = Refresh) (tokens db) = Some t" by auto
    have "reaches db db'" if "t_replaced_by t = None" "same (t_client_id t) cid"
      using 1 d t that by (intro refresh_live_reaches [OF inv, of t]) auto
    moreover have "reaches db (snd (reuse_detected now t cid ip db))"
      by (auto simp: reuse_detected_def split_beta intro: reaches_event end_family_reaches)
    ultimately show ?thesis
      using 1 d t by (auto simp: refresh_refused_def split: if_splits option.splits
          intro!: refused_token_reaches reaches_event)
  qed
qed

lemma revoke_token_reaches: "reaches db (snd (revoke_token cr now cid raw ip db))"
  unfolding revoke_token_def
  by (rule atomic_reaches)
    (auto simp: Let_def split_beta split: option.splits if_splits
      intro!: reaches_event end_family_reaches revoke_snd_reaches)

end
