(* ===== verification/TokenVerification.thy ===== *)
theory TokenVerification
  imports Tokens
begin

text \<open>
  Bearer-token verification for the reader and writer processes
  (\<open>app/mcp_access/verification.py\<close>). Pure reads: nothing here returns a new state.
\<close>

record verified_access =
  va_token_id :: row_id
  va_user_id :: row_id
  va_grant_id :: row_id
  va_client_id :: string
  va_scopes :: "string set"
  va_resource :: string
  va_expires_at :: instant
  va_family_id :: "row_id option"  \<comment> \<open>\<open>None\<close> is \<open>NO_FAMILY\<close>, which no token has\<close>

definition token_passes :: "settings \<Rightarrow> instant \<Rightarrow> token \<Rightarrow> bool" where
  "token_passes cfg now t \<longleftrightarrow>
     (if t_kind t \<noteq> Access \<or> t_revoked_at t \<noteq> None then False
      else if t_expires_at t \<le> now then False
      else if \<not> resource_is_allowed cfg (t_resource t) then False
      else read_scope_name cfg \<in> scope_set t)"

definition account_passes ::
  "settings \<Rightarrow> break_glass list \<Rightarrow> instant \<Rightarrow> token \<Rightarrow> grant option \<Rightarrow> user option \<Rightarrow> bool" where
  "account_passes cfg bgs now t go uo \<longleftrightarrow>
     (case (go, uo) of
        (Some g, Some u) \<Rightarrow>
          (if g_status g \<noteq> Active then False
           else if \<not> may_connect cfg bgs now (Some u) (Some g) then False
           else u_epoch u = t_user_epoch t)
      | _ \<Rightarrow> False)"

definition verify_access_token ::
  "settings \<Rightarrow> crypto \<Rightarrow> instant \<Rightarrow> string \<Rightarrow> access_db \<Rightarrow> verified_access option" where
  "verify_access_token cfg cr now raw_token db =
     (if \<not> is_enabled cfg then None
      else case opaque_digest cr raw_token of
        None \<Rightarrow> None
      | Some d \<Rightarrow>
          (case first_where (\<lambda>t. t_digest t = d \<and> t_kind t = Access) (tokens db) of
             None \<Rightarrow> None
           | Some t \<Rightarrow>
               (if \<not> token_passes cfg now t then None
                else if \<not> account_passes cfg (break_glasses db) now t
                       (grant_by_id db (t_grant t)) (user_by_id db (t_user t)) then None
                else Some \<lparr>va_token_id = t_id t, va_user_id = t_user t, va_grant_id = t_grant t,
                       va_client_id = t_client_id t, va_scopes = scope_set t,
                       va_resource = t_resource t, va_expires_at = t_expires_at t,
                       va_family_id = Some (t_family_id t)\<rparr>)))"

definition afresh ::
  "settings \<Rightarrow> instant \<Rightarrow> verified_access \<Rightarrow> access_db \<Rightarrow> (token \<times> grant \<times> user) option" where
  "afresh cfg now access db =
     (if \<not> is_enabled cfg then None
      else case first_where (\<lambda>t. t_id t = va_token_id access \<and> t_kind t = Access) (tokens db) of
        None \<Rightarrow> None
      | Some t \<Rightarrow>
          (if t_user t \<noteq> va_user_id access \<or> t_grant t \<noteq> va_grant_id access then None
           else if \<not> token_passes cfg now t then None
           else case (grant_by_id db (va_grant_id access), user_by_id db (va_user_id access)) of
             (Some g, Some u) \<Rightarrow>
               if account_passes cfg (break_glasses db) now t (Some g) (Some u)
               then Some (t, g, u) else None
           | _ \<Rightarrow> None))"

definition reader_for :: "settings \<Rightarrow> instant \<Rightarrow> verified_access \<Rightarrow> access_db \<Rightarrow> user option" where
  "reader_for cfg now access db = map_option (\<lambda>(t, g, u). u) (afresh cfg now access db)"

definition writer_for :: "settings \<Rightarrow> instant \<Rightarrow> verified_access \<Rightarrow> access_db \<Rightarrow> user option" where
  "writer_for cfg now access db =
     (case afresh cfg now access db of
        None \<Rightarrow> None
      | Some (t, g, u) \<Rightarrow>
          (if Some (t_family_id t) \<noteq> va_family_id access then None
           else if write_scope_name cfg \<notin> scope_set t then None
           else if \<not> may_write cfg (break_glasses db) now (Some u) (Some g) then None
           else if \<not> write_enablement_covers g (Some (family_started t)) then None
           else Some u))"

end
