(* ===== verification/AccessSystem.thy ===== *)
theory AccessSystem
  imports AccessRefinement TokenVerification
begin

text \<open>
  The authorization server as a whole: one constructor per operation of the services, with the
  arguments and the draws of a call, and what the accounts app may do to its own rows meanwhile.
  The settings belong to a call, so they may differ from one to the next. The laws of
  \<open>Interfaces\<close> are discharged here on \<open>access_step\<close>, and the properties of whole histories rest
  on them.
\<close>

section \<open>The operations\<close>

datatype (plugins only: code) access_op =
    GrantAccess instant "string \<times> string" row_id string "row_id option"
  | IssueEnrolmentLink instant "string \<times> string" row_id string
  | RevokeGrant instant row_id string string
  | RevokeAll instant string string
  | Unlock row_id string
  | GrantWrite instant row_id string
  | RevokeWrite instant row_id string string
  | RevokeAllWrites instant string string
  | ConfirmEnrolment instant instant string string row_id string string "string option"
  | CheckEnrolmentAddress text_tables instant instant string string "string option" "throttle_key list"
  | AuthorizeAttempt instant instant instant instant string "row_id option" authorization_request
      string "string option" "throttle_key list"
  | ConfirmWriteCode instant instant instant row_id row_id string "string option" "throttle_key list"
  | RecordDenied "row_id option" authorization_request "string option"
  | ExchangeCode instant "string \<times> string" string string string string string "string option" string
  | RefreshTokens instant string string string string "string option" string
  | RevokeToken instant string string "string option"
  | RecordEvent event_type bool "row_id option" "row_id option" event_context
      "(string \<times> detail_value) list"
  | EditAccounts "user list" "break_glass list"

fun access_step :: "crypto \<Rightarrow> access_db \<Rightarrow> settings \<times> access_op \<Rightarrow> access_db" where
  "access_step cr db (cfg, GrantAccess now draw uid prov by) =
     snd (grant_access cfg cr now draw uid prov by db)"
| "access_step cr db (cfg, IssueEnrolmentLink now draw uid prov) =
     snd (issue_enrolment_link cfg cr now draw uid prov db)"
| "access_step cr db (cfg, RevokeGrant now uid reason prov) = snd (revoke_grant now uid reason prov db)"
| "access_step cr db (cfg, RevokeAll now reason prov) = snd (revoke_all now reason prov db)"
| "access_step cr db (cfg, Unlock uid prov) = snd (unlock uid prov db)"
| "access_step cr db (cfg, GrantWrite now uid prov) = snd (grant_write cfg now uid prov db)"
| "access_step cr db (cfg, RevokeWrite now uid reason prov) = snd (revoke_write now uid reason prov db)"
| "access_step cr db (cfg, RevokeAllWrites now reason prov) =
     snd (revoke_all_writes now reason prov db)"
| "access_step cr db (cfg, ConfirmEnrolment now tnow nonce proof uid sealed code ip) =
     snd (confirm_enrolment cfg cr now tnow nonce proof uid sealed code ip db)"
| "access_step cr db (cfg, CheckEnrolmentAddress tt hnow now proof address ip ks) =
     snd (check_enrolment_address cfg tt hnow now proof address ip ks db)"
| "access_step cr db (cfg, AuthorizeAttempt hnow now tnow created raw uid req code ip ks) =
     snd (authorize_attempt cfg cr hnow now tnow created raw uid req code ip ks db)"
| "access_step cr db (cfg, ConfirmWriteCode hnow now tnow uid gid code ip ks) =
     snd (confirm_write_code cfg cr hnow now tnow uid gid code ip ks db)"
| "access_step cr db (cfg, RecordDenied uid req ip) = record_denied uid req ip db"
| "access_step cr db (cfg, ExchangeCode now raws cid code uri verifier resource ip am) =
     snd (exchange_code cfg cr now raws cid code uri verifier resource ip am db)"
| "access_step cr db (cfg, RefreshTokens now cid raw resource scope ip am) =
     snd (refresh cfg cr now cid raw resource scope ip am db)"
| "access_step cr db (cfg, RevokeToken now cid raw ip) = snd (revoke_token cr now cid raw ip db)"
| "access_step cr db (cfg, RecordEvent et ok u g x d) = record_event et ok u g x d db"
| "access_step cr db (cfg, EditAccounts us bgs) =
     (if unique_on u_id us then db\<lparr>users := us, break_glasses := bgs\<rparr> else db)"

definition empty_access :: access_db where
  "empty_access = \<lparr>users = [], break_glasses = [], grants = [], authenticators = [], links = [],
     codes = [], tokens = [], throttles = [], events = [], next_id = 0\<rparr>"

definition history :: "crypto \<Rightarrow> (settings \<times> access_op) list \<Rightarrow> access_db" where
  "history cr ops = foldl (access_step cr) empty_access ops"

lemma access_step_reaches: "access_inv db \<Longrightarrow> reaches db (access_step cr db e)"
proof -
  assume inv: "access_inv db"
  obtain cfg opn where "e = (cfg, opn)" by fastforce
  with inv show ?thesis
    by (cases opn) (simp_all add: grant_access_reaches issue_enrolment_link_reaches revoke_grant_reaches
      revoke_all_reaches unlock_reaches grant_write_reaches revoke_write_reaches revoke_all_writes_reaches
      confirm_enrolment_reaches check_enrolment_address_reaches authorize_attempt_reaches
      confirm_write_code_reaches record_denied_reaches exchange_code_reaches refresh_reaches
      revoke_token_reaches r_into_rtranclp moves.people)
qed

lemma empty_access_inv: "access_inv empty_access"
  by (simp add: access_inv_def empty_access_def grants_ok_def links_ok_def authenticators_ok_def
      codes_ok_def tokens_ok_def one_lineage_def unique_on_def unique_when_def)

section \<open>The laws of the interfaces\<close>

interpretation access: step_system "access_step cr" access_inv for cr
  by unfold_locales (blast intro: reaches_inv access_step_reaches)

text \<open>A revoked token, a spent code and an ended grant, by primary key, and the row each is.\<close>

definition token_ended :: "access_db \<Rightarrow> row_id \<Rightarrow> bool" where
  "token_ended db i \<longleftrightarrow> (\<exists>t \<in> set (tokens db). t_id t = i \<and> t_revoked_at t \<noteq> None)"

definition code_by_id :: "access_db \<Rightarrow> row_id \<Rightarrow> authorization_code option" where
  "code_by_id db i = first_where (\<lambda>c. c_id c = i) (codes db)"

definition code_spent :: "access_db \<Rightarrow> row_id \<Rightarrow> bool" where
  "code_spent db i \<longleftrightarrow> (\<exists>c \<in> set (codes db). c_id c = i \<and> c_used_at c \<noteq> None)"

definition grant_ended :: "access_db \<Rightarrow> row_id \<Rightarrow> bool" where
  "grant_ended db i \<longleftrightarrow> (\<exists>g \<in> set (grants db). g_id g = i \<and> g_status g = Revoked)"

definition ended_grant_view ::
  "access_db \<Rightarrow> row_id \<Rightarrow> (row_id \<times> grant_status \<times> instant option \<times> string) option" where
  "ended_grant_view db i =
     map_option (\<lambda>g. (g_user g, g_status g, g_revoked_at g, g_revoke_reason g)) (grant_by_id db i)"

lemma token_by_member:
  "access_inv db \<Longrightarrow> t \<in> set (tokens db) \<Longrightarrow> token_by_id db (t_id t) = Some t"
  unfolding token_by_id_def by (rule first_where_unique) (simp_all add: access_inv_def tokens_ok_def)

lemma code_by_member: "access_inv db \<Longrightarrow> c \<in> set (codes db) \<Longrightarrow> code_by_id db (c_id c) = Some c"
  unfolding code_by_id_def by (rule first_where_unique) (simp_all add: access_inv_def codes_ok_def)

lemma grant_by_member: "access_inv db \<Longrightarrow> g \<in> set (grants db) \<Longrightarrow> grant_by_id db (g_id g) = Some g"
  unfolding grant_by_id_def by (rule first_where_unique) (simp_all add: access_inv_def grants_ok_def)

interpretation ended_tokens: final_rows "access_step cr" access_inv token_ended token_by_id for cr
proof unfold_locales
  fix db i e
  assume inv: "access_inv db" and ended: "token_ended db i"
  then obtain t where t: "t \<in> set (tokens db)" "t_id t = i" "t_revoked_at t \<noteq> None"
    by (auto simp: token_ended_def)
  note r = access_step_reaches [OF inv, of cr e]
  have kept: "t \<in> set (tokens (access_step cr db e))" using reaches_kept(1) [OF r inv] t by blast
  then show "token_ended (access_step cr db e) i" using t by (auto simp: token_ended_def)
  show "token_by_id (access_step cr db e) i = token_by_id db i"
    using token_by_member [OF inv t(1)] token_by_member [OF reaches_inv [OF r inv] kept] t(2) by simp
qed

interpretation spent_codes: final_rows "access_step cr" access_inv code_spent code_by_id for cr
proof unfold_locales
  fix db i e
  assume inv: "access_inv db" and spent: "code_spent db i"
  then obtain c where c: "c \<in> set (codes db)" "c_id c = i" "c_used_at c \<noteq> None"
    by (auto simp: code_spent_def)
  note r = access_step_reaches [OF inv, of cr e]
  have kept: "c \<in> set (codes (access_step cr db e))" using reaches_kept(2) [OF r inv] c by blast
  then show "code_spent (access_step cr db e) i" using c by (auto simp: code_spent_def)
  show "code_by_id (access_step cr db e) i = code_by_id db i"
    using code_by_member [OF inv c(1)] code_by_member [OF reaches_inv [OF r inv] kept] c(2) by simp
qed

interpretation ended_grants: final_rows "access_step cr" access_inv grant_ended ended_grant_view for cr
proof unfold_locales
  fix db i e
  assume inv: "access_inv db" and ended: "grant_ended db i"
  then obtain g where g: "g \<in> set (grants db)" "g_id g = i" "g_status g = Revoked"
    by (auto simp: grant_ended_def)
  note r = access_step_reaches [OF inv, of cr e]
  obtain h where h: "h \<in> set (grants (access_step cr db e))" "g_id h = g_id g" "g_user h = g_user g"
    "g_status h = Revoked" "g_revoked_at h = g_revoked_at g" "g_revoke_reason h = g_revoke_reason g"
    using reaches_ended_grant [OF r inv g(1,3)] by auto
  then show "grant_ended (access_step cr db e) i" using g by (auto simp: grant_ended_def)
  show "ended_grant_view (access_step cr db e) i = ended_grant_view db i"
    using grant_by_member [OF inv g(1)] grant_by_member [OF reaches_inv [OF r inv] h(1)] g h
    by (simp add: ended_grant_view_def)
qed

lemma history_inv: "access_inv (history cr ops)"
  unfolding history_def by (rule access.run_inv) (rule empty_access_inv)

lemma history_append: "history cr (ops @ later) = foldl (access_step cr) (history cr ops) later"
  by (simp add: history_def)

lemma run_reaches: "access_inv db \<Longrightarrow> reaches db (foldl (access_step cr) db es)"
proof (induction es arbitrary: db)
  case (Cons e es)
  have "reaches (access_step cr db e) (foldl (access_step cr) (access_step cr db e) es)"
    by (rule Cons.IH) (rule access.step_inv [OF Cons.prems])
  then show ?case using access_step_reaches [OF Cons.prems, of cr e] by simp
qed simp

end
