(* ===== verification/OAuthRequests.thy ===== *)
theory OAuthRequests
  imports Tokens
begin

text \<open>
  Reading OAuth requests (\<open>app/mcp_access/oauth.py\<close>) and the machine endpoints that act on them
  (\<open>token\<close>, \<open>revoke\<close> and the coarse rate limit of \<open>app/mcp_access/views.py\<close>).

  A \<open>QueryDict\<close> is the list of its pairs, in the order sent; \<open>get\<close> reads the last value of a
  name. The JWT library (\<open>PyJWT\<close>, with the fetch of a client's published keys) is the record
  \<open>jwt_library\<close>, an argument of the definitions that use it. The shared cache is the list of
  entries that were added and not yet overwritten, with the instant each expires.
\<close>

section \<open>Parameters and scopes\<close>

type_synonym params = "(string \<times> string) list"

definition get_param :: "params \<Rightarrow> string \<Rightarrow> string option" where
  "get_param ps name = map_of (rev ps) name"

definition param :: "params \<Rightarrow> string \<Rightarrow> string" where
  "param ps name = (case get_param ps name of None \<Rightarrow> [] | Some v \<Rightarrow> v)"

definition given_times :: "params \<Rightarrow> string \<Rightarrow> nat" where
  "given_times ps name = count_where (\<lambda>(n, v). n = name) ps"

definition ignored_scopes :: "string list" where
  "ignored_scopes = [''offline_access'', ''openid'', ''profile'', ''email'']"

definition max_state_length :: nat where "max_state_length = 2048"

definition granted_scope :: "settings \<Rightarrow> string \<Rightarrow> string option" where
  "granted_scope cfg raw =
     (let requested = remdups (words raw);
          unknown = filter (\<lambda>w. w \<notin> set ignored_scopes \<and> w \<noteq> read_scope_name cfg
                               \<and> w \<noteq> write_scope_name cfg) requested
      in if unknown \<noteq> [] then None
         else Some (narrow_scope cfg (join_words requested) (mcp_writes_enabled cfg)))"

definition asks_for_write :: "settings \<Rightarrow> string \<Rightarrow> bool" where
  "asks_for_write cfg scope \<longleftrightarrow> write_scope_name cfg \<in> set (words scope)"

definition scopes_supported :: "settings \<Rightarrow> string list" where
  "scopes_supported cfg =
     [read_scope_name cfg] @ (if mcp_writes_enabled cfg then [write_scope_name cfg] else [])"

section \<open>The authorization request\<close>

datatype early_problem = UnknownClient | RedirectNotRegistered | MalformedRequest

datatype parsed =
    EarlyError early_problem
  | RedirectError string string string "string option"
      \<comment> \<open>redirect URI, error, description, state\<close>
  | Request authorization_request

definition single_params :: "string list" where
  "single_params =
     [''client_id'', ''redirect_uri'', ''response_type'', ''code_challenge'', ''resource'']"

definition parse_authorization :: "settings \<Rightarrow> params \<Rightarrow> parsed" where
  "parse_authorization cfg ps =
     (case client cfg (param ps ''client_id'') of
        None \<Rightarrow> EarlyError UnknownClient
      | Some cl \<Rightarrow>
          (let redirect_uri = param ps ''redirect_uri'';
               state = get_param ps ''state'';
               refuse = (\<lambda>err descr. RedirectError redirect_uri err descr state);
               challenge = param ps ''code_challenge'';
               resource = normalise_resource (param ps ''resource'')
           in if redirect_uri = [] \<or> redirect_uri \<notin> set (oc_redirect_uris cl)
              then EarlyError RedirectNotRegistered
              else if (case state of None \<Rightarrow> False | Some s \<Rightarrow> length s > max_state_length)
              then EarlyError MalformedRequest
              else if param ps ''response_type'' \<noteq> ''code''
              then refuse ''unsupported_response_type'' ''Only response_type=code is supported.''
              else case List.find (\<lambda>name. given_times ps name > 1) single_params of
                Some name \<Rightarrow> refuse ''invalid_request'' (name @ '' given more than once.'')
              | None \<Rightarrow>
                  (if challenge = [] \<or> param ps ''code_challenge_method'' \<noteq> ''S256''
                   then refuse ''invalid_request''
                     ''PKCE with code_challenge_method=S256 is required.''
                   else if \<not> is_pkce_challenge challenge
                   then refuse ''invalid_request'' ''Malformed code_challenge.''
                   else if resource = []
                   then refuse ''invalid_target'' ''A resource indicator is required.''
                   else if \<not> resource_is_allowed cfg resource
                   then refuse ''invalid_target'' ''Unknown resource.''
                   else case granted_scope cfg (param ps ''scope'') of
                     None \<Rightarrow> refuse ''invalid_scope'' ''Unknown scope.''
                   | Some sc \<Rightarrow>
                       Request \<lparr>ar_client = cl, ar_redirect_uri = redirect_uri,
                         ar_code_challenge = challenge, ar_scope = sc, ar_resource = resource,
                         ar_state = state\<rparr>)))"

section \<open>Client authentication\<close>

datatype claim = Absent | Text string | Number int | OtherClaim

record claims =
  cl_iss :: claim
  cl_sub :: claim
  cl_exp :: claim
  cl_jti :: claim

record jwt_library =
  jwt_peek :: "string \<Rightarrow> claims option"
    \<comment> \<open>\<open>jwt.decode\<close> without verification; \<open>None\<close> where it raises\<close>
  jwt_alg :: "string \<Rightarrow> string option"
  jwks_key :: "string \<Rightarrow> string \<Rightarrow> string option"
    \<comment> \<open>JWKS URI and assertion\<close>
  jwt_decode :: "instant \<Rightarrow> string \<Rightarrow> string \<Rightarrow> string list \<Rightarrow> string \<Rightarrow> int \<Rightarrow> claims option"
    \<comment> \<open>time, assertion, key, audiences, issuer, leeway; \<open>None\<close> where it raises\<close>

definition leeway :: int where "leeway = 30"
definition max_assertion_lifetime :: int where "max_assertion_lifetime = 5 * 60"
definition client_assertion_type :: string where
  "client_assertion_type = ''urn:ietf:params:oauth:client-assertion-type:jwt-bearer''"

record cache_entry =
  ce_key :: string
  ce_count :: nat
  ce_expires_at :: instant

type_synonym cache = "cache_entry list"

definition cache_get :: "cache \<Rightarrow> instant \<Rightarrow> string \<Rightarrow> cache_entry option" where
  "cache_get ch now key = first_where (\<lambda>e. ce_key e = key \<and> ce_expires_at e > now) ch"

definition cache_add :: "string \<Rightarrow> nat \<Rightarrow> int \<Rightarrow> instant \<Rightarrow> cache \<Rightarrow> bool \<times> cache" where
  \<comment> \<open>\<open>cache.add(key, n, timeout)\<close>: whether it was not there\<close>
  "cache_add key n timeout now ch =
     (case cache_get ch now key of
        Some _ \<Rightarrow> (False, ch)
      | None \<Rightarrow> (True, \<lparr>ce_key = key, ce_count = n, ce_expires_at = now + seconds timeout\<rparr> #
                  filter (\<lambda>e. ce_key e \<noteq> key) ch))"

definition unix_time :: "instant \<Rightarrow> int" where
  \<comment> \<open>\<open>int(time.time())\<close>\<close>
  "unix_time now = int_seconds now"

definition jti_key :: "crypto \<Rightarrow> string \<Rightarrow> string \<Rightarrow> string" where
  "jti_key cr cid jti = ''mcp_access:jti:'' @ sha256 cr (cid @ CHR 0x1F # jti)"

definition remember_jti ::
  "crypto \<Rightarrow> instant \<Rightarrow> string \<Rightarrow> string \<Rightarrow> int \<Rightarrow> cache \<Rightarrow> bool \<times> cache" where
  "remember_jti cr now cid jti expires ch =
     cache_add (jti_key cr cid jti) 1 (max 1 (expires - unix_time now + leeway)) now ch"

definition verify_assertion ::
  "settings \<Rightarrow> crypto \<Rightarrow> jwt_library \<Rightarrow> instant \<Rightarrow> instant \<Rightarrow> oauth_client \<Rightarrow> string \<Rightarrow> cache \<Rightarrow>
     bool \<times> cache" where
  \<comment> \<open>\<open>dnow\<close> is the library's reading of the clock, \<open>now\<close> the code's own, later\<close>
  "verify_assertion cfg cr jl dnow now cl assertion ch =
     (if oc_jwks_uri cl = [] then (False, ch)
      else if jwt_alg jl assertion \<noteq> Some ''RS256'' then (False, ch)
      else case jwks_key jl (oc_jwks_uri cl) assertion of
        None \<Rightarrow> (False, ch)
      | Some key \<Rightarrow>
          (case jwt_decode jl dnow assertion key [token_endpoint_url cfg, issuer cfg]
                  (oc_client_id cl) leeway of
             None \<Rightarrow> (False, ch)
           | Some cs \<Rightarrow>
               (if cl_sub cs \<noteq> Text (oc_client_id cl) then (False, ch)
                else case (cl_exp cs, cl_jti cs) of
                  (Number exp, Text jti) \<Rightarrow>
                    (if jti = [] \<or> length jti > 256 then (False, ch)
                     else if exp > unix_time now + max_assertion_lifetime + leeway then (False, ch)
                     else remember_jti cr now (oc_client_id cl) jti exp ch)
                | _ \<Rightarrow> (False, ch))))"

definition authenticate_client ::
  "settings \<Rightarrow> crypto \<Rightarrow> jwt_library \<Rightarrow> instant \<Rightarrow> instant \<Rightarrow> params \<Rightarrow> string \<Rightarrow> cache \<Rightarrow>
     oauth_client option \<times> cache" where
  \<comment> \<open>\<open>None\<close> is \<open>invalid_client\<close>\<close>
  "authenticate_client cfg cr jl dnow now ps authorization_header ch =
     (let assertion = param ps ''client_assertion'';
          named = param ps ''client_id''
      in if authorization_header \<noteq> [] then (None, ch)
         else if assertion \<noteq> [] then
           (if param ps ''client_assertion_type'' \<noteq> client_assertion_type then (None, ch)
            else case jwt_peek jl assertion of
              None \<Rightarrow> (None, ch)
            | Some peeked \<Rightarrow>
                (case (case cl_iss peeked of Absent \<Rightarrow> Text [] | c \<Rightarrow> c) of
                   Text claimed \<Rightarrow>
                     (if named \<noteq> [] \<and> named \<noteq> claimed then (None, ch)
                      else case client cfg claimed of
                        None \<Rightarrow> (None, ch)
                      | Some cl \<Rightarrow>
                          (if auth_method_jwt \<notin> set (oc_auth_methods cl) then (None, ch)
                           else case verify_assertion cfg cr jl dnow now cl assertion ch of
                             (True, ch1) \<Rightarrow> (Some cl, ch1)
                           | (False, ch1) \<Rightarrow> (None, ch1)))
                 | _ \<Rightarrow> (None, ch)))
         else if param ps ''client_assertion_type'' \<noteq> [] then (None, ch)
         else case client cfg named of
           None \<Rightarrow> (None, ch)
         | Some cl \<Rightarrow>
             (if auth_method_none \<notin> set (oc_auth_methods cl) then (None, ch) else (Some cl, ch)))"

section \<open>The machine endpoints\<close>

definition rate_limit :: nat where "rate_limit = 30"
definition rate_window :: int where "rate_window = 60"

definition rate_key :: "crypto \<Rightarrow> string \<Rightarrow> string option \<Rightarrow> string" where
  "rate_key cr endpoint ip =
     ''mcp_access:rate:'' @ endpoint @ '':'' @
       sha256 cr (case ip of None \<Rightarrow> ''unknown'' | Some a \<Rightarrow> if a = [] then ''unknown'' else a)"

definition cache_incr :: "string \<Rightarrow> cache \<Rightarrow> cache" where
  "cache_incr key ch = update_where (\<lambda>e. ce_key e = key) (\<lambda>e. e\<lparr>ce_count := Suc (ce_count e)\<rparr>) ch"

definition rate_limited :: "crypto \<Rightarrow> instant \<Rightarrow> string \<Rightarrow> string option \<Rightarrow> cache \<Rightarrow> bool \<times> cache" where
  \<comment> \<open>with one reading of the clock the entry cannot expire between the two calls\<close>
  "rate_limited cr now endpoint ip ch =
     (let key = rate_key cr endpoint ip;
          ch1 = cache_incr key (snd (cache_add key 0 rate_window now ch));
          count = (case cache_get ch1 now key of None \<Rightarrow> 1 | Some e \<Rightarrow> ce_count e)
      in (count > rate_limit, ch1))"

definition repeated :: "params \<Rightarrow> bool" where
  "repeated ps \<longleftrightarrow> list_ex (\<lambda>(n, v). given_times ps n > 1) ps"

record http_state =
  h_db :: access_db
  h_cache :: cache

datatype token_response = TokensIssued issued_tokens | OAuthFailure oauth_error nat

record request_context =
  rq_form :: "params option"     \<comment> \<open>\<open>None\<close> when the body is not a form\<close>
  rq_authorization :: string
  rq_ip :: "string option"
  rq_dnow :: instant
  rq_now :: instant
  rq_raws :: "string \<times> string"    \<comment> \<open>what \<open>new_opaque\<close> would draw\<close>

definition as_response :: "token_answer \<Rightarrow> token_response" where
  "as_response a = (case a of Inl err \<Rightarrow> OAuthFailure err 400 | Inr issued \<Rightarrow> TokensIssued issued)"

definition token_grant ::
  "settings \<Rightarrow> crypto \<Rightarrow> request_context \<Rightarrow> params \<Rightarrow> oauth_client \<Rightarrow> access_db \<Rightarrow>
     (refusal exn + token_answer) \<times> access_db" where
  "token_grant cfg cr rq ps cl db =
     (let grant_type = param ps ''grant_type'';
          auth_method = (if param ps ''client_assertion'' \<noteq> [] then auth_method_jwt
                         else auth_method_none)
      in if grant_type = ''authorization_code'' then
           (if param ps ''resource'' = [] then (Inr (Inl InvalidTarget), db)
            else exchange_code cfg cr (rq_now rq) (rq_raws rq) (oc_client_id cl) (param ps ''code'')
                   (param ps ''redirect_uri'') (param ps ''code_verifier'') (param ps ''resource'')
                   (rq_ip rq) auth_method db)
         else if grant_type = ''refresh_token'' then
           refresh cfg cr (rq_now rq) (oc_client_id cl) (param ps ''refresh_token'')
             (param ps ''resource'') (param ps ''scope'') (rq_ip rq) auth_method db
         else (Inr (Inl UnsupportedGrantType), db))"

definition token_endpoint ::
  "settings \<Rightarrow> crypto \<Rightarrow> jwt_library \<Rightarrow> request_context \<Rightarrow> http_state \<Rightarrow>
     token_response option \<times> http_state" where
  \<comment> \<open>\<open>None\<close> is a 404 (switched off) or an unhandled error (a 500)\<close>
  "token_endpoint cfg cr jl rq h =
     (if \<not> is_enabled cfg then (None, h)
      else case rate_limited cr (rq_now rq) ''token'' (rq_ip rq) (h_cache h) of
        (True, ch) \<Rightarrow> (Some (OAuthFailure InvalidRequest 429), h\<lparr>h_cache := ch\<rparr>)
      | (False, ch) \<Rightarrow>
          (case rq_form rq of
             None \<Rightarrow> (Some (OAuthFailure InvalidRequest 400), h\<lparr>h_cache := ch\<rparr>)
           | Some ps \<Rightarrow>
               (if repeated ps then (Some (OAuthFailure InvalidRequest 400), h\<lparr>h_cache := ch\<rparr>)
                else case authenticate_client cfg cr jl (rq_dnow rq) (rq_now rq) ps
                            (rq_authorization rq) ch of
                  (None, ch1) \<Rightarrow>
                    (Some (OAuthFailure InvalidClient 401),
                     \<lparr>h_db = record_event TOKEN_REFUSED False None None
                         (web_context (take 500 (param ps ''client_id'')) (rq_ip rq))
                         [(''reason'', DText ''invalid_client'')] (h_db h), h_cache = ch1\<rparr>)
                | (Some cl, ch1) \<Rightarrow>
                    (case token_grant cfg cr rq ps cl (h_db h) of
                       (Inl e, db1) \<Rightarrow> (None, \<lparr>h_db = db1, h_cache = ch1\<rparr>)
                     | (Inr a, db1) \<Rightarrow>
                         (Some (as_response a), \<lparr>h_db = db1, h_cache = ch1\<rparr>)))))"

datatype revoke_response = Revoked200 | RevokeFailure oauth_error nat

definition revoke_endpoint ::
  "settings \<Rightarrow> crypto \<Rightarrow> jwt_library \<Rightarrow> request_context \<Rightarrow> http_state \<Rightarrow>
     revoke_response option \<times> http_state" where
  "revoke_endpoint cfg cr jl rq h =
     (if \<not> is_enabled cfg then (None, h)
      else case rate_limited cr (rq_now rq) ''revoke'' (rq_ip rq) (h_cache h) of
        (True, ch) \<Rightarrow> (Some (RevokeFailure InvalidRequest 429), h\<lparr>h_cache := ch\<rparr>)
      | (False, ch) \<Rightarrow>
          (case rq_form rq of
             None \<Rightarrow> (Some (RevokeFailure InvalidRequest 400), h\<lparr>h_cache := ch\<rparr>)
           | Some ps \<Rightarrow>
               (if repeated ps then (Some (RevokeFailure InvalidRequest 400), h\<lparr>h_cache := ch\<rparr>)
                else case authenticate_client cfg cr jl (rq_dnow rq) (rq_now rq) ps
                            (rq_authorization rq) ch of
                  (None, ch1) \<Rightarrow> (Some (RevokeFailure InvalidClient 401), h\<lparr>h_cache := ch1\<rparr>)
                | (Some cl, ch1) \<Rightarrow>
                    (Some Revoked200,
                     \<lparr>h_db = snd (revoke_token cr (rq_now rq) (oc_client_id cl) (param ps ''token'')
                         (rq_ip rq) (h_db h)), h_cache = ch1\<rparr>))))"

end
