(* ===== verification/AccessExample.thy ===== *)
theory AccessExample
  imports AccessSystem OAuthRequests
begin

text \<open>
  One worked history for the witnesses: an account is created, granted access by an operator,
  enrols its authenticator, is allowed to prepare changes, connects a client and exchanges the
  code it got. The cryptographic functions of the example are short stand-ins with the shapes of
  the real ones; no property rests on them.
\<close>

definition example_settings :: settings where
  "example_settings =
     \<lparr>real_data_allowed = True, mcp_enabled = True, mcp_writes_enabled = True,
      public_origin = ''https://j.ee'', read_scope_name = ''juristid.read'',
      write_scope_name = ''juristid.write'', resource_urls = [''https://m.ee/''],
      oauth_clients = [(''cl'', \<lparr>rc_client_name = Some ''Client'',
        rc_redirect_uris = Some [''https://c.ee/cb''], rc_auth_methods = None,
        rc_jwks_uri = None\<rparr>)],
      enrol_path = ''/e'', token_path = ''/t'', enrolment_link_seconds = 3600,
      authorization_code_seconds = 60, access_token_seconds = 600, refresh_token_seconds = 86400,
      refresh_family_max_seconds = 864000, refresh_grace_seconds = 30,
      authorize_throttle_seconds = 900, authenticator_key = ''k'', mfa_key = [],
      token_derivation_key = ''d'', secret_key = ''s''\<rparr>"

definition toy_hash :: "string \<Rightarrow> string" where
  "toy_hash s = take 64 (s @ s)"

definition toy_encrypt :: "string \<times> string \<Rightarrow> string \<Rightarrow> string \<Rightarrow> string" where
  "toy_encrypt k nonce secret = nonce @ CHR ''.'' # secret"

definition toy_decrypt :: "string \<times> string \<Rightarrow> string \<Rightarrow> string option" where
  "toy_decrypt k sealed =
     (case partition_at CHR ''.'' sealed of (n, found, s) \<Rightarrow> if found then Some s else None)"

definition toy_otp :: "string \<Rightarrow> int \<Rightarrow> string" where
  "toy_otp secret step =
     (if step = 33 then ''000033'' else if step = 66 then ''000066'' else ''999999'')"

definition toy_derive :: "string \<Rightarrow> string \<Rightarrow> string \<Rightarrow> string" where
  "toy_derive km label tok = (if label = ''access'' then CHR ''B'' else CHR ''S'') # butlast tok"

definition example_crypto :: crypto where
  "example_crypto =
     \<lparr>sha256 = toy_hash, pkce_digest = id, fernet_encrypt = toy_encrypt,
      fernet_decrypt = toy_decrypt, generate_otp = toy_otp, derive = toy_derive\<rparr>"

definition raw_of :: "char \<Rightarrow> string" where
  "raw_of c = replicate 43 c"

definition example_selector :: string where
  "example_selector = replicate 32 CHR ''a''"

definition example_request :: authorization_request where
  "example_request =
     \<lparr>ar_client = \<lparr>oc_client_id = ''cl'', oc_name = ''Client'', oc_redirect_uris = [''https://c.ee/cb''],
        oc_auth_methods = [''none''], oc_jwks_uri = []\<rparr>, ar_redirect_uri = ''https://c.ee/cb'',
      ar_code_challenge = raw_of CHR ''p'', ar_scope = ''juristid.read juristid.write'',
      ar_resource = ''https://m.ee'', ar_state = None\<rparr>"

definition example_throttle :: "throttle_key list" where
  "example_throttle = [\<lparr>tk_key = ''s'', tk_limit = 2\<rparr>]"

definition example_ops :: "(settings \<times> access_op) list" where
  "example_ops = map (Pair example_settings)
     [EditAccounts [example_specialist] [],
      GrantAccess (seconds 1000) (example_selector, raw_of CHR ''f'') 1 ''op'' None,
      ConfirmEnrolment (seconds 1010) (seconds 1010) ''n''
        (example_selector @ CHR ''.'' # replicate 64 CHR ''f'') 1 ''n.s'' ''000033'' None,
      GrantWrite (seconds 1020) 1 ''op'',
      AuthorizeAttempt (seconds 2000) (seconds 2000) (seconds 2000) (seconds 2001) (raw_of CHR ''c'')
        (Some 1) example_request ''000066'' None example_throttle,
      ExchangeCode (seconds 2010) (raw_of CHR ''A'', raw_of CHR ''R'') ''cl'' (raw_of CHR ''c'')
        ''https://c.ee/cb'' (raw_of CHR ''p'') ''https://m.ee/'' None ''none'']"

text \<open>The state after the first \<open>n\<close> of them.\<close>

definition example_after :: "nat \<Rightarrow> access_db" where
  "example_after n = history example_crypto (take n example_ops)"

lemma example_ran:
  "map e_type (events (example_after 6)) =
     [GRANT_CREATED, ENROLMENT_LINK_ISSUED, ENROLMENT_COMPLETED, WRITE_ENABLED, AUTHORIZATION_GRANTED,
      TOKEN_ISSUED]"
  "map t_scopes (tokens (example_after 6)) =
     [''juristid.read juristid.write'', ''juristid.read juristid.write'']"
  by code_simp+

fun issued_of :: "(refusal exn + token_answer) \<times> access_db \<Rightarrow> issued_tokens option" where
  "issued_of (Inr (Inr i), db) = Some i"
| "issued_of r = None"

lemma issued_of_Some: "issued_of r = Some i \<Longrightarrow> r = (Inr (Inr i), snd r)"
  by (cases r rule: issued_of.cases) auto

definition example_exchange :: "access_db \<Rightarrow> (refusal exn + token_answer) \<times> access_db" where
  "example_exchange = exchange_code example_settings example_crypto (seconds 2010)
     (raw_of CHR ''A'', raw_of CHR ''R'') ''cl'' (raw_of CHR ''c'') ''https://c.ee/cb''
     (raw_of CHR ''p'') ''https://m.ee/'' None ''none''"

definition example_refresh ::
  "instant \<Rightarrow> string \<Rightarrow> access_db \<Rightarrow> (refusal exn + token_answer) \<times> access_db" where
  "example_refresh now raw =
     refresh example_settings example_crypto now ''cl'' raw ''https://m.ee/'' [] None ''none''"

definition example_pair :: "string \<Rightarrow> string \<Rightarrow> issued_tokens" where
  "example_pair a r = \<lparr>it_access_token = a, it_refresh_token = r, it_expires_in = 600,
     it_scope = ''juristid.read juristid.write'', it_family_id = 3\<rparr>"

definition second_refresh_token :: string where
  "second_refresh_token = snd (successor_pair example_settings example_crypto (raw_of CHR ''R''))"

lemma example_exchanged:
  "issued_of (example_exchange (example_after 5)) = Some (example_pair (raw_of CHR ''A'') (raw_of CHR ''R''))"
  by code_simp

lemma example_after_6: "example_after 6 = snd (example_exchange (example_after 5))"
  by (simp add: example_after_def history_def example_ops_def example_exchange_def)

text \<open>Later operations on it, and their results.\<close>

abbreviation "raw_R \<equiv> raw_of CHR ''R''"

definition example_refreshed :: access_db where
  "example_refreshed = snd (example_refresh (seconds 2100) raw_R (example_after 6))"

definition example_refreshed_twice :: access_db where
  "example_refreshed_twice = snd (example_refresh (seconds 2200) second_refresh_token example_refreshed)"

lemma example_refresh_runs:
  "issued_of (example_refresh (seconds 2100) raw_R (example_after 6)) =
     Some (example_pair (fst (successor_pair example_settings example_crypto raw_R)) second_refresh_token)"
  "map_option it_family_id (issued_of (example_refresh (seconds 2200) second_refresh_token example_refreshed)) = Some 3"
  by code_simp+

lemma example_fresh:
  "\<forall>t \<in> set (tokens (example_after 6)). t_digest t = digest example_crypto raw_R \<longrightarrow> t_replaced_by t = None
     \<and> seconds 2110 < family_ends_at example_settings (family_started t)"
  by code_simp

definition example_access :: verified_access where
  "example_access = \<lparr>va_token_id = 4, va_user_id = 1, va_grant_id = 0, va_client_id = ''cl'',
     va_scopes = {''juristid.read'', ''juristid.write''}, va_resource = ''https://m.ee'',
     va_expires_at = seconds 2610, va_family_id = Some 3\<rparr>"

end
