(* ===== verification/TokenProperties.thy ===== *)
theory TokenProperties
  imports AccessExample
begin

text \<open>
  What the exchange and the rotation of tokens guarantee, over whole histories: the tables stay
  consistent, ended rows never come back, a code yields one pair of tokens, a refresh never widens
  or prolongs a connection, a reused refresh token ends its family and a retried one is answered
  again. Each property is followed by its instance on the history of \<open>AccessExample\<close>.
\<close>

section \<open>The example\<close>

lemma example_first_exchange:
  "exchange_code example_settings example_crypto (seconds 2010) (raw_of CHR ''A'', raw_R) ''cl'' (raw_of CHR ''c'')
     ''https://c.ee/cb'' (raw_of CHR ''p'') ''https://m.ee/'' None ''none''
     (history example_crypto (take 5 example_ops)) =
     (Inr (Inr (example_pair (raw_of CHR ''A'') raw_R)), example_after 6)"
  using issued_of_Some [OF example_exchanged] example_after_6
  by (simp add: example_exchange_def example_after_def)

lemma example_first_refresh:
  "refresh example_settings example_crypto (seconds 2100) ''cl'' raw_R ''https://m.ee/'' [] None ''none''
     (history example_crypto (take 6 example_ops)) =
     (Inr (Inr (example_pair (fst (successor_pair example_settings example_crypto raw_R)) second_refresh_token)),
      example_refreshed)"
  using issued_of_Some [OF example_refresh_runs(1)]
  by (simp add: example_refresh_def example_refreshed_def example_after_def)

lemma example_words:
  "is_word (read_scope_name example_settings)" "is_word (write_scope_name example_settings)"
  "read_scope_name example_settings \<noteq> write_scope_name example_settings"
  by code_simp+



section \<open>Histories\<close>

text \<open>C3: after every sequence of operations, under whatever settings each of them runs, the tables
  are consistent.\<close>

theorem history_keeps_invariant: "access_inv (history cr ops)"
  unfolding history_def by (rule access.run_inv) (rule empty_access_inv)



text \<open>Audit trail.\<close>

theorem trail_only_grows: "\<exists>es. events (history cr (ops @ later)) = events (history cr ops) @ es"
  unfolding history_append by (rule reaches_trail) (rule run_reaches [OF history_inv])

section \<open>Exchanging a code\<close>

lemma use_code_member:
  "c \<in> set (codes db) \<Longrightarrow>
     c\<lparr>c_used_at := Some now, c_family_id := f\<rparr> \<in> set (codes (use_code (c_id c) now f db))"
  by (auto simp: use_code_def save_code_def in_update_where)

lemma family_revoked:
  "t \<in> set (tokens (snd (revoke_tokens (\<lambda>t. t_family_id t = f) reason now db))) \<Longrightarrow> t_family_id t = f \<Longrightarrow>
     t_revoked_at t \<noteq> None"
proof -
  assume t: "t \<in> set (tokens (snd (revoke_tokens (\<lambda>t. t_family_id t = f) reason now db)))" "t_family_id t = f"
  obtain s where s: "t = (if t_family_id s = f \<and> t_revoked_at s = None
      then s\<lparr>t_revoked_at := Some now, t_revoke_reason := take 64 reason\<rparr> else s)"
    using t(1) by (auto simp: revoke_tokens_simps in_update_where)
  show ?thesis
  proof (cases "t_family_id s = f \<and> t_revoked_at s = None")
    case True
    then show ?thesis unfolding s by simp
  next
    case False
    then have "t = s" unfolding s by (rule if_not_P)
    with False t(2) show ?thesis by simp
  qed
qed

lemma save_code_connect [simp]:
  "still_may_connect cfg now g u ep (save_code i f db) = still_may_connect cfg now g u ep db"
  "grant_by_id (save_code i f db) j = grant_by_id db j"
  by (simp_all add: still_may_connect_def user_by_id_def grant_by_id_def cong: option.case_cong)

lemma exchange_success:
  assumes "exchange_code cfg cr now raws cid code uri verifier resource ip am db = (Inr (Inr issued), db')"
  obtains d c g u where "opaque_digest cr code = Some d"
    "first_where (\<lambda>c. c_digest c = d) (codes db) = Some c" "c_used_at c = None"
    "code_problem cfg cr now cid uri verifier resource c = None"
    "grant_by_id db (c_grant c) = Some g"
    "still_may_connect cfg now g (c_user c) (c_user_epoch c) db = Some u"
    "it_scope issued = narrow_scope cfg (c_scope c) (may_write cfg (break_glasses db) now (Some u) (Some g) \<and>
        write_enablement_covers g (Some (c_created_at c)))"
    "\<exists>k \<in> set (codes db'). c_digest k = d \<and> c_used_at k \<noteq> None \<and> c_family_id k = Some (it_family_id issued)"
proof -
  obtain d c where d: "opaque_digest cr code = Some d" "first_where (\<lambda>c. c_digest c = d) (codes db) = Some c"
      "c_used_at c = None" "code_problem cfg cr now cid uri verifier resource c = None"
    and out: "exchange_spent cfg cr now raws cid ip am c
        (save_code (c_id c) (\<lambda>e. e\<lparr>c_used_at := Some now\<rparr>) db) = (Inr (Inr issued), db')"
    using assms by (auto simp: exchange_code_def atomic_return code_refused_def Let_def
        split: option.splits if_splits)
  let ?db1 = "save_code (c_id c) (\<lambda>e. e\<lparr>c_used_at := Some now\<rparr>) db"
  obtain g u where g: "grant_by_id ?db1 (c_grant c) = Some g"
    and u: "still_may_connect cfg now g (c_user c) (c_user_epoch c) ?db1 = Some u"
    using out by (auto simp: exchange_spent_def code_refused_def split: option.splits)
  let ?pr = "\<lparr>pr_grant = g, pr_user = u, pr_client_id = c_client_id c,
    pr_scopes = narrow_scope cfg (c_scope c) (may_write cfg (break_glasses db) now (Some u) (Some g) \<and>
               write_enablement_covers g (Some (c_created_at c))),
    pr_resource = c_resource c, pr_family_id = next_id db, pr_started_at = now, pr_auth_method = am\<rparr>"
  obtain j db2 e
    where p: "issue_pair cfg cr now raws ?pr (?db1\<lparr>next_id := Suc (next_id db)\<rparr>) = (Inr (issued, j), db2)"
    and db': "db' = record_event TOKEN_ISSUED True (Some (u_id u)) (Some (g_id g)) (web_context cid ip) e
         (save_code (c_id c) (\<lambda>d. d\<lparr>c_family_id := Some (next_id db)\<rparr>) db2)"
    using out g u by (auto simp: exchange_spent_def fresh_def Let_def split: prod.splits sum.splits)
  have c: "c \<in> set (codes db)" "c_digest c = d" using d(2) by auto
  have "codes db' = codes (use_code (c_id c) now (Some (next_id db)) db)"
    unfolding db' issue_pair_Inr(1) [OF p] exchange_is_use record_event_frame
    by (simp add: use_code_def save_code_def add_pair_def)
  then have "c\<lparr>c_used_at := Some now, c_family_id := Some (next_id db)\<rparr> \<in> set (codes db')"
    using use_code_member [OF c(1)] by simp
  then have "\<exists>k \<in> set (codes db'). c_digest k = d \<and> c_used_at k \<noteq> None \<and> c_family_id k = Some (it_family_id issued)"
    using c(2) issue_pair_Inr(5) [OF p] by (intro bexI) auto
  moreover have "grant_by_id db (c_grant c) = Some g"
    "still_may_connect cfg now g (c_user c) (c_user_epoch c) db = Some u"
    using g u by simp_all
  ultimately show thesis using that d issue_pair_Inr(5) [OF p] by simp
qed

lemma spent_code_refused:
  assumes inv: "access_inv db" and mem: "c \<in> set (codes db)" and used: "c_used_at c \<noteq> None"
    and d: "opaque_digest cr code = Some (c_digest c)"
    and out: "exchange_code cfg cr now raws cid code uri verifier resource ip am db = (res, db')"
  shows "res = Inr (Inl InvalidGrant) \<and>
    (\<forall>f. c_family_id c = Some f \<longrightarrow> (\<forall>t \<in> set (tokens db'). t_family_id t = f \<longrightarrow> t_revoked_at t \<noteq> None))"
proof -
  have c: "first_where (\<lambda>e. c_digest e = c_digest c) (codes db) = Some c"
    using inv mem by (intro first_where_unique) (simp_all add: access_inv_def codes_ok_def)
  show ?thesis
    using out used by (auto simp: exchange_code_def d c atomic_def code_refused_def Let_def
        dest: family_revoked split: option.splits)
qed

text \<open>C14: a code is exchanged at most once.\<close>

theorem code_exchanged_once:
  assumes first: "exchange_code cfg cr now raws cid code uri verifier resource ip am (history cr ops)
      = (Inr (Inr issued), db1)"
    and second: "exchange_code cfg' cr now' raws' cid' code uri' verifier' resource' ip' am'
      (foldl (access_step cr) db1 later) = (res, db2)"
  shows "res = Inr (Inl InvalidGrant) \<and>
    (\<forall>t \<in> set (tokens db2). t_family_id t = it_family_id issued \<longrightarrow> t_revoked_at t \<noteq> None)"
proof -
  have inv: "access_inv (history cr ops)" by (rule history_inv)
  obtain d k where d: "opaque_digest cr code = Some d"
    and k: "k \<in> set (codes db1)" "c_digest k = d" "c_used_at k \<noteq> None" "c_family_id k = Some (it_family_id issued)"
    using exchange_success [OF first] by metis
  have "reaches (history cr ops) db1"
    using exchange_code_reaches [OF inv, of cfg cr now raws cid code uri verifier resource ip am] first by simp
  then have inv1: "access_inv db1" using inv by (rule reaches_inv)
  let ?db = "foldl (access_step cr) db1 later"
  have "k \<in> set (codes ?db)" "access_inv ?db"
    using reaches_kept(2) [OF run_reaches [OF inv1] inv1] k reaches_inv [OF run_reaches [OF inv1] inv1] by blast+
  then show ?thesis using spent_code_refused [OF _ _ k(3) _ second] d k by auto
qed

theorem code_exchanged_once_witness:
  "fst (example_exchange (foldl (access_step example_crypto) (example_after 6) [(example_settings, Unlock 1 ''op'')])) =
     Inr (Inl InvalidGrant)"
  using code_exchanged_once [OF example_first_exchange, of example_settings "seconds 2010"
      "(raw_of CHR ''A'', raw_R)" "''cl''" "''https://c.ee/cb''" "raw_of CHR ''p''" "''https://m.ee/''" None "''none''"
      "[(example_settings, Unlock 1 ''op'')]", OF surjective_pairing]
  by (simp add: example_exchange_def)

section \<open>Rotating a refresh token\<close>

lemma refresh_token_row:
  assumes "access_inv db" and "t \<in> set (tokens db)" and "t_kind t = Refresh"
  shows "first_where (\<lambda>s. t_digest s = t_digest t \<and> t_kind s = Refresh) (tokens db) = Some t"
proof (cases "first_where (\<lambda>s. t_digest s = t_digest t \<and> t_kind s = Refresh) (tokens db)")
  case None
  then show ?thesis using assms by (auto simp: first_where_None)
next
  case (Some s)
  then have "s \<in> set (tokens db)" "t_digest s = t_digest t" by auto
  then have "s = t" using assms by (auto simp: access_inv_def tokens_ok_def dest: unique_onD)
  then show ?thesis using Some by simp
qed

text \<open>A successful rotation, in full.\<close>

lemma rotate_pair:
  assumes "rotate cfg cr now t raw cid scope ip am db = (Inr (Inr issued), db')"
  obtains g u pr where "grant_by_id db (t_grant t) = Some g"
    "still_may_connect cfg now g (t_user t) (t_user_epoch t) db = Some u"
    "pr_scopes pr = narrow_scope cfg (asked_scope scope t)
       (may_write cfg (break_glasses db) now (Some u) (Some g) \<and> write_enablement_covers g (Some (family_started t)))"
    "pr_family_id pr = t_family_id t" "pr_started_at pr = family_started t"
    "is_pair (next_id db) (access_of cfg cr now (successor_pair cfg cr raw) pr (next_id db))
       (refresh_of cfg cr now (successor_pair cfg cr raw) pr (Suc (next_id db)))"
    "tokens db' = tokens (rotate_token (t_id t) now (Suc (next_id db))
       (add_pair (access_of cfg cr now (successor_pair cfg cr raw) pr (next_id db))
         (refresh_of cfg cr now (successor_pair cfg cr raw) pr (Suc (next_id db))) db))"
    "issued = \<lparr>it_access_token = fst (successor_pair cfg cr raw), it_refresh_token = snd (successor_pair cfg cr raw),
      it_expires_in = access_token_seconds cfg, it_scope = pr_scopes pr, it_family_id = t_family_id t\<rparr>"
proof -
  obtain g u where g: "grant_by_id db (t_grant t) = Some g"
    and u: "still_may_connect cfg now g (t_user t) (t_user_epoch t) db = Some u"
    using assms by (auto simp: rotate_def refresh_refused_def split: option.splits)
  let ?pr = "\<lparr>pr_grant = g, pr_user = u, pr_client_id = t_client_id t,
      pr_scopes = narrow_scope cfg (asked_scope scope t) (may_write cfg (break_glasses db) now (Some u) (Some g) \<and>
        write_enablement_covers g (Some (family_started t))), pr_resource = t_resource t,
      pr_family_id = t_family_id t, pr_started_at = family_started t,
      pr_auth_method = (if t_auth_method t \<noteq> [] then t_auth_method t else am)\<rparr>"
  obtain j db1 e where p: "issue_pair cfg cr now (successor_pair cfg cr raw) ?pr db = (Inr (issued, j), db1)"
    and db': "db' = record_event TOKEN_REFRESHED True (Some (u_id u)) (Some (g_id g)) (web_context cid ip) e
       (rotate_token (t_id t) now j db1)"
    using assms g u by (auto simp: rotate_def rotate_token_def Let_def split: prod.splits sum.splits)
  note new = issue_pair_Inr [OF p]
  have "t_id (refresh_of cfg cr now (successor_pair cfg cr raw) ?pr (Suc (next_id db))) = Suc (next_id db)"
    by (simp add: refresh_of_def new_token_def)
  then show thesis using that [OF g u, of ?pr] new(1,2,3,5) db' by simp
qed

lemma rotate_success:
  assumes "rotate cfg cr now t raw cid scope ip am db = (Inr (Inr issued), db')"
  obtains g u a r where "grant_by_id db (t_grant t) = Some g"
    "still_may_connect cfg now g (t_user t) (t_user_epoch t) db = Some u"
    "it_scope issued = narrow_scope cfg (asked_scope scope t)
       (may_write cfg (break_glasses db) now (Some u) (Some g) \<and> write_enablement_covers g (Some (family_started t)))"
    "is_pair (next_id db) a r" "tokens db' = tokens (rotate_token (t_id t) now (t_id r) (add_pair a r db))"
    "t_digest r = digest cr (it_refresh_token issued)" "t_family_id r = t_family_id t"
    "family_started r = family_started t" "t_expires_at r \<le> family_ends_at cfg (family_started t)"
    "it_family_id issued = t_family_id t" "t_scopes r = it_scope issued"
proof (rule rotate_pair [OF assms])
  fix g u pr
  assume *: "grant_by_id db (t_grant t) = Some g"
    "still_may_connect cfg now g (t_user t) (t_user_epoch t) db = Some u"
    "pr_scopes pr = narrow_scope cfg (asked_scope scope t)
       (may_write cfg (break_glasses db) now (Some u) (Some g) \<and> write_enablement_covers g (Some (family_started t)))"
    "pr_family_id pr = t_family_id t" "pr_started_at pr = family_started t"
    "is_pair (next_id db) (access_of cfg cr now (successor_pair cfg cr raw) pr (next_id db))
       (refresh_of cfg cr now (successor_pair cfg cr raw) pr (Suc (next_id db)))"
    "tokens db' = tokens (rotate_token (t_id t) now (Suc (next_id db))
       (add_pair (access_of cfg cr now (successor_pair cfg cr raw) pr (next_id db))
         (refresh_of cfg cr now (successor_pair cfg cr raw) pr (Suc (next_id db))) db))"
    "issued = \<lparr>it_access_token = fst (successor_pair cfg cr raw), it_refresh_token = snd (successor_pair cfg cr raw),
      it_expires_in = access_token_seconds cfg, it_scope = pr_scopes pr, it_family_id = t_family_id t\<rparr>"
  show thesis
    by (rule that [OF *(1,2) _ *(6)])
      (use * in \<open>simp_all add: refresh_of_def new_token_def family_started_def\<close>)
qed

lemma refresh_success:
  assumes "refresh cfg cr now cid raw resource scope ip am db = (Inr (Inr issued), db')"
  obtains t where "opaque_digest cr raw = Some (t_digest t)" "t \<in> set (tokens db)" "t_kind t = Refresh"
      "same (t_client_id t) cid" "t_replaced_by t \<noteq> None" "retried_rotation cfg cr now t raw db = Some issued"
      "tokens db' = tokens db"
  | t where "opaque_digest cr raw = Some (t_digest t)" "t \<in> set (tokens db)" "t_kind t = Refresh"
      "same (t_client_id t) cid" "t_replaced_by t = None" "t_revoked_at t = None" "now < t_expires_at t"
      "now < family_ends_at cfg (family_started t)" "requested_problem cfg am resource scope t = None"
      "rotate cfg cr now t raw cid scope ip am db = (Inr (Inr issued), db')"
proof -
  obtain d' t where d': "opaque_digest cr raw = Some d'"
    and mem': "first_where (\<lambda>s. t_digest s = d' \<and> t_kind s = Refresh) (tokens db) = Some t"
    and cl: "same (t_client_id t) cid"
    using assms by (auto simp: refresh_def atomic_return refresh_refused_def split: option.splits if_splits)
  have "d' = t_digest t" using mem' by auto
  note d = d' [unfolded this] and mem = mem' [unfolded this]
  have t: "t \<in> set (tokens db)" "t_kind t = Refresh" using mem by auto
  show thesis
  proof (cases "t_replaced_by t")
    case None
    then have "refresh_live cfg cr now t raw cid resource scope ip am db = (Inr (Inr issued), db')"
      using assms d mem cl by (simp add: refresh_def atomic_return)
    then show thesis
      using that(2) [OF d t cl None] by (auto simp: refresh_live_def refresh_refused_def split: if_splits option.splits)
  next
    case (Some j)
    then show thesis
      using assms d mem cl t that(1) [OF d t cl]
      by (auto simp: refresh_def atomic_return reuse_detected_def Let_def split: option.splits prod.splits)
  qed
qed

text \<open>What a rotation leaves behind, and what holding the old token then means.\<close>

lemma rotation_rows:
  assumes inv: "access_inv db" and t: "t \<in> set (tokens db)" "t_revoked_at t = None" "t_kind t = Refresh"
    and out: "rotate cfg cr now t raw cid scope ip am db = (Inr (Inr issued), db')"
  obtains t' r where "t' \<in> set (tokens db')" "token_core t' = token_core t" "t_replaced_by t' = Some (t_id r)"
    "t_revoked_at t' = Some now" "r \<in> set (tokens db')" "t_kind r = Refresh" "t_revoked_at r = None"
    "t_replaced_by r = None"
    "t_digest r = digest cr (it_refresh_token issued)" "t_family_id r = t_family_id t"
proof -
  obtain a r where pair: "is_pair (next_id db) a r"
    and toks: "tokens db' = tokens (rotate_token (t_id t) now (t_id r) (add_pair a r db))"
    and r: "t_digest r = digest cr (it_refresh_token issued)" "t_family_id r = t_family_id t"
    using rotate_success [OF out] by metis
  let ?t = "t\<lparr>t_replaced_by := Some (t_id r), t_revoked_at := Some now, t_revoke_reason := ''rotated'',
                 t_last_used_at := Some now\<rparr>"
  have "t_id t < next_id db" using inv t(1) by (auto simp: access_inv_def tokens_ok_def token_ok_def)
  then have "t_id r \<noteq> t_id t" using pair by (auto simp: is_pair_def)
  then have "?t \<in> set (tokens db')" "r \<in> set (tokens db')"
    unfolding toks rotate_token_tokens using t(1) by (auto simp: add_pair_def in_update_where)
  then show thesis using that [of ?t r] r pair by (simp add: is_pair_def)
qed

lemma twice_rotated:
  assumes inv: "access_inv db" and t: "t \<in> set (tokens db)" "t_kind t = Refresh" "t_replaced_by t = Some (t_id s)"
    and s: "s \<in> set (tokens db)" "t_replaced_by s \<noteq> None"
    and d: "opaque_digest cr raw = Some (t_digest t)" and cl: "same (t_client_id t) cid"
    and out: "refresh cfg cr now cid raw resource scope ip am db = (res, db')"
  shows "res = Inr (Inl InvalidGrant) \<and>
    (\<forall>u \<in> set (tokens db'). t_family_id u = t_family_id t \<longrightarrow> t_revoked_at u \<noteq> None)"
proof -
  have "retried_rotation cfg cr now t raw db = None"
    using token_by_member [OF inv s(1)] s(2) t(3) by (simp add: retried_rotation_def split: option.split)
  then show ?thesis
    using out t cl refresh_token_row [OF inv t(1,2)]
    by (auto simp: refresh_def d atomic_def reuse_detected_def end_family_def split_beta dest: family_revoked)
qed

lemma successor_replaced:
  assumes inv: "access_inv db" and r: "r \<in> set (tokens db)" "t_digest r = digest cr raw"
    and out: "refresh cfg cr now cid raw resource scope ip am (foldl (access_step cr) db later) = (Inr (Inr issued), db')"
  obtains s where "s \<in> set (tokens db')" "t_id s = t_id r" "t_replaced_by s \<noteq> None"
proof -
  let ?mid = "foldl (access_step cr) db later"
  have inv': "access_inv ?mid" by (rule reaches_inv [OF run_reaches [OF inv] inv])
  obtain r' where r': "r' \<in> set (tokens ?mid)" "token_core r' = token_core r"
    using reaches_token_core [OF run_reaches [OF inv] r(1)] by blast
  have only: "s = r'" if "s \<in> set (tokens ?mid)" "opaque_digest cr raw = Some (t_digest s)" for s
  proof -
    have "t_digest s = t_digest r'" using that r(2) r'(2) by (simp add: opaque_digest_Some token_core_def)
    then show ?thesis using inv' that(1) r'(1) by (auto simp: access_inv_def tokens_ok_def dest: unique_onD)
  qed
  show thesis
  proof (cases rule: refresh_success [OF out])
    case (1 t)
    then show ?thesis using only [OF 1(2,1)] that [of r'] r'(2) by (simp add: token_core_def)
  next
    case (2 t)
    then obtain t' where "t' \<in> set (tokens db')" "token_core t' = token_core t" "t_replaced_by t' \<noteq> None"
      using rotation_rows [OF inv' 2(2,6,3,10)] by (metis option.discI)
    then show ?thesis using only [OF 2(2,1)] that [of t'] r'(2) by (simp add: token_core_def)
  qed
qed

text \<open>C15: reuse of a refresh token that was rotated twice ends its family.\<close>

theorem refresh_reuse_ends_family:
  assumes fresh: "\<forall>t \<in> set (tokens (history cr ops)). t_digest t = digest cr raw \<longrightarrow> t_replaced_by t = None"
    and first: "refresh cfg1 cr now1 cid raw resource1 scope1 ip1 am1 (history cr ops) = (Inr (Inr issued1), db1)"
    and second: "refresh cfg2 cr now2 cid2 (it_refresh_token issued1) resource2 scope2 ip2 am2
        (foldl (access_step cr) db1 later1) = (Inr (Inr issued2), db2)"
    and third: "refresh cfg3 cr now3 cid raw resource3 scope3 ip3 am3 (foldl (access_step cr) db2 later2) = (res, db3)"
  shows "res = Inr (Inl InvalidGrant) \<and>
    (\<forall>t \<in> set (tokens db3). t_family_id t = it_family_id issued1 \<longrightarrow> t_revoked_at t \<noteq> None)"
proof -
  let ?db0 = "history cr ops" and ?mid = "foldl (access_step cr) db1 later1" and ?fin = "foldl (access_step cr) db2 later2"
  have inv0: "access_inv ?db0" by (rule history_inv)
  have r1: "reaches ?db0 db1"
    using refresh_reaches [OF inv0, of cfg1 cr now1 cid raw resource1 scope1 ip1 am1] first by simp
  note inv1 = reaches_inv [OF r1 inv0]
  note inv_mid = reaches_inv [OF run_reaches [OF inv1] inv1, of cr later1]
  have r2: "reaches ?mid db2"
    using refresh_reaches [OF inv_mid, of cfg2 cr now2 cid2 "it_refresh_token issued1" resource2 scope2 ip2 am2] second
    by simp
  note inv2 = reaches_inv [OF r2 inv_mid]
  note kept1 = reaches_kept(1) [OF run_reaches [OF inv1] inv1, of _ cr later1]
  note kept2 = reaches_kept(1) [OF r2 inv_mid]
  note kept3 = reaches_kept(1) [OF run_reaches [OF inv2] inv2, of _ cr later2]
  obtain t where t: "opaque_digest cr raw = Some (t_digest t)" "t \<in> set (tokens ?db0)" "t_kind t = Refresh"
      "same (t_client_id t) cid" "t_revoked_at t = None"
    and rot: "rotate cfg1 cr now1 t raw cid scope1 ip1 am1 ?db0 = (Inr (Inr issued1), db1)"
  proof (cases rule: refresh_success [OF first])
    case (1 t)
    then show thesis using fresh by (auto simp: opaque_digest_Some)
  next
    case (2 t)
    then show thesis using that by blast
  qed
  obtain t' r where t': "t' \<in> set (tokens db1)" "token_core t' = token_core t" "t_replaced_by t' = Some (t_id r)"
      "t_revoked_at t' \<noteq> None"
    and r: "r \<in> set (tokens db1)" "t_digest r = digest cr (it_refresh_token issued1)"
    using rotation_rows [OF inv0 t(2,5,3) rot] by (metis option.discI)
  have fam: "it_family_id issued1 = t_family_id t" using rotate_success [OF rot] by metis
  obtain s where s: "s \<in> set (tokens db2)" "t_id s = t_id r" "t_replaced_by s \<noteq> None"
    by (rule successor_replaced [OF inv1 r(1,2) second])
  then have "t_revoked_at s \<noteq> None"
    using inv2 by (auto simp: access_inv_def tokens_ok_def token_ok_def)
  then have "s \<in> set (tokens ?fin)" using kept3 s(1) by blast
  moreover have "t' \<in> set (tokens ?fin)" using kept1 kept2 kept3 t'(1,4) by blast
  ultimately show ?thesis
    using twice_rotated [OF reaches_inv [OF run_reaches [OF inv2] inv2], where t = t' and s = s and cr = cr and raw = raw and cid = cid] s t' t third fam
    by (auto simp: token_core_def)
qed

theorem refresh_reuse_ends_family_witness:
  "fst (example_refresh (seconds 2300) raw_R example_refreshed_twice) = Inr (Inl InvalidGrant)"
proof -
  have fresh: "\<forall>t \<in> set (tokens (history example_crypto (take 6 example_ops))).
      t_digest t = digest example_crypto raw_R \<longrightarrow> t_replaced_by t = None"
    using example_fresh by (auto simp: example_after_def)
  obtain i where "issued_of (example_refresh (seconds 2200) second_refresh_token example_refreshed) = Some i"
    using example_refresh_runs(2) by (cases "issued_of (example_refresh (seconds 2200) second_refresh_token example_refreshed)") auto
  from issued_of_Some [OF this] have "refresh example_settings example_crypto (seconds 2200) ''cl''
      (it_refresh_token (example_pair (fst (successor_pair example_settings example_crypto raw_R)) second_refresh_token))
      ''https://m.ee/'' [] None ''none'' (foldl (access_step example_crypto) example_refreshed []) =
      (Inr (Inr i), example_refreshed_twice)"
    by (simp add: example_refresh_def example_refreshed_twice_def example_pair_def)
  from refresh_reuse_ends_family [OF fresh example_first_refresh this, of example_settings "seconds 2300" "''https://m.ee/''"
      "[]" None "''none''" "[]", OF surjective_pairing]
  show ?thesis by (simp add: example_refresh_def)
qed

section \<open>Scopes\<close>

lemma narrow_scope_words:
  assumes "is_word (read_scope_name cfg)" and "is_word (write_scope_name cfg)"
  shows "words (narrow_scope cfg req ok) =
    read_scope_name cfg # (if ok \<and> write_scope_name cfg \<in> scope_words req then [write_scope_name cfg] else [])"
  using words_join [of "[read_scope_name cfg]"] words_join [of "[read_scope_name cfg, write_scope_name cfg]"] assms
  by (simp add: narrow_scope_def Let_def scope_words_def)

lemma asked_scope_words:
  "scope_words (asked_scope scope t) = (if words scope \<noteq> [] then scope_words scope else scope_set t)"
proof -
  have "list_all is_word (sort (remdups (words s)))" for s by (auto simp: list_all_iff)
  then show ?thesis by (simp add: asked_scope_def scope_words_def scope_set_def words_join)
qed

lemma still_connects:
  "still_may_connect cfg now g uid epoch db = Some u \<Longrightarrow> user_by_id db uid = Some u \<and> u_epoch u = epoch \<and>
     may_connect cfg (break_glasses db) now (Some u) (Some g)"
  using still_may_connect_Some by blast

text \<open>C16: exchanging a code needs everything at once.\<close>

theorem exchange_sound:
  assumes names: "is_word (read_scope_name cfg)" "is_word (write_scope_name cfg)"
      "read_scope_name cfg \<noteq> write_scope_name cfg"
    and out: "exchange_code cfg cr now raws cid code uri verifier resource ip am db = (Inr (Inr issued), db')"
  shows "\<exists>c \<in> set (codes db). \<exists>g u. c_digest c = digest cr code \<and> is_opaque code
    \<and> c_used_at c = None \<and> now < c_expires_at c \<and> same (c_client_id c) cid \<and> c_redirect_uri c = uri
    \<and> pkce_matches cr verifier (c_code_challenge c)
    \<and> normalise_resource resource = c_resource c \<and> resource_is_allowed cfg (c_resource c)
    \<and> grant_by_id db (c_grant c) = Some g \<and> user_by_id db (c_user c) = Some u \<and> u_epoch u = c_user_epoch c
    \<and> may_connect cfg (break_glasses db) now (Some u) (Some g)
    \<and> scope_words (it_scope issued) \<subseteq> insert (read_scope_name cfg) (scope_words (c_scope c))
    \<and> (write_scope_name cfg \<in> scope_words (it_scope issued) \<longrightarrow>
         may_write cfg (break_glasses db) now (Some u) (Some g) \<and> write_enablement_covers g (Some (c_created_at c)))"
proof -
  obtain d c g u where *: "opaque_digest cr code = Some d" "first_where (\<lambda>c. c_digest c = d) (codes db) = Some c"
    "c_used_at c = None" "code_problem cfg cr now cid uri verifier resource c = None"
    "grant_by_id db (c_grant c) = Some g" "still_may_connect cfg now g (c_user c) (c_user_epoch c) db = Some u"
    "it_scope issued = narrow_scope cfg (c_scope c) (may_write cfg (break_glasses db) now (Some u) (Some g) \<and>
        write_enablement_covers g (Some (c_created_at c)))"
    by (rule exchange_success [OF out])
  have "c \<in> set (codes db)" "c_digest c = d" using *(2) by auto
  moreover have "now < c_expires_at c \<and> same (c_client_id c) cid \<and> c_redirect_uri c = uri \<and>
      pkce_matches cr verifier (c_code_challenge c) \<and> normalise_resource resource = c_resource c \<and>
      resource_is_allowed cfg (c_resource c)"
    using *(4) by (auto simp: code_problem_def split: if_splits)
  moreover have "scope_words (it_scope issued) \<subseteq> insert (read_scope_name cfg) (scope_words (c_scope c))
    \<and> (write_scope_name cfg \<in> scope_words (it_scope issued) \<longrightarrow>
         may_write cfg (break_glasses db) now (Some u) (Some g) \<and> write_enablement_covers g (Some (c_created_at c)))"
    using names unfolding *(7) scope_words_def narrow_scope_words [OF names(1,2)] by auto
  ultimately show ?thesis using * still_connects [OF *(6)] by (auto simp: opaque_digest_Some)
qed

theorem exchange_sound_witness:
  "\<exists>c \<in> set (codes (example_after 5)). c_used_at c = None \<and> c_redirect_uri c = ''https://c.ee/cb''"
  using exchange_sound [OF example_words example_first_exchange] by (auto simp: example_after_def)

lemma family_started_stamps [simp]:
  "family_started (t\<lparr>t_replaced_by := j, t_revoked_at := a, t_revoke_reason := r, t_last_used_at := b\<rparr>)
     = family_started t"
  by (simp add: family_started_def split: option.split)

text \<open>Refreshing never widens a connection and never prolongs it past its end.\<close>

theorem refresh_never_wider:
  assumes names: "is_word (read_scope_name cfg)" "is_word (write_scope_name cfg)"
      "read_scope_name cfg \<noteq> write_scope_name cfg"
    and out: "refresh cfg cr now cid raw resource scope ip am db = (Inr (Inr issued), db')"
    and fresh: "\<forall>t \<in> set (tokens db). t_digest t = digest cr raw \<longrightarrow> t_replaced_by t = None"
  shows "\<exists>t \<in> set (tokens db). \<exists>g u. t_digest t = digest cr raw \<and> t_kind t = Refresh
    \<and> same (t_client_id t) cid \<and> t_revoked_at t = None \<and> now < t_expires_at t
    \<and> now < family_ends_at cfg (family_started t)
    \<and> grant_by_id db (t_grant t) = Some g \<and> user_by_id db (t_user t) = Some u \<and> u_epoch u = t_user_epoch t
    \<and> may_connect cfg (break_glasses db) now (Some u) (Some g)
    \<and> scope_words (it_scope issued) \<subseteq> insert (read_scope_name cfg) (scope_set t)
    \<and> (write_scope_name cfg \<in> scope_words (it_scope issued) \<longrightarrow>
         may_write cfg (break_glasses db) now (Some u) (Some g) \<and> write_enablement_covers g (Some (family_started t)))
    \<and> (\<exists>r \<in> set (tokens db'). t_digest r = digest cr (it_refresh_token issued) \<and> t_family_id r = t_family_id t
         \<and> family_started r = family_started t \<and> t_expires_at r \<le> family_ends_at cfg (family_started t)
         \<and> t_scopes r = it_scope issued)"
proof (cases rule: refresh_success [OF out])
  case (1 t)
  then show ?thesis using fresh by (auto simp: opaque_digest_Some)
next
  case (2 t)
  obtain g u a r where *: "grant_by_id db (t_grant t) = Some g"
    "still_may_connect cfg now g (t_user t) (t_user_epoch t) db = Some u"
    "it_scope issued = narrow_scope cfg (asked_scope scope t)
       (may_write cfg (break_glasses db) now (Some u) (Some g) \<and> write_enablement_covers g (Some (family_started t)))"
    "is_pair (next_id db) a r" "tokens db' = tokens (rotate_token (t_id t) now (t_id r) (add_pair a r db))"
    "t_digest r = digest cr (it_refresh_token issued)" "t_family_id r = t_family_id t"
    "family_started r = family_started t" "t_expires_at r \<le> family_ends_at cfg (family_started t)"
    "t_scopes r = it_scope issued"
    using rotate_success [OF 2(10)] by metis
  have "scope_words (asked_scope scope t) \<subseteq> scope_set t"
    using 2(9) unfolding asked_scope_words by (auto simp: requested_problem_def split: if_splits)
  then have sc: "scope_words (it_scope issued) \<subseteq> insert (read_scope_name cfg) (scope_set t)
    \<and> (write_scope_name cfg \<in> scope_words (it_scope issued) \<longrightarrow>
         may_write cfg (break_glasses db) now (Some u) (Some g) \<and> write_enablement_covers g (Some (family_started t)))"
    using names unfolding *(3) scope_words_def narrow_scope_words [OF names(1,2)]
    by (auto simp: scope_words_def [symmetric])
  let ?r = "if t_id r = t_id t then r\<lparr>t_replaced_by := Some (t_id r), t_revoked_at := Some now,
      t_revoke_reason := ''rotated'', t_last_used_at := Some now\<rparr> else r"
  have "?r \<in> set (tokens db')" unfolding *(5) rotate_token_tokens in_update_where by (auto simp: add_pair_def)
  moreover have "token_core ?r = token_core r" by simp
  ultimately have "\<exists>r' \<in> set (tokens db'). t_digest r' = digest cr (it_refresh_token issued) \<and>
      t_family_id r' = t_family_id t \<and> family_started r' = family_started t \<and>
      t_expires_at r' \<le> family_ends_at cfg (family_started t) \<and> t_scopes r' = it_scope issued"
    using *(6-10) by (intro bexI [of _ ?r]) (auto simp: token_core_def)
  with sc show ?thesis using 2 * still_connects [OF *(2)] by (intro bexI [of _ t] exI [of _ g] exI [of _ u]) (auto simp: opaque_digest_Some)
qed

theorem refresh_never_wider_witness:
  "\<exists>r \<in> set (tokens example_refreshed). t_digest r = digest example_crypto second_refresh_token"
proof -
  have "\<forall>t \<in> set (tokens (history example_crypto (take 6 example_ops))).
      t_digest t = digest example_crypto raw_R \<longrightarrow> t_replaced_by t = None"
    using example_fresh by (auto simp: example_after_def)
  from refresh_never_wider [OF example_words example_first_refresh this]
  show ?thesis by (auto simp: example_pair_def)
qed

section \<open>Retrying a rotation\<close>

lemma retry_answers_pair:
  assumes inv: "access_inv db" and t: "t \<in> set (tokens db)" "t_revoked_at t = Some at" "t_replaced_by t = Some (t_id r)"
      "t_kind t = Refresh" "opaque_digest cr raw = Some (t_digest t)" "same (t_client_id t) cid"
    and r: "r \<in> set (tokens db)" "t_replaced_by r = None" "t_revoked_at r = None" "now < t_expires_at r"
      "t_digest r = digest cr (snd (successor_pair cfg cr raw))"
    and a: "a \<in> set (tokens db)" "t_kind a = Access" "t_revoked_at a = None" "now < t_expires_at a"
      "t_family_id a = t_family_id t" "t_digest a = digest cr (fst (successor_pair cfg cr raw))"
    and grace: "now - at \<le> seconds (refresh_grace_seconds cfg)"
  shows "\<exists>issued db'. refresh cfg cr now cid raw resource scope ip am db = (Inr (Inr issued), db')
    \<and> it_access_token issued = fst (successor_pair cfg cr raw)
    \<and> it_refresh_token issued = snd (successor_pair cfg cr raw)
    \<and> it_scope issued = t_scopes r \<and> tokens db' = tokens db"
proof -
  have row: "first_where (\<lambda>b. t_digest b = t_digest a \<and> t_kind b = Access \<and> t_family_id b = t_family_id t \<and>
      t_revoked_at b = None) (tokens db) = Some a" (is "?f = _")
  proof (cases ?f)
    case None
    then show ?thesis using a by (auto simp: first_where_None)
  next
    case (Some b)
    then have "b \<in> set (tokens db)" "t_digest b = t_digest a" by auto
    then have "b = a" using inv a(1) by (auto simp: access_inv_def tokens_ok_def dest: unique_onD)
    then show ?thesis using Some by simp
  qed
  obtain x y where xy: "successor_pair cfg cr raw = (x, y)" by fastforce
  have "token_by_id db (t_id r) = Some r" using inv r(1) by (rule token_by_member)
  then have "\<exists>e. retried_rotation cfg cr now t raw db = Some \<lparr>it_access_token = x, it_refresh_token = y,
      it_expires_in = e, it_scope = t_scopes r, it_family_id = t_family_id t\<rparr>"
    using t r a grace row by (simp add: retried_rotation_def xy)
  then show ?thesis
    using t refresh_token_row [OF inv t(1,4)] by (auto simp: refresh_def atomic_return xy)
qed

text \<open>Within the grace period a refresh that is sent again is answered with the same pair.\<close>

theorem retried_refresh_same_answer:
  assumes first: "refresh cfg cr now cid raw resource scope ip am (history cr ops) = (Inr (Inr issued), db1)"
    and fresh: "\<forall>t \<in> set (tokens (history cr ops)). t_digest t = digest cr raw \<longrightarrow> t_replaced_by t = None
        \<and> now' < family_ends_at cfg (family_started t)"
    and soon: "now' - now \<le> seconds (refresh_grace_seconds cfg)" "now' < now + seconds (access_token_seconds cfg)"
      "now' < now + seconds (refresh_token_seconds cfg)"
  shows "\<exists>again db2. refresh cfg cr now' cid raw resource' scope' ip' am' db1 = (Inr (Inr again), db2)
    \<and> it_access_token again = it_access_token issued \<and> it_refresh_token again = it_refresh_token issued
    \<and> it_scope again = it_scope issued \<and> tokens db2 = tokens db1"
proof -
  let ?db = "history cr ops" and ?sp = "successor_pair cfg cr raw"
  have inv: "access_inv ?db" by (rule history_inv)
  have inv1: "access_inv db1"
    using reaches_inv [OF refresh_reaches [OF inv, of cfg cr now cid raw resource scope ip am] inv] first by simp
  obtain t where t: "opaque_digest cr raw = Some (t_digest t)" "t \<in> set (tokens ?db)" "t_kind t = Refresh"
      "same (t_client_id t) cid"
    and rot: "rotate cfg cr now t raw cid scope ip am ?db = (Inr (Inr issued), db1)"
  proof (cases rule: refresh_success [OF first])
    case (1 t)
    then show thesis using fresh by (auto simp: opaque_digest_Some)
  qed blast
  then have ends: "now' < family_ends_at cfg (family_started t)" using fresh by (auto simp: opaque_digest_Some)
  show ?thesis
  proof (rule rotate_pair [OF rot])
    fix g u pr
    let ?a = "access_of cfg cr now ?sp pr (next_id ?db)" and ?r = "refresh_of cfg cr now ?sp pr (Suc (next_id ?db))"
    let ?t = "t\<lparr>t_replaced_by := Some (t_id ?r), t_revoked_at := Some now, t_revoke_reason := ''rotated'',
                 t_last_used_at := Some now\<rparr>"
    assume pr: "pr_family_id pr = t_family_id t" "pr_started_at pr = family_started t"
      and pair: "is_pair (next_id ?db) ?a ?r"
      and toks: "tokens db1 = tokens (rotate_token (t_id t) now (Suc (next_id ?db)) (add_pair ?a ?r ?db))"
      and issued: "issued = \<lparr>it_access_token = fst ?sp, it_refresh_token = snd ?sp,
        it_expires_in = access_token_seconds cfg, it_scope = pr_scopes pr, it_family_id = t_family_id t\<rparr>"
    have "t_id t < next_id ?db" using inv t(2) by (auto simp: access_inv_def tokens_ok_def token_ok_def)
    then have rows: "?t \<in> set (tokens db1)" "?a \<in> set (tokens db1)" "?r \<in> set (tokens db1)"
      unfolding toks rotate_token_tokens using t(2) pair by (auto simp: add_pair_def in_update_where is_pair_def)
    have "\<exists>again db2. refresh cfg cr now' cid raw resource' scope' ip' am' db1 = (Inr (Inr again), db2)
      \<and> it_access_token again = fst ?sp \<and> it_refresh_token again = snd ?sp
      \<and> it_scope again = t_scopes ?r \<and> tokens db2 = tokens db1"
      by (rule retry_answers_pair [OF inv1 rows(1) _ _ _ _ _ rows(3) _ _ _ _ rows(2)])
        (use t soon ends pr in \<open>simp_all add: access_of_def refresh_of_def new_token_def\<close>)
    then show ?thesis by (simp add: issued refresh_of_def new_token_def)
  qed
qed

theorem retried_refresh_same_answer_witness:
  "map_option it_refresh_token (issued_of (example_refresh (seconds 2110) raw_R example_refreshed)) =
     Some second_refresh_token"
proof -
  have fresh: "\<forall>t \<in> set (tokens (history example_crypto (take 6 example_ops))).
      t_digest t = digest example_crypto raw_R \<longrightarrow> t_replaced_by t = None
        \<and> seconds 2110 < family_ends_at example_settings (family_started t)"
    using example_fresh by (auto simp: example_after_def)
  have "seconds 2110 - seconds 2100 \<le> seconds (refresh_grace_seconds example_settings)"
    "seconds 2110 < seconds 2100 + seconds (access_token_seconds example_settings)"
    "seconds 2110 < seconds 2100 + seconds (refresh_token_seconds example_settings)"
    by code_simp+
  from retried_refresh_same_answer [OF example_first_refresh fresh this, of "''https://m.ee/''" "[]" None "''none''"]
  show ?thesis by (auto simp: example_refresh_def example_pair_def)
qed

end
