(* ===== verification/RevocationProperties.thy ===== *)
theory RevocationProperties
  imports TokenProperties
begin

text \<open>
  What is asked of a token at every request, and what the operators' revocations do to it:
  a token is honoured only while its grant, its account and its session epoch still hold; a
  revoked grant, the kill switch and the end of the decision to write take effect at once and
  for good.
\<close>

section \<open>Verification and revocation\<close>

text \<open>The rows a verified token rests on.\<close>

lemma verify_success:
  assumes "verify_access_token cfg cr now raw db = Some va"
  obtains t g u where "is_enabled cfg" "t \<in> set (tokens db)" "g \<in> set (grants db)" "u \<in> set (users db)"
    "t_digest t = digest cr raw" "t_kind t = Access" "token_passes cfg now t" "g_id g = t_grant t" "u_id u = t_user t"
    "may_connect cfg (break_glasses db) now (Some u) (Some g)" "u_epoch u = t_user_epoch t"
    "va = \<lparr>va_token_id = t_id t, va_user_id = t_user t, va_grant_id = t_grant t,
       va_client_id = t_client_id t, va_scopes = scope_set t, va_resource = t_resource t,
       va_expires_at = t_expires_at t, va_family_id = Some (t_family_id t)\<rparr>"
proof -
  obtain d t where *: "is_enabled cfg" "opaque_digest cr raw = Some d"
    "first_where (\<lambda>t. t_digest t = d \<and> t_kind t = Access) (tokens db) = Some t" "token_passes cfg now t"
    "account_passes cfg (break_glasses db) now t (grant_by_id db (t_grant t)) (user_by_id db (t_user t))"
    and va: "va = \<lparr>va_token_id = t_id t, va_user_id = t_user t, va_grant_id = t_grant t,
                   va_client_id = t_client_id t, va_scopes = scope_set t,
                   va_resource = t_resource t, va_expires_at = t_expires_at t,
                   va_family_id = Some (t_family_id t)\<rparr>"
    using assms by (auto simp: verify_access_token_def split: if_splits option.splits)
  obtain g u where gu: "grant_by_id db (t_grant t) = Some g" "user_by_id db (t_user t) = Some u"
    "may_connect cfg (break_glasses db) now (Some u) (Some g)" "u_epoch u = t_user_epoch t"
    using *(5) by (auto simp: account_passes_def split: option.splits if_splits)
  have t: "t \<in> set (tokens db)" "t_digest t = digest cr raw" "t_kind t = Access"
    using *(2,3) by (auto simp: opaque_digest_Some)
  have "g \<in> set (grants db)" "g_id g = t_grant t" "u \<in> set (users db)" "u_id u = t_user t" using gu(1,2) by auto
  then show thesis using that * gu t va by simp
qed

text \<open>C17: an access token is honoured only while everything it rests on still holds.\<close>

theorem verified_token_sound:
  assumes "verify_access_token cfg cr now raw db = Some va"
  shows "is_enabled cfg \<and> (\<exists>t \<in> set (tokens db). \<exists>g \<in> set (grants db). \<exists>u \<in> set (users db).
      t_digest t = digest cr raw \<and> t_kind t = Access \<and> t_revoked_at t = None \<and> now < t_expires_at t
    \<and> resource_is_allowed cfg (t_resource t) \<and> read_scope_name cfg \<in> va_scopes va
    \<and> g_id g = t_grant t \<and> g_user g = t_user t \<and> u_id u = t_user t \<and> g_status g = Active
    \<and> u_active u \<and> may_read_business_content (break_glasses db) now (Person u)
    \<and> grant_refusal cfg (break_glasses db) now u = None \<and> u_epoch u = t_user_epoch t
    \<and> va_token_id va = t_id t \<and> va_grant_id va = g_id g \<and> va_user_id va = u_id u
    \<and> va_scopes va = scope_set t \<and> va_expires_at va = t_expires_at t)"
proof (rule verify_success [OF assms])
  fix t g u
  assume *: "is_enabled cfg" "t \<in> set (tokens db)" "g \<in> set (grants db)" "u \<in> set (users db)"
    "t_digest t = digest cr raw" "t_kind t = Access" "token_passes cfg now t" "g_id g = t_grant t" "u_id u = t_user t"
    "may_connect cfg (break_glasses db) now (Some u) (Some g)" "u_epoch u = t_user_epoch t"
    "va = \<lparr>va_token_id = t_id t, va_user_id = t_user t, va_grant_id = t_grant t,
       va_client_id = t_client_id t, va_scopes = scope_set t, va_resource = t_resource t,
       va_expires_at = t_expires_at t, va_family_id = Some (t_family_id t)\<rparr>"
  then show ?thesis
    by (intro conjI bexI [of _ t] bexI [of _ g] bexI [of _ u])
      (auto simp: token_passes_def may_connect_def split: if_splits)
qed

theorem verified_token_sound_witness:
  "\<exists>t \<in> set (tokens (example_after 6)). t_id t = 4 \<and> t_revoked_at t = None"
proof -
  have "map_option va_token_id (verify_access_token example_settings example_crypto (seconds 2050)
      (raw_of CHR ''A'') (example_after 6)) = Some 4" by code_simp
  then obtain va where "verify_access_token example_settings example_crypto (seconds 2050)
      (raw_of CHR ''A'') (example_after 6) = Some va" "va_token_id va = 4" by auto
  with verified_token_sound [OF this(1)] show ?thesis by fastforce
qed

lemma verified_grant:
  assumes "access_inv db" and "verify_access_token cfg cr now raw db = Some va"
  shows "\<not> grant_ended db (va_grant_id va)"
  proof (rule verify_success [OF assms(2)])
  fix t g u
  assume "g \<in> set (grants db)" "g_id g = t_grant t" "may_connect cfg (break_glasses db) now (Some u) (Some g)"
    "va = \<lparr>va_token_id = t_id t, va_user_id = t_user t, va_grant_id = t_grant t,
       va_client_id = t_client_id t, va_scopes = scope_set t, va_resource = t_resource t,
       va_expires_at = t_expires_at t, va_family_id = Some (t_family_id t)\<rparr>"
  then show ?thesis using same_grant [OF assms(1)]
    by (fastforce simp: grant_ended_def may_connect_def split: if_splits)
qed

text \<open>What has not ended rests on a grant that has not.\<close>

lemma live_rests_on_grant:
  assumes "access_inv db"
  shows "t \<in> set (tokens db) \<Longrightarrow> t_revoked_at t = None \<Longrightarrow>
      \<exists>g \<in> set (grants db). g_id g = t_grant t \<and> g_status g = Active"
    and "c \<in> set (codes db) \<Longrightarrow> c_used_at c = None \<Longrightarrow>
      \<exists>g \<in> set (grants db). g_id g = c_grant c \<and> g_status g = Active"
    and "l \<in> set (links db) \<Longrightarrow> link_live l \<Longrightarrow>
      \<exists>g \<in> set (grants db). g_id g = l_grant l \<and> g_status g = PendingEnrolment"
proof -
  assume "t \<in> set (tokens db)" "t_revoked_at t = None"
  with assms have "owned (grants db) (t_grant t) (t_user t) (\<lambda>s. s = Active)"
    by (auto simp: access_inv_def tokens_ok_def token_ok_def)
  then show "\<exists>g \<in> set (grants db). g_id g = t_grant t \<and> g_status g = Active" by (auto simp: owned_def)
next
  assume "c \<in> set (codes db)" "c_used_at c = None"
  with assms have "owned (grants db) (c_grant c) (c_user c) (\<lambda>s. s = Active)"
    by (auto simp: access_inv_def codes_ok_def code_ok_def)
  then show "\<exists>g \<in> set (grants db). g_id g = c_grant c \<and> g_status g = Active" by (auto simp: owned_def)
next
  assume "l \<in> set (links db)" "link_live l"
  with assms have "held (grants db) (l_grant l) (\<lambda>s. s = PendingEnrolment)"
    by (auto simp: access_inv_def links_ok_def)
  then show "\<exists>g \<in> set (grants db). g_id g = l_grant l \<and> g_status g = PendingEnrolment" by (auto simp: held_def)
qed

text \<open>C22: revoking a grant ends every token and code of it, for good.\<close>

theorem revoked_grant_never_verifies:
  assumes "revoke_grant now uid reason prov (history cr ops) = (Inr n, db1)"
  shows "\<exists>g \<in> set (grants (history cr ops)). g_user g = uid \<and> open_status g \<and>
    (\<forall>t \<in> set (tokens db1). t_grant t = g_id g \<longrightarrow> t_revoked_at t \<noteq> None) \<and>
    (\<forall>c \<in> set (codes db1). c_grant c = g_id g \<longrightarrow> c_used_at c \<noteq> None) \<and>
    (\<forall>later cfg now' raw va. verify_access_token cfg cr now' raw (foldl (access_step cr) db1 later) = Some va \<longrightarrow>
        va_grant_id va \<noteq> g_id g)"
proof -
  let ?db = "history cr ops"
  obtain g where g: "open_grant ?db uid = Some g"
    and db1: "\<exists>d. db1 = record_event GRANT_REVOKED True (Some uid) (Some (g_id g))
      (operator_context prov) d (snd (end_grant g reason now ?db))"
    using assms by (auto simp: revoke_grant_def atomic_return Let_def split_beta split: option.splits if_splits)
  have inv: "access_inv ?db" by (rule history_inv)
  have inv1: "access_inv db1"
    using reaches_inv [OF revoke_grant_reaches [of ?db now uid reason prov] inv] assms by simp
  have mem: "g \<in> set (grants ?db)" using g by auto
  have ended: "grant_ended db1 (g_id g)"
    using db1 mem by (auto simp: end_grant_simps grant_ended_def bex_update_where)
  then have dead: "\<not> (\<exists>h \<in> set (grants db1). g_id h = g_id g \<and> g_status h = Active)"
    using same_grant [OF inv1] by (fastforce simp: grant_ended_def)
  have "t_revoked_at t \<noteq> None" if "t \<in> set (tokens db1)" "t_grant t = g_id g" for t
    using live_rests_on_grant(1) [OF inv1 that(1)] that(2) dead by auto
  moreover have "c_used_at c \<noteq> None" if "c \<in> set (codes db1)" "c_grant c = g_id g" for c
    using live_rests_on_grant(2) [OF inv1 that(1)] that(2) dead by auto
  moreover have "va_grant_id va \<noteq> g_id g"
    if "verify_access_token cfg cr now' raw (foldl (access_step cr) db1 later) = Some va" for cfg now' raw later va
    using verified_grant [OF reaches_inv [OF run_reaches [OF inv1] inv1] that]
      ended_grants.final_forever [OF inv1 ended, of cr later] by auto
  ultimately show ?thesis using g mem by (intro bexI [of _ g]) auto
qed

theorem revoked_grant_never_verifies_witness:
  "\<exists>g \<in> set (grants (example_after 6)). g_user g = 1 \<and>
     filter (\<lambda>t. t_grant t = g_id g \<and> t_revoked_at t = None)
       (tokens (snd (revoke_grant (seconds 2300) 1 ''left'' ''op'' (example_after 6)))) = []"
proof -
  have "fst (revoke_grant (seconds 2300) 1 ''left'' ''op'' (example_after 6)) = Inr 2" by code_simp
  then have "revoke_grant (seconds 2300) 1 ''left'' ''op'' (history example_crypto (take 6 example_ops)) =
      (Inr 2, snd (revoke_grant (seconds 2300) 1 ''left'' ''op'' (example_after 6)))"
    by (simp add: example_after_def prod_eq_iff)
  from revoked_grant_never_verifies [OF this] show ?thesis by (fastforce simp: example_after_def filter_empty_conv)
qed

lemma end_grants_status:
  "end_grants gs reason prov now db = (n, db') \<Longrightarrow> h \<in> set (grants db') \<Longrightarrow>
     (g_id h \<in> g_id ` set gs \<longrightarrow> g_status h = Revoked) \<and>
     (\<exists>k \<in> set (grants db). g_id k = g_id h \<and> (g_status h = g_status k \<or> g_status h = Revoked))"
proof (induction gs arbitrary: db n)
  case (Cons g gs)
  obtain k db1 where k: "end_grant g reason now db = (k, db1)" by fastforce
  obtain m where m: "end_grants gs reason prov now (record_event GRANT_REVOKED True (Some (g_user g)) (Some (g_id g))
      (operator_context prov) [(''reason'', DText (take 300 reason)), (''tokens_revoked'', DInt (int k)),
        (''revoke_all'', DBool True)] db1) = (m, db')"
    using Cons.prems(1) k by (auto simp: Let_def split: prod.splits)
  have gs: "(g_id h \<in> g_id ` set gs \<longrightarrow> g_status h = Revoked) \<and>
     (\<exists>k \<in> set (grants db1). g_id k = g_id h \<and> (g_status h = g_status k \<or> g_status h = Revoked))"
    using Cons.IH [OF m Cons.prems(2)] by simp
  then obtain x where x: "x \<in> set (grants db1)" "g_id x = g_id h" "g_status h = g_status x \<or> g_status h = Revoked" by auto
  have db1: "grants db1 = update_where (\<lambda>h. g_id h = g_id g) (\<lambda>h. h\<lparr>g_status := Revoked, g_revoked_at := Some now,
      g_revoke_reason := take 300 reason\<rparr>) (grants db)"
    using arg_cong [OF k, of snd] by (auto simp: end_grant_simps)
  then obtain y where y: "y \<in> set (grants db)" "x = (if g_id y = g_id g then y\<lparr>g_status := Revoked,
      g_revoked_at := Some now, g_revoke_reason := take 300 reason\<rparr> else y)"
    using x(1) by (auto simp: in_update_where)
  then have "g_id y = g_id x" "g_id x = g_id g \<longrightarrow> g_status x = Revoked"
    "g_status x = g_status y \<or> g_status x = Revoked" by auto
  then show ?case using gs x y(1) by auto
qed auto

text \<open>The kill switch.\<close>

theorem revoke_all_ends_everything:
  assumes "revoke_all now reason prov (history cr ops) = (Inr n, db1)"
  shows "(\<forall>g \<in> set (grants db1). g_status g = Revoked) \<and> (\<forall>t \<in> set (tokens db1). t_revoked_at t \<noteq> None)
    \<and> (\<forall>c \<in> set (codes db1). c_used_at c \<noteq> None) \<and> (\<forall>l \<in> set (links db1). \<not> link_live l)
    \<and> verify_access_token cfg cr now' raw db1 = None"
proof -
  let ?db = "history cr ops" and ?gs = "filter open_status (grants (history cr ops))"
  have inv: "access_inv ?db" by (rule history_inv)
  have inv1: "access_inv db1"
    using reaches_inv [OF revoke_all_reaches [OF inv, of now reason prov] inv] assms by simp
  obtain m db0 where m: "end_grants ?gs reason prov now ?db = (m, db0)" "grants db1 = grants db0"
    using assms by (auto simp: revoke_all_def atomic_return Let_def revoke_tokens_def split: if_splits prod.splits)
  have all: "g_status g = Revoked" if g: "g \<in> set (grants db1)" for g
  proof -
    obtain k where "k \<in> set (grants ?db)" "g_id k = g_id g" "g_status g = g_status k \<or> g_status g = Revoked"
      using end_grants_status [OF m(1)] g m(2) by metis
    moreover have "g_id k \<in> g_id ` set ?gs" if "g_status k \<noteq> Revoked"
      using that \<open>k \<in> set (grants ?db)\<close> by (auto simp: open_status_def)
    ultimately show ?thesis
      using end_grants_status [OF m(1)] g m(2) by (cases "g_status k = Revoked") auto
  qed
  have "t_revoked_at t \<noteq> None" if "t \<in> set (tokens db1)" for t
    using live_rests_on_grant(1) [OF inv1 that] all by fastforce
  moreover have "c_used_at c \<noteq> None" if "c \<in> set (codes db1)" for c
    using live_rests_on_grant(2) [OF inv1 that] all by fastforce
  moreover have "\<not> link_live l" if "l \<in> set (links db1)" for l
    using live_rests_on_grant(3) [OF inv1 that] all by fastforce
  moreover have "verify_access_token cfg cr now' raw db1 = None"
  proof (cases "verify_access_token cfg cr now' raw db1")
    case (Some va)
    show ?thesis
      by (rule verify_success [OF Some]) (use all in \<open>auto simp: may_connect_def split: if_splits\<close>)
  qed
  ultimately show ?thesis using all by blast
qed

theorem revoke_all_ends_everything_witness:
  "list_all (\<lambda>t. t_revoked_at t \<noteq> None)
     (tokens (snd (revoke_all (seconds 2300) ''left'' ''op'' (example_after 6))))"
proof -
  have "fst (revoke_all (seconds 2300) ''left'' ''op'' (example_after 6)) = Inr (1, 2)" by code_simp
  then have "revoke_all (seconds 2300) ''left'' ''op'' (history example_crypto (take 6 example_ops)) =
      (Inr (1, 2), snd (revoke_all (seconds 2300) ''left'' ''op'' (example_after 6)))"
    by (simp add: example_after_def prod_eq_iff)
  from revoke_all_ends_everything [OF this] show ?thesis by (simp add: list_all_iff)
qed

section \<open>Writing\<close>

text \<open>C23: what \<open>writer_for\<close> needs, beyond what \<open>reader_for\<close> does.\<close>

theorem writer_sound:
  assumes "writer_for cfg now access db = Some u"
  shows "reader_for cfg now access db = Some u \<and> u_id u = va_user_id access \<and> mcp_writes_enabled cfg
    \<and> acting_role (Person u) \<in> set roles_with_business_write
    \<and> (\<exists>t \<in> set (tokens db). \<exists>g \<in> set (grants db). t_id t = va_token_id access \<and> g_id g = t_grant t
        \<and> g_user g = u_id u \<and> g_status g = Active \<and> t_revoked_at t = None \<and> now < t_expires_at t
        \<and> write_scope_name cfg \<in> scope_set t \<and> va_family_id access = Some (t_family_id t)
        \<and> g_write_revoked_at g = None \<and> (\<exists>enabled. g_write_enabled_at g = Some enabled \<and> enabled \<le> family_started t))"
proof -
  obtain t g where a: "afresh cfg now access db = Some (t, g, u)"
    and w: "Some (t_family_id t) = va_family_id access" "write_scope_name cfg \<in> scope_set t"
      "may_write cfg (break_glasses db) now (Some u) (Some g)" "write_enablement_covers g (Some (family_started t))"
    using assms by (auto simp: writer_for_def split: option.splits if_splits)
  have a2: "first_where (\<lambda>t. t_id t = va_token_id access \<and> t_kind t = Access) (tokens db) = Some t"
    "t_user t = va_user_id access" "t_grant t = va_grant_id access" "token_passes cfg now t"
    "grant_by_id db (va_grant_id access) = Some g" "user_by_id db (va_user_id access) = Some u"
    using a by (auto simp: afresh_def split: if_splits option.splits)
  have "t \<in> set (tokens db)" "t_id t = va_token_id access" "g \<in> set (grants db)" "g_id g = t_grant t" "u_id u = va_user_id access"
    using a2 by auto
  then show ?thesis
    using a a2(4) w
    by (intro conjI bexI [of _ t] bexI [of _ g])
      (auto simp: reader_for_def may_write_def may_connect_def write_is_enabled_def may_write_business_content_def
        write_enablement_covers_def token_passes_def split: if_splits option.splits)
qed

theorem writer_sound_witness:
  "\<exists>u. writer_for example_settings (seconds 2050) example_access (example_after 6) = Some u \<and>
       acting_role (Person u) \<in> set roles_with_business_write"
proof -
  have "map_option u_id (writer_for example_settings (seconds 2050) example_access (example_after 6)) = Some 1"
    by code_simp
  then obtain u where u: "writer_for example_settings (seconds 2050) example_access (example_after 6) = Some u" by auto
  with writer_sound [OF u] show ?thesis by blast
qed

definition ended_write :: "string \<Rightarrow> instant \<Rightarrow> grant \<Rightarrow> grant" where
  "ended_write reason now h = h\<lparr>g_write_revoked_at := Some now, g_write_revoke_reason := take 300 reason\<rparr>"

lemma end_write_frame [simp]:
  "tokens (end_write i reason now db) = tokens db" "users (end_write i reason now db) = users db"
  "break_glasses (end_write i reason now db) = break_glasses db"
  by (simp_all add: end_write_def)

lemma afresh_end_write:
  "afresh cfg now' access (record_event et ok eu eg x d (end_write i reason now db)) =
     map_option (\<lambda>(t, h, u). (t, if g_id h = i then ended_write reason now h else h, u)) (afresh cfg now' access db)"
proof -
  have g: "grant_by_id (record_event et ok eu eg x d (end_write i reason now db)) j =
      map_option (\<lambda>h. if g_id h = i then ended_write reason now h else h) (grant_by_id db j)" for j
    unfolding grant_by_id_def end_write_def save_grant_def ended_write_def record_event_frame
    by (simp add: first_where_update)
  have c: "account_passes cfg bgs now' t (Some (if g_id h = i then ended_write reason now h else h)) (Some u) =
      account_passes cfg bgs now' t (Some h) (Some u)" for bgs t h u
    by (simp add: account_passes_def may_connect_def ended_write_def)
  have e: "account_passes cfg bgs now' t (Some (ended_write reason now h)) (Some u) =
      account_passes cfg bgs now' t (Some h) (Some u)" for bgs t h u
    by (simp add: account_passes_def may_connect_def ended_write_def)
  have u: "user_by_id (record_event et ok eu eg x d (end_write i reason now db)) = user_by_id db"
    by (rule ext) (simp add: user_by_id_def end_write_def)
  show ?thesis
    by (auto simp: afresh_def g u c e split: option.splits)
qed

text \<open>Ending the write decision stops writing at once and leaves reading alone.\<close>

theorem revoke_write_stops_writing:
  assumes "revoke_write now uid reason prov (history cr ops) = (Inr (), db1)" and "va_user_id access = uid"
  shows "writer_for cfg now' access db1 = None
    \<and> reader_for cfg now' access db1 = reader_for cfg now' access (history cr ops)"
proof -
  let ?db = "history cr ops"
  obtain g where g: "open_grant ?db uid = Some g"
    and db1: "\<exists>d. db1 = record_event WRITE_REVOKED True (Some uid) (Some (g_id g)) (operator_context prov) d
      (end_write (g_id g) reason now ?db)"
    using assms(1) by (auto simp: revoke_write_def atomic_return split: option.splits if_splits)
  have inv: "access_inv ?db" by (rule history_inv)
  have same: "afresh cfg now' access db1 = map_option (\<lambda>(t, h, u). (t, if g_id h = g_id g then ended_write reason now h else h, u))
      (afresh cfg now' access ?db)"
    using db1 by (auto simp: afresh_end_write)
  have "writer_for cfg now' access db1 = None"
  proof (cases "afresh cfg now' access ?db")
    case None
    then show ?thesis using same by (simp add: writer_for_def)
  next
    case (Some tgu)
    then obtain t h u where tgu: "tgu = (t, h, u)" "h \<in> set (grants ?db)" "g_user h = uid" "g_status h = Active"
      using assms(2) by (cases tgu)
        (auto simp: afresh_def account_passes_def may_connect_def split: if_splits option.splits)
    have "h = g"
      using inv g tgu by (auto simp: access_inv_def grants_ok_def open_status_def dest: unique_whenD)
    then show ?thesis
      using Some same tgu by (simp add: writer_for_def may_write_def write_is_enabled_def ended_write_def)
  qed
  moreover have "reader_for cfg now' access db1 = reader_for cfg now' access ?db"
    unfolding reader_for_def same by (cases "afresh cfg now' access ?db") (auto split: prod.split)
  ultimately show ?thesis by blast
qed

theorem revoke_write_stops_writing_witness:
  "writer_for example_settings (seconds 2400) example_access
     (snd (revoke_write (seconds 2300) 1 ''left'' ''op'' (example_after 6))) = None"
proof -
  have "fst (revoke_write (seconds 2300) 1 ''left'' ''op'' (example_after 6)) = Inr ()" by code_simp
  then have r: "revoke_write (seconds 2300) 1 ''left'' ''op'' (history example_crypto (take 6 example_ops)) =
      (Inr (), snd (revoke_write (seconds 2300) 1 ''left'' ''op'' (example_after 6)))"
    by (simp add: example_after_def prod_eq_iff)
  have "va_user_id example_access = 1" by (simp add: example_access_def)
  from revoke_write_stops_writing [OF r this] show ?thesis by blast
qed

end
