(* ===== verification/RequestProperties.thy ===== *)
theory RequestProperties
  imports TokenProperties
begin

text \<open>
  Reading OAuth requests and the machine endpoints: errors go to registered addresses only, a
  request that is let through is well formed, a client assertion is accepted once, the endpoints
  do to the tables what one operation of the services does, and the rate limit holds.
\<close>

section \<open>Reading an authorization request\<close>

lemma client_registered: "client cfg i = Some cl \<Longrightarrow> oc_client_id cl = i"
  by (rule client_id)

lemma granted_scope_words:
  assumes "is_word (read_scope_name cfg)" "is_word (write_scope_name cfg)" and "granted_scope cfg raw = Some sc"
  shows "scope_words sc \<subseteq> insert (read_scope_name cfg)
      (if mcp_writes_enabled cfg \<and> write_scope_name cfg \<in> set (words raw) then {write_scope_name cfg} else {})"
proof -
  have w: "set (words (join_words (remdups (words raw)))) = set (words raw)"
    by (subst words_join) (auto simp: words_are_words list_all_iff)
  have sc: "sc = narrow_scope cfg (join_words (remdups (words raw))) (mcp_writes_enabled cfg)"
    using assms(3) by (auto simp: granted_scope_def Let_def split: if_splits)
  show ?thesis
    unfolding sc scope_words_def narrow_scope_words [OF assms(1,2)] using w by auto
qed

text \<open>No open redirect.\<close>

theorem answers_go_to_registered_uris:
  assumes "parse_authorization cfg ps = RedirectError uri err descr st \<or>
    (\<exists>r. parse_authorization cfg ps = Request r \<and> ar_redirect_uri r = uri)"
  shows "\<exists>cl. client cfg (param ps ''client_id'') = Some cl \<and> uri \<in> set (oc_redirect_uris cl) \<and> uri \<noteq> []
    \<and> uri = param ps ''redirect_uri''"
  using assms
  by (auto simp: parse_authorization_def Let_def split: option.splits if_splits)

text \<open>A request that is let through.\<close>

theorem parsed_request_sound:
  assumes names: "is_word (read_scope_name cfg)" "is_word (write_scope_name cfg)"
    and "parse_authorization cfg ps = Request r"
  shows "client cfg (oc_client_id (ar_client r)) = Some (ar_client r)
    \<and> ar_redirect_uri r \<in> set (oc_redirect_uris (ar_client r))
    \<and> is_pkce_challenge (ar_code_challenge r) \<and> resource_is_allowed cfg (ar_resource r)
    \<and> (\<forall>name \<in> set single_params. given_times ps name \<le> 1)
    \<and> scope_words (ar_scope r) \<subseteq> insert (read_scope_name cfg)
        (if mcp_writes_enabled cfg \<and> write_scope_name cfg \<in> set (words (param ps ''scope''))
         then {write_scope_name cfg} else {})"
proof -
  have once: "\<forall>name \<in> set single_params. given_times ps name \<le> 1"
    and sc: "granted_scope cfg (param ps ''scope'') = Some (ar_scope r)"
    and rest: "client cfg (param ps ''client_id'') = Some (ar_client r)"
      "ar_redirect_uri r \<in> set (oc_redirect_uris (ar_client r))"
      "is_pkce_challenge (ar_code_challenge r)" "resource_is_allowed cfg (ar_resource r)"
    using assms(3)
    by (auto simp: parse_authorization_def Let_def find_None_iff not_less split: option.splits if_splits)
  then show ?thesis
    using granted_scope_words [OF names sc] client_registered [OF rest(1)] by auto
qed

section \<open>The cache\<close>

text \<open>A key that was added stays taken until its timeout, whatever other keys are added or counted.\<close>

definition taken :: "cache \<Rightarrow> instant \<Rightarrow> string \<Rightarrow> bool" where
  "taken ch now key \<longleftrightarrow> (\<exists>e \<in> set ch. ce_key e = key \<and> now < ce_expires_at e)"

lemma cache_get_taken: "(cache_get ch now key = None) = (\<not> taken ch now key)"
  by (auto simp: cache_get_def taken_def first_where_None)

lemma cache_add_fails: "taken ch now key \<Longrightarrow> cache_add key n timeout now ch = (False, ch)"
  using cache_get_taken [of ch now key] by (auto simp: cache_add_def split: option.splits)

lemma cache_add_other:
  assumes "taken ch later key" and "now \<le> later"
  shows "taken (snd (cache_add k n timeout now ch)) later key"
proof -
  have now: "taken ch now key" using assms by (auto simp: taken_def)
  show ?thesis
  proof (cases "k = key")
    case True
    then show ?thesis using assms now by (simp add: cache_add_fails)
  next
    case False
    then show ?thesis using assms by (auto simp: cache_add_def taken_def split: option.split)
  qed
qed

lemma cache_add_takes:
  "cache_add key n timeout now ch = (True, ch') \<Longrightarrow> later < now + seconds timeout \<Longrightarrow> taken ch' later key"
  by (auto simp: cache_add_def taken_def split: option.splits)

lemma cache_incr_taken [simp]: "taken (cache_incr k ch) now key = taken ch now key"
  by (auto simp: taken_def cache_incr_def bex_update_where)

datatype cache_op = CacheAdd string nat int | CacheIncr string

fun cache_step :: "cache \<Rightarrow> instant \<times> cache_op \<Rightarrow> cache" where
  "cache_step ch (now, CacheAdd key n timeout) = snd (cache_add key n timeout now ch)"
| "cache_step ch (now, CacheIncr key) = cache_incr key ch"

lemma cache_steps_taken:
  "taken ch later key \<Longrightarrow> \<forall>op \<in> set ops. fst op \<le> later \<Longrightarrow> taken (foldl cache_step ch ops) later key"
proof (induction ops arbitrary: ch)
  case (Cons op ops)
  obtain now c where "op = (now, c)" by fastforce
  with Cons show ?case by (cases c) (auto intro: cache_add_other)
qed simp

section \<open>Client assertions\<close>

lemma remember_jti_once:
  assumes "0 \<le> now" and "remember_jti cr now cid jti expires ch = (True, ch1)" and "later < seconds (expires + leeway)"
    and "\<forall>op \<in> set ops. fst op \<le> later"
  shows "remember_jti cr later cid jti expires' (foldl cache_step ch1 ops) = (False, foldl cache_step ch1 ops)"
proof -
  have "seconds (unix_time now) \<le> now"
    using assms(1) by (simp add: unix_time_def int_seconds_nonneg seconds_def)
  then have "seconds (expires + leeway) \<le> now + seconds (max 1 (expires - unix_time now + leeway))"
    by (simp add: seconds_def max_def algebra_simps) linarith?
  then have "taken ch1 later (jti_key cr cid jti)"
    using assms(2,3) by (auto simp: remember_jti_def intro: cache_add_takes)
  then show ?thesis
    unfolding remember_jti_def using cache_steps_taken [OF _ assms(4)] by (intro cache_add_fails) blast
qed

lemma authenticated_by_assertion:
  assumes "authenticate_client cfg cr jl dnow now ps hdr ch = (Some cl, ch1)" and "param ps ''client_assertion'' \<noteq> []"
  obtains peeked claimed key cs e jti where "jwt_peek jl (param ps ''client_assertion'') = Some peeked"
    "(case cl_iss peeked of Absent \<Rightarrow> Text [] | c \<Rightarrow> c) = Text claimed" "client cfg claimed = Some cl"
    "jwt_decode jl dnow (param ps ''client_assertion'') key [token_endpoint_url cfg, issuer cfg] claimed leeway = Some cs"
    "jwks_key jl (oc_jwks_uri cl) (param ps ''client_assertion'') = Some key"
    "jwt_alg jl (param ps ''client_assertion'') = Some ''RS256''" "auth_method_jwt \<in> set (oc_auth_methods cl)"
    "cl_sub cs = Text claimed" "cl_exp cs = Number e" "cl_jti cs = Text jti" "e \<le> unix_time now + max_assertion_lifetime + leeway"
    "remember_jti cr now claimed jti e ch = (True, ch1)"
  using assms
  by (auto simp: authenticate_client_def verify_assertion_def Let_def
      split: if_splits option.splits claim.splits prod.splits bool.splits)


section \<open>The machine endpoints\<close>

lemma token_grant_operation:
  "\<exists>ops. length ops \<le> 1 \<and> snd (token_grant cfg cr rq ps cl db) = foldl (access_step cr) db ops"
proof -
  consider "snd (token_grant cfg cr rq ps cl db) = db"
    | "snd (token_grant cfg cr rq ps cl db) = snd (exchange_code cfg cr (rq_now rq) (rq_raws rq) (oc_client_id cl)
        (param ps ''code'') (param ps ''redirect_uri'') (param ps ''code_verifier'') (param ps ''resource'') (rq_ip rq)
        (if param ps ''client_assertion'' \<noteq> [] then auth_method_jwt else auth_method_none) db)"
    | "snd (token_grant cfg cr rq ps cl db) = snd (refresh cfg cr (rq_now rq) (oc_client_id cl)
        (param ps ''refresh_token'') (param ps ''resource'') (param ps ''scope'') (rq_ip rq)
        (if param ps ''client_assertion'' \<noteq> [] then auth_method_jwt else auth_method_none) db)"
    by (cases "param ps ''grant_type'' = ''authorization_code''"; cases "param ps ''resource'' = []";
        cases "param ps ''grant_type'' = ''refresh_token''") (simp_all add: token_grant_def Let_def)
  then show ?thesis
  proof cases
    case 1
    then show ?thesis by (intro exI [of _ "[]"]) simp
  next
    case 2
    then show ?thesis
      by (intro exI [of _ "[(cfg, ExchangeCode (rq_now rq) (rq_raws rq) (oc_client_id cl) (param ps ''code'')
        (param ps ''redirect_uri'') (param ps ''code_verifier'') (param ps ''resource'') (rq_ip rq)
        (if param ps ''client_assertion'' \<noteq> [] then auth_method_jwt else auth_method_none))]"]) simp
  next
    case 3
    then show ?thesis
      by (intro exI [of _ "[(cfg, RefreshTokens (rq_now rq) (oc_client_id cl) (param ps ''refresh_token'')
        (param ps ''resource'') (param ps ''scope'') (rq_ip rq)
        (if param ps ''client_assertion'' \<noteq> [] then auth_method_jwt else auth_method_none))]"]) simp
  qed
qed

lemma recorded_operation:
  "\<exists>ops. length ops \<le> 1 \<and> record_event et ok u g x d db = foldl (access_step cr) db ops"
  by (rule exI [of _ "[(undefined, RecordEvent et ok u g x d)]"]) simp

lemma no_operation: "\<exists>ops. length ops \<le> 1 \<and> db = foldl (access_step cr) db ops"
  by (rule exI [of _ "[]"]) simp

lemma revoked_operation:
  "\<exists>ops. length ops \<le> 1 \<and> snd (revoke_token cr now cid raw ip db) = foldl (access_step cr) db ops"
  by (rule exI [of _ "[(undefined, RevokeToken now cid raw ip)]"]) simp

lemma token_endpoint_grants:
  "token_endpoint cfg cr jl rq h = (r, h') \<Longrightarrow> h_db h' = h_db h \<and> (\<forall>i. r \<noteq> Some (TokensIssued i))
     \<or> (\<exists>x. h_db h' = record_event TOKEN_REFUSED False None None x [(''reason'', DText ''invalid_client'')] (h_db h))
          \<and> (\<forall>i. r \<noteq> Some (TokensIssued i))
     \<or> (\<exists>ps cl ch1 ch2. is_enabled cfg \<and> rq_form rq = Some ps \<and> \<not> repeated ps
          \<and> authenticate_client cfg cr jl (rq_dnow rq) (rq_now rq) ps (rq_authorization rq) ch1 = (Some cl, ch2)
          \<and> h_db h' = snd (token_grant cfg cr rq ps cl (h_db h)))"
proof -
  assume run: "token_endpoint cfg cr jl rq h = (r, h')"
  obtain lim ch where rl: "rate_limited cr (rq_now rq) ''token'' (rq_ip rq) (h_cache h) = (lim, ch)" by fastforce
  show ?thesis
  proof (cases "is_enabled cfg \<and> \<not> lim \<and> (\<exists>ps. rq_form rq = Some ps \<and> \<not> repeated ps)")
    case False
    then show ?thesis using run rl by (auto simp: token_endpoint_def split: option.splits if_splits bool.splits)
  next
    case True
    then obtain ps where ps: "is_enabled cfg" "\<not> lim" "rq_form rq = Some ps" "\<not> repeated ps" by blast
    obtain c ch2 where c: "authenticate_client cfg cr jl (rq_dnow rq) (rq_now rq) ps (rq_authorization rq) ch = (c, ch2)"
      by fastforce
    show ?thesis
    proof (cases c)
      case None
      then show ?thesis using run rl ps c by (auto simp: token_endpoint_def)
    next
      case (Some cl)
      then have "h_db h' = snd (token_grant cfg cr rq ps cl (h_db h))"
        using run rl ps c by (auto simp: token_endpoint_def split: prod.splits sum.splits)
      then show ?thesis using ps c Some by blast
    qed
  qed
qed

lemma revoke_endpoint_db:
  "revoke_endpoint cfg cr jl rq h = (r, h') \<Longrightarrow> h_db h' = h_db h \<or>
     (\<exists>cid raw. h_db h' = snd (revoke_token cr (rq_now rq) cid raw (rq_ip rq) (h_db h)))"
  by (auto simp: revoke_endpoint_def split: bool.splits option.splits prod.splits if_splits; blast)

text \<open>What the endpoints do to the tables is one operation of the services, or none.\<close>

theorem endpoints_are_operations:
  "(\<exists>ops. length ops \<le> 1 \<and> h_db (snd (token_endpoint cfg cr jl rq h)) = foldl (access_step cr) (h_db h) ops) \<and>
   (\<exists>ops. length ops \<le> 1 \<and> h_db (snd (revoke_endpoint cfg cr jl rq h)) = foldl (access_step cr) (h_db h) ops)"
proof
  show "\<exists>ops. length ops \<le> 1 \<and> h_db (snd (token_endpoint cfg cr jl rq h)) = foldl (access_step cr) (h_db h) ops"
    using token_endpoint_grants [of cfg cr jl rq h, OF prod.collapse [symmetric]]
    by (elim disjE exE conjE) (simp_all only: no_operation recorded_operation token_grant_operation)
  show "\<exists>ops. length ops \<le> 1 \<and> h_db (snd (revoke_endpoint cfg cr jl rq h)) = foldl (access_step cr) (h_db h) ops"
    using revoke_endpoint_db [of cfg cr jl rq h, OF prod.collapse [symmetric]]
    by (elim disjE exE) (simp_all only: no_operation revoked_operation)
qed

text \<open>Tokens are issued to authenticated clients only.\<close>

theorem tokens_for_authenticated_clients:
  assumes "token_endpoint cfg cr jl rq h = (Some (TokensIssued issued), h')"
  shows "is_enabled cfg \<and> (\<exists>ps cl ch1 ch2. rq_form rq = Some ps \<and> \<not> repeated ps
    \<and> authenticate_client cfg cr jl (rq_dnow rq) (rq_now rq) ps (rq_authorization rq) ch1 = (Some cl, ch2)
    \<and> rq_authorization rq = [] \<and> client cfg (oc_client_id cl) = Some cl
    \<and> (if param ps ''client_assertion'' \<noteq> [] then auth_method_jwt else auth_method_none) \<in> set (oc_auth_methods cl)
    \<and> h_db h' = snd (token_grant cfg cr rq ps cl (h_db h)))"
proof -
  have auth: "rq_authorization rq = [] \<and> client cfg (oc_client_id cl) = Some cl
      \<and> (if param ps ''client_assertion'' \<noteq> [] then auth_method_jwt else auth_method_none) \<in> set (oc_auth_methods cl)"
    if "authenticate_client cfg cr jl (rq_dnow rq) (rq_now rq) ps (rq_authorization rq) ch1 = (Some cl, ch2)" for ps cl ch1 ch2
    using that by (auto simp: authenticate_client_def Let_def
        split: if_splits option.splits claim.splits prod.splits bool.splits)
  obtain ps cl ch1 ch2 where g: "is_enabled cfg" "rq_form rq = Some ps" "\<not> repeated ps"
    "authenticate_client cfg cr jl (rq_dnow rq) (rq_now rq) ps (rq_authorization rq) ch1 = (Some cl, ch2)"
    "h_db h' = snd (token_grant cfg cr rq ps cl (h_db h))"
    using token_endpoint_grants [OF assms] by blast
  show ?thesis using g auth [OF g(4)] by blast
qed

section \<open>The rate limit\<close>

definition counted_for :: "string \<Rightarrow> cache \<Rightarrow> nat" where
  "counted_for key ch = (case first_where (\<lambda>e. ce_key e = key) ch of None \<Rightarrow> 0 | Some e \<Rightarrow> ce_count e)"

definition counting :: "string \<Rightarrow> cache \<Rightarrow> instant \<Rightarrow> bool" where
  "counting key ch now \<longleftrightarrow> unique_on ce_key ch \<and> taken ch now key"

lemma rate_limited_step:
  assumes "counting (rate_key cr ep ip) ch now"
  shows "rate_limited cr now ep ip ch =
     (Suc (counted_for (rate_key cr ep ip) ch) > rate_limit, cache_incr (rate_key cr ep ip) ch)"
    and "counted_for (rate_key cr ep ip) (cache_incr (rate_key cr ep ip) ch) = Suc (counted_for (rate_key cr ep ip) ch)"
proof -
  let ?key = "rate_key cr ep ip"
  obtain e where e: "e \<in> set ch" "ce_key e = ?key" "now < ce_expires_at e" and u: "unique_on ce_key ch"
    using assms by (auto simp: counting_def taken_def)
  have row: "first_where (\<lambda>s. ce_key s = ?key) ch = Some e" using first_where_unique [OF u e(1)] e(2) by simp
  then show inc: "counted_for ?key (cache_incr ?key ch) = Suc (counted_for ?key ch)"
    using e(2) by (simp add: counted_for_def cache_incr_def first_where_update)
  have "cache_get (cache_incr ?key ch) now ?key = Some (e\<lparr>ce_count := Suc (ce_count e)\<rparr>)"
  proof -
    have "first_where (\<lambda>s. ce_key s = ?key \<and> now < ce_expires_at s) ch = Some e"
    proof (cases "first_where (\<lambda>s. ce_key s = ?key \<and> now < ce_expires_at s) ch")
      case None
      then show ?thesis using e by (auto simp: first_where_None)
    next
      case (Some s)
      then have "s \<in> set ch" "ce_key s = ?key" by auto
      then show ?thesis using Some e u by (auto dest: unique_onD)
    qed
    then show ?thesis using e(2) by (simp add: cache_get_def cache_incr_def first_where_update)
  qed
  then show "rate_limited cr now ep ip ch = (Suc (counted_for ?key ch) > rate_limit, cache_incr ?key ch)"
    using assms row by (simp add: rate_limited_def Let_def cache_add_fails counting_def counted_for_def)
qed

definition rate_spent :: "string \<Rightarrow> cache \<Rightarrow> nat" where
  "rate_spent key ch = min rate_limit (counted_for key ch)"

lemma counting_kept:
  "counting key ch now \<Longrightarrow> counting key (cache_incr key ch) now"
  unfolding counting_def cache_incr_taken by (simp add: cache_incr_def unique_on_update)

interpretation requests: guess_budget "\<lambda>ch now. snd (rate_limited cr now ep ip ch)"
  "\<lambda>ch. counted_for (rate_key cr ep ip) ch < rate_limit" "rate_spent (rate_key cr ep ip)" rate_limit
  "counting (rate_key cr ep ip)" for cr ep ip
proof unfold_locales
  fix ch and now :: instant
  assume c: "counting (rate_key cr ep ip) ch now"
  show "rate_spent (rate_key cr ep ip) (snd (rate_limited cr now ep ip ch)) = Suc (rate_spent (rate_key cr ep ip) ch)"
    if "counted_for (rate_key cr ep ip) ch < rate_limit"
    using rate_limited_step [OF c] that by (simp add: rate_spent_def)
  show "rate_spent (rate_key cr ep ip) (snd (rate_limited cr now ep ip ch)) = rate_spent (rate_key cr ep ip) ch"
    if "\<not> counted_for (rate_key cr ep ip) ch < rate_limit"
    using rate_limited_step [OF c] that by (simp add: rate_spent_def)
  show "counted_for (rate_key cr ep ip) ch < rate_limit \<longleftrightarrow> rate_spent (rate_key cr ep ip) ch < rate_limit"
    by (auto simp: rate_spent_def)
next
  fix ch and now later :: instant
  assume "counting (rate_key cr ep ip) ch now" "counting (rate_key cr ep ip) ch later"
  then show "counting (rate_key cr ep ip) (snd (rate_limited cr now ep ip ch)) later"
    using rate_limited_step(1) [of cr ep ip ch now] by (simp add: counting_kept)
qed

fun let_through :: "crypto \<Rightarrow> string \<Rightarrow> string option \<Rightarrow> instant list \<Rightarrow> cache \<Rightarrow> nat" where
  "let_through cr ep ip [] ch = 0"
| "let_through cr ep ip (now # nows) ch =
     (case rate_limited cr now ep ip ch of (limited, ch') \<Rightarrow>
        (if limited then 0 else 1) + let_through cr ep ip nows ch')"

lemma let_through_admitted:
  "\<forall>now \<in> set nows. counting (rate_key cr ep ip) ch now \<Longrightarrow>
     let_through cr ep ip nows ch = requests.admitted cr ep ip ch nows"
proof (induction nows arbitrary: ch)
  case (Cons now nows)
  then have c: "counting (rate_key cr ep ip) ch now" by simp
  have "\<forall>t \<in> set nows. counting (rate_key cr ep ip) (cache_incr (rate_key cr ep ip) ch) t"
    using Cons.prems by (auto intro: counting_kept)
  from Cons.IH [OF this] show ?case using rate_limited_step(1) [OF c] by (simp add: not_less)
qed simp

text \<open>The rate limit.\<close>

theorem rate_limit_bounds_requests:
  assumes "unique_on ce_key ch" and "\<not> taken ch t0 (rate_key cr ep ip)"
    and "\<forall>now \<in> set nows. t0 \<le> now \<and> now < t0 + seconds rate_window"
  shows "let_through cr ep ip (t0 # nows) ch = min (Suc (length nows)) rate_limit"
proof -
  let ?key = "rate_key cr ep ip"
  let ?new = "\<lparr>ce_key = ?key, ce_count = 0, ce_expires_at = t0 + seconds rate_window\<rparr>"
  let ?ch0 = "?new # filter (\<lambda>e. ce_key e \<noteq> ?key) ch"
  have add: "cache_add ?key 0 rate_window t0 ch = (True, ?ch0)"
    using assms(2) cache_get_taken [of ch t0 ?key] by (auto simp: cache_add_def)
  have u: "unique_on ce_key ?ch0"
    using assms(1) by (auto simp: unique_on_def distinct_map inj_on_def)
  have c: "counting ?key ?ch0 now" if "t0 \<le> now" "now < t0 + seconds rate_window" for now
    using u that by (auto simp: counting_def taken_def)
  have "counted_for ?key ?ch0 = 0" by (simp add: counted_for_def row_simps)
  then have "requests.admitted cr ep ip ?ch0 (t0 # nows) = min (length (t0 # nows)) rate_limit"
    using requests.admitted_count [of "t0 # nows" cr ep ip ?ch0] c assms(3)
    by (simp add: rate_spent_def rate_window_def seconds_def)
  moreover have "rate_limited cr t0 ep ip ch = rate_limited cr t0 ep ip ?ch0"
    using add rate_limited_step(1) [OF c [of t0]] cache_add_fails [of ?ch0 t0 ?key 0 rate_window] c [of t0]
    by (simp add: rate_limited_def Let_def counting_def rate_window_def seconds_def)
  then have "let_through cr ep ip (t0 # nows) ch = let_through cr ep ip (t0 # nows) ?ch0" by simp
  moreover have "let_through cr ep ip (t0 # nows) ?ch0 = requests.admitted cr ep ip ?ch0 (t0 # nows)"
    using c assms(3) by (intro let_through_admitted) (auto simp: rate_window_def seconds_def)
  ultimately show ?thesis by simp
qed

section \<open>On the example\<close>

definition example_params :: params where
  "example_params = [(''client_id'', ''cl''), (''redirect_uri'', ''https://c.ee/cb''), (''response_type'', ''code''),
     (''code_challenge_method'', ''S256''), (''code_challenge'', raw_of CHR ''p''), (''resource'', ''https://m.ee''),
     (''scope'', ''openid juristid.read juristid.write'')]"

lemma example_parsed:
  "parse_authorization example_settings example_params = Request example_request"
  by code_simp

theorem answers_go_to_registered_uris_witness:
  "\<exists>cl. client example_settings ''cl'' = Some cl \<and> ''https://c.ee/cb'' \<in> set (oc_redirect_uris cl)"
proof -
  have "\<exists>r. parse_authorization example_settings example_params = Request r \<and> ar_redirect_uri r = ''https://c.ee/cb''"
    by (rule exI [of _ example_request]) (simp add: example_parsed example_request_def)
  then have "\<exists>cl. client example_settings (param example_params ''client_id'') = Some cl
      \<and> ''https://c.ee/cb'' \<in> set (oc_redirect_uris cl) \<and> ''https://c.ee/cb'' \<noteq> []
      \<and> ''https://c.ee/cb'' = param example_params ''redirect_uri''"
    by (rule answers_go_to_registered_uris [OF disjI2])
  moreover have "param example_params ''client_id'' = ''cl''" by code_simp
  ultimately show ?thesis by auto
qed

theorem parsed_request_sound_witness:
  "is_pkce_challenge (ar_code_challenge example_request) \<and> resource_is_allowed example_settings (ar_resource example_request)"
  using parsed_request_sound [OF example_words(1,2) example_parsed] by blast

definition assertion_settings :: settings where
  "assertion_settings = example_settings\<lparr>oauth_clients := [(''cl'', \<lparr>rc_client_name = None,
     rc_redirect_uris = Some [''https://c.ee/cb''], rc_auth_methods = Some [''private_key_jwt''],
     rc_jwks_uri = Some ''https://c.ee/jwks''\<rparr>)]\<rparr>"

definition example_claims :: claims where
  "example_claims = \<lparr>cl_iss = Text ''cl'', cl_sub = Text ''cl'', cl_exp = Number 1100, cl_jti = Text ''j1''\<rparr>"

definition toy_jwt_decode :: "instant \<Rightarrow> string \<Rightarrow> string \<Rightarrow> string list \<Rightarrow> string \<Rightarrow> int \<Rightarrow> claims option" where
  "toy_jwt_decode now a key auds iss l =
     (if now < seconds (1100 + l) \<and> iss = ''cl'' then Some example_claims else None)"

definition toy_peek :: "string \<Rightarrow> claims option" where "toy_peek a = Some example_claims"
definition toy_alg :: "string \<Rightarrow> string option" where "toy_alg a = Some ''RS256''"
definition toy_key :: "string \<Rightarrow> string \<Rightarrow> string option" where "toy_key uri a = Some ''key''"

definition toy_library :: jwt_library where
  "toy_library = \<lparr>jwt_peek = toy_peek, jwt_alg = toy_alg, jwks_key = toy_key, jwt_decode = toy_jwt_decode\<rparr>"

definition assertion_params :: params where
  "assertion_params = [(''client_assertion_type'', client_assertion_type), (''client_assertion'', ''a.b.c'')]"


definition example_token_request :: request_context where
  "example_token_request = \<lparr>rq_form = Some [(''grant_type'', ''authorization_code''), (''client_id'', ''cl''),
     (''code'', raw_of CHR ''c''), (''redirect_uri'', ''https://c.ee/cb''), (''code_verifier'', raw_of CHR ''p''),
     (''resource'', ''https://m.ee/'')], rq_authorization = [], rq_ip = None, rq_dnow = seconds 2010,
     rq_now = seconds 2010, rq_raws = (raw_of CHR ''A'', raw_of CHR ''R'')\<rparr>"

lemma issued_response:
  "(case fst r of Some (TokensIssued i) \<Rightarrow> P i | _ \<Rightarrow> False) \<Longrightarrow> \<exists>i. r = (Some (TokensIssued i), snd r)"
  by (cases r) (auto split: option.splits token_response.splits)

theorem tokens_for_authenticated_clients_witness:
  "\<exists>issued h'. token_endpoint example_settings example_crypto toy_library example_token_request
     \<lparr>h_db = example_after 5, h_cache = []\<rparr> = (Some (TokensIssued issued), h') \<and> rq_authorization example_token_request = []"
proof -
  let ?out = "token_endpoint example_settings example_crypto toy_library example_token_request
    \<lparr>h_db = example_after 5, h_cache = []\<rparr>"
  have "(case fst ?out of Some (TokensIssued i) \<Rightarrow> it_scope i = ''juristid.read juristid.write'' | _ \<Rightarrow> False)"
    by code_simp
  then obtain issued where i: "?out = (Some (TokensIssued issued), snd ?out)"
    using issued_response by blast
  from tokens_for_authenticated_clients [OF i] i show ?thesis by blast
qed

theorem rate_limit_bounds_requests_witness:
  "let_through example_crypto ''token'' None (replicate 40 (seconds 1000)) [] = 30"
proof -
  have h: "unique_on ce_key []" "\<not> taken [] (seconds 1000) (rate_key example_crypto ''token'' None)"
    "\<forall>now \<in> set (replicate 39 (seconds 1000)). seconds 1000 \<le> now \<and> now < seconds 1000 + seconds rate_window"
    by (simp_all add: unique_on_def taken_def rate_window_def seconds_def)
  have "replicate 40 (seconds 1000) = seconds 1000 # replicate 39 (seconds 1000)"
    by (simp add: numeral_eq_Suc)
  then show ?thesis using rate_limit_bounds_requests [OF h] by (simp add: rate_limit_def)
qed

end
