(* ===== verification/LockoutProperties.thy ===== *)
theory LockoutProperties
  imports TokenProperties
begin

text \<open>
  What the check of a personal code guarantees: wrong codes are counted and suspend the grant, a
  time step is accepted once in the life of an authenticator, an authorization needs everything
  at once, and the throttle bounds the guesses of a window before any of them is looked at.
\<close>

section \<open>The budget of wrong codes\<close>

definition guesses_spent :: "grant \<Rightarrow> nat" where
  "guesses_spent g = max_failed_codes * g_lock_count g + g_failed_attempts g"

definition guess_limit :: nat where
  "guess_limit = max_failed_codes * Suc (length lock_ladder_seconds)"

lemma guess_limit_20: "guess_limit = 20"
  by (simp add: guess_limit_def max_failed_codes_def lock_ladder_seconds_def)

interpretation wrong_codes: guess_budget "\<lambda>g now. counted now g" "\<lambda>g. \<not> is_suspended g" guesses_spent guess_limit
  "\<lambda>g _. counters_ok g"
proof unfold_locales
  fix g and now :: instant
  assume ok: "counters_ok g"
  then show "counters_ok (counted now g)" by (rule counted_keeps)
  show "guesses_spent (counted now g) = Suc (guesses_spent g)" if "\<not> is_suspended g"
    using ok that by (auto simp: counters_ok_def guesses_spent_def counted_def trips_def max_failed_codes_def Let_def
        lock_ladder_seconds_def is_suspended_def)
  show "guesses_spent (counted now g) = guesses_spent g" if "\<not> \<not> is_suspended g"
    using that by (simp add: guesses_spent_def counted_def trips_def Let_def)
  show "(\<not> is_suspended g) = (guesses_spent g < guess_limit)"
    using ok by (auto simp: counters_ok_def guesses_spent_def guess_limit_def max_failed_codes_def lock_ladder_seconds_def)
qed

lemma total_counted [simp]: "g_total_failed_attempts (counted now g) = Suc (g_total_failed_attempts g)"
  by (simp add: counted_def Let_def)

lemma all_counted:
  "counters_ok g \<Longrightarrow> counters_ok (foldl (\<lambda>g now. counted now g) g nows)"
  "g_total_failed_attempts (foldl (\<lambda>g now. counted now g) g nows) = g_total_failed_attempts g + length nows"
  by (induction nows arbitrary: g) (simp_all add: counted_keeps)

text \<open>C24: wrong codes.\<close>

theorem wrong_codes_suspend:
  assumes ok: "counters_ok g"
  shows "(is_suspended (foldl (\<lambda>g now. counted now g) g nows) \<longleftrightarrow> 20 \<le> guesses_spent g + length nows)
    \<and> g_total_failed_attempts (foldl (\<lambda>g now. counted now g) g nows) = g_total_failed_attempts g + length nows"
proof -
  let ?h = "foldl (\<lambda>g now. counted now g) g nows"
  have le: "guesses_spent g \<le> guess_limit"
    using ok by (auto simp: counters_ok_def guesses_spent_def guess_limit_def max_failed_codes_def lock_ladder_seconds_def)
  have "guesses_spent ?h = guesses_spent g + min (length nows) (guess_limit - guesses_spent g)"
    using wrong_codes.spent_after [of nows g] wrong_codes.admitted_count [of nows g] ok le by simp
  moreover have "is_suspended ?h \<longleftrightarrow> \<not> guesses_spent ?h < guess_limit"
    using wrong_codes.admits_iff [OF all_counted(1) [OF ok]] by blast
  ultimately have "is_suspended ?h \<longleftrightarrow> 20 \<le> guesses_spent g + length nows"
    using le unfolding guess_limit_20 by linarith
  then show ?thesis using all_counted(2) by blast
qed

text \<open>A wrong code counts.\<close>

theorem wrong_code_counted:
  assumes g: "active_grant (history cr ops) uid = Some g" and u: "user_by_id (history cr ops) uid = Some u"
    and eligible: "may_connect cfg (break_glasses (history cr ops)) now (Some u) (Some g)"
    and readable: "\<forall>a. authenticator_of (history cr ops) (g_id g) = Some a \<longrightarrow> unseal cfg cr (a_encrypted_secret a) \<noteq> None"
    and wrong: "code_step cfg cr tnow (authenticator_of (history cr ops) (g_id g)) code = None"
    and run: "authorize cfg cr now tnow created raw uid req code ip (history cr ops) = (r, db')"
  shows "r = Inr (answer BadCode) \<and> codes db' = codes (history cr ops) \<and> tokens db' = tokens (history cr ops)
    \<and> authenticators db' = authenticators (history cr ops)
    \<and> active_grant db' uid = Some (counted now g)
    \<and> (\<forall>h. g_id h \<noteq> g_id g \<longrightarrow> (h \<in> set (grants db') \<longleftrightarrow> h \<in> set (grants (history cr ops))))"
proof -
  let ?db = "history cr ops" and ?x = "web_context (oc_client_id (ar_client req)) ip"
  have out: "r = Inr (answer BadCode)"
    "db' = snd (count_wrong_code g (u_id u) ?x now AUTHORIZATION_REFUSED ?db)"
    using run g u eligible readable wrong
    by (auto simp: authorize_def check_personal_code_def Let_def count_wrong_code_def atomic_def split: option.splits)
  have mem: "g \<in> set (grants ?db)" using g by (auto simp: active_grant_def)
  have rows: "grants db' = update_where (\<lambda>h. g_id h = g_id g) (\<lambda>h. h\<lparr>g_failed_attempts := g_failed_attempts (counted now g),
      g_total_failed_attempts := g_total_failed_attempts (counted now g), g_lock_count := g_lock_count (counted now g),
      g_locked_until := g_locked_until (counted now g), g_suspended_at := g_suspended_at (counted now g)\<rparr>) (grants ?db)"
    unfolding out(2) by (simp add: count_wrong_code_def Let_def save_counters_def save_grant_def counted_def)
  have same: "h = g" if "h \<in> set (grants ?db)" "g_id h = g_id g" for h
    using same_grant [OF history_inv mem that(1)] that(2) .
  have self: "g\<lparr>g_failed_attempts := g_failed_attempts (counted now g),
      g_total_failed_attempts := g_total_failed_attempts (counted now g), g_lock_count := g_lock_count (counted now g),
      g_locked_until := g_locked_until (counted now g), g_suspended_at := g_suspended_at (counted now g)\<rparr> = counted now g"
    by (simp add: counted_def Let_def)
  have "active_grant db' uid = Some (counted now g)"
    using g self unfolding active_grant_def rows by (simp add: first_where_update)
  moreover have "codes db' = codes ?db \<and> tokens db' = tokens ?db \<and> authenticators db' = authenticators ?db"
    unfolding out(2) by (simp add: count_wrong_code_def Let_def save_counters_def)
  moreover have "\<forall>h. g_id h \<noteq> g_id g \<longrightarrow> (h \<in> set (grants db') \<longleftrightarrow> h \<in> set (grants ?db))"
    unfolding rows by (auto simp: in_update_where)
  ultimately show ?thesis using out(1) by blast
qed

section \<open>Single use of a time step\<close>

definition spend_step :: "authenticator \<Rightarrow> settings \<times> crypto \<times> instant \<times> string \<Rightarrow> authenticator" where
  "spend_step a i = (case i of (cfg, cr, tnow, code) \<Rightarrow>
     (case code_step cfg cr tnow (Some a) code of None \<Rightarrow> a | Some n \<Rightarrow> a\<lparr>a_last_used_step := n\<rparr>))"

interpretation codes: replay_guard
  "\<lambda>a i. case i of (cfg, cr, tnow, code) \<Rightarrow> code_step cfg cr tnow (Some a) code" spend_step a_last_used_step
  by unfold_locales (auto simp: spend_step_def dest: code_step_later)

lemma authenticator_member:
  "access_inv db \<Longrightarrow> a \<in> set (authenticators db) \<Longrightarrow> authenticator_of db (a_grant a) = Some a"
  unfolding authenticator_of_def by (rule first_where_unique) (simp_all add: access_inv_def authenticators_ok_def)

text \<open>The check spends the step of a right code even when the grant is locked.\<close>

lemma check_spends_step:
  assumes "code_step cfg cr tnow (authenticator_of db (g_id g)) code = Some n"
  shows "authenticators (snd (check_personal_code cfg cr now tnow (Some u) (Some g) True why code x ev db)) =
     authenticators (save_authenticator (g_id g) (\<lambda>b. b\<lparr>a_last_used_step := n\<rparr>) db)"
  using assms
  by (auto simp: check_personal_code_def Let_def code_step_def reset_counters_def save_authenticator_def
      split: option.splits)

text \<open>C25: no time step twice.\<close>

theorem code_never_accepted_twice:
  assumes g: "g \<in> set (grants (history cr ops))" "g_status g = Active"
    and first: "code_step cfg cr tnow (authenticator_of (history cr ops) (g_id g)) code = Some n"
    and check: "check_personal_code cfg cr now tnow (Some u) (Some g) True why code x ev (history cr ops) = (out, db1)"
    and again: "code_step cfg' cr' tnow' (authenticator_of (foldl (access_step cr) db1 later) (g_id g)) code' = Some m"
  shows "n < m"
proof -
  let ?db = "history cr ops" and ?db2 = "foldl (access_step cr) db1 later"
  have inv: "access_inv ?db" by (rule history_inv)
  have r: "reaches ?db db1"
    using check_reaches [OF inv, where go = "Some g" and uo = "Some u" and el = True and cfg = cfg and cr = cr
        and now = now and tnow = tnow and why = why and code = code and x = x and ev = ev] g check by simp
  note inv1 = reaches_inv [OF r inv]
  obtain a where a: "authenticator_of ?db (g_id g) = Some a" using code_step_authenticator [OF first] by blast
  then have "a \<in> set (authenticators ?db)" "a_grant a = g_id g" by (auto simp: authenticator_of_def)
  then have "a\<lparr>a_last_used_step := n\<rparr> \<in> set (authenticators db1)"
    using check_spends_step [OF first, of now u why x ev] check
    by (auto simp: save_authenticator_def in_update_where)
  then obtain b where b: "b \<in> set (authenticators ?db2)" "a_grant b = g_id g" "n \<le> a_last_used_step b"
    using reaches_step [OF run_reaches [OF inv1] inv1] \<open>a_grant a = g_id g\<close> by fastforce
  then have "authenticator_of ?db2 (g_id g) = Some b"
    using authenticator_member [OF reaches_inv [OF run_reaches [OF inv1] inv1] b(1)] by simp
  then have "a_last_used_step b < m" using code_step_later again by simp
  with b(3) show ?thesis by simp
qed

section \<open>Connecting\<close>

text \<open>The row a successful authorization adds, and what it leaves alone.\<close>

lemma authorize_ok:
  assumes "authorize cfg cr now tnow created raw uid req code ip db = (Inr out, db')" and "o_status out = Ok"
  obtains u g a n where "user_by_id db uid = Some u" "active_grant db uid = Some g"
    "may_connect cfg (break_glasses db) now (Some u) (Some g)"
    "authenticator_of db (g_id g) = Some a" "code_step cfg cr tnow (Some a) code = Some n"
    "\<not> is_suspended g" "\<not> is_locked_at g now" "o_code out = raw"
    "codes db' = codes db @ [new_code cfg cr now created raw req u g (narrow_scope cfg (ar_scope req)
       (may_write cfg (break_glasses db) now (Some u) (Some g))) (next_id db)]"
    "\<forall>c \<in> set (codes db). c_digest c \<noteq> digest cr raw"
    "grants db' = update_where (\<lambda>h. g_id h = g_id g) (\<lambda>h. h\<lparr>g_failed_attempts := 0, g_total_failed_attempts := 0,
       g_lock_count := 0, g_locked_until := None\<rparr>) (grants db)"
    "tokens db' = tokens db" "users db' = users db" "break_glasses db' = break_glasses db" "next_id db' = Suc (next_id db)"
proof -
  let ?uo = "user_by_id db uid" and ?go = "active_grant db uid"
  let ?x = "web_context (oc_client_id (ar_client req)) ip"
  let ?el = "may_connect cfg (break_glasses db) now ?uo ?go"
  let ?ck = "check_personal_code cfg cr now tnow ?uo ?go ?el ''no_active_grant'' code ?x AUTHORIZATION_REFUSED db"
  obtain r db1 where ckr: "?ck = (r, db1)" by fastforce
  have "\<exists>m. r = Inr m"
  proof (cases r)
    case (Inl o')
    then have "o' = out" using assms(1) ckr by (simp add: authorize_def atomic_return Let_def)
    moreover have "o_status o' \<noteq> Ok"
      using ckr Inl by (auto simp: check_personal_code_def count_wrong_code_def answer_def Let_def
          split: option.splits bool.splits if_splits)
    ultimately show ?thesis using assms(2) by simp
  qed blast
  then obtain m where ck: "?ck = (Inr m, db1)" using ckr by blast
  obtain u g a n where *: "?uo = Some u" "?go = Some g" ?el "m = now"
    "authenticator_of db (g_id g) = Some a" "code_step cfg cr tnow (Some a) code = Some n"
    "\<not> is_suspended g" "\<not> is_locked_at g now"
    "db1 = reset_counters (g_id g) (save_authenticator (g_id g) (\<lambda>b. b\<lparr>a_last_used_step := n\<rparr>) db)"
    by (rule check_success [OF ck])
  have same: "codes db1 = codes db" "next_id db1 = next_id db" "tokens db1 = tokens db" "users db1 = users db"
    "break_glasses db1 = break_glasses db"
    "grants db1 = update_where (\<lambda>h. g_id h = g_id g) (\<lambda>h. h\<lparr>g_failed_attempts := 0, g_total_failed_attempts := 0,
       g_lock_count := 0, g_locked_until := None\<rparr>) (grants db)"
    using *(9) by (simp_all add: reset_counters_def save_authenticator_def save_grant_def)
  have "mint_code cfg cr now created raw req u g ip db1 = (Inr out, db')"
    using assms(1) ck * by (simp add: authorize_def atomic_return Let_def)
  then have "codes db' = codes db1 @ [new_code cfg cr now created raw req u g (narrow_scope cfg (ar_scope req)
       (may_write cfg (break_glasses db1) now (Some u) (Some g))) (next_id db1)]"
    "\<forall>c \<in> set (codes db1). c_digest c \<noteq> digest cr raw" "grants db' = grants db1" "tokens db' = tokens db1"
    "users db' = users db1" "break_glasses db' = break_glasses db1" "next_id db' = Suc (next_id db1)" "o_code out = raw"
    by (auto simp: mint_code_def fresh_def create_code_def new_code_def Let_def split: if_splits)
  with * same show thesis by (intro that [of u g a n]) simp_all
qed

text \<open>C26: what an authorization needs.\<close>

theorem authorize_sound:
  assumes "authorize cfg cr now tnow created raw uid req code ip db = (Inr out, db')" and "o_status out = Ok"
  shows "\<exists>u g a n c. user_by_id db uid = Some u \<and> active_grant db uid = Some g
    \<and> may_connect cfg (break_glasses db) now (Some u) (Some g)
    \<and> authenticator_of db (g_id g) = Some a \<and> code_step cfg cr tnow (Some a) code = Some n
    \<and> \<not> is_suspended g \<and> \<not> is_locked_at g now
    \<and> codes db' = codes db @ [c] \<and> c_digest c = digest cr raw \<and> c_grant c = g_id g \<and> c_user c = u_id u
    \<and> c_client_id c = oc_client_id (ar_client req) \<and> c_redirect_uri c = ar_redirect_uri req
    \<and> c_code_challenge c = ar_code_challenge req \<and> c_resource c = ar_resource req
    \<and> c_scope c = narrow_scope cfg (ar_scope req) (may_write cfg (break_glasses db) now (Some u) (Some g))
    \<and> c_used_at c = None \<and> c_expires_at c = now + seconds (authorization_code_seconds cfg)
    \<and> o_code out = raw"
  by (rule authorize_ok [OF assms]) (auto simp: new_code_def)

section \<open>The throttle\<close>

text \<open>Nothing but the throttle writes its rows.\<close>

lemma check_throttles [simp]:
  "throttles (snd (check_personal_code cfg cr now tnow uo go el why code x ev db)) = throttles db"
  by (auto simp: check_personal_code_def Let_def reset_counters_def save_authenticator_def count_wrong_code_def
      save_counters_def save_grant_def split: option.splits bool.splits)

lemma authorize_throttles:
  assumes "authorize cfg cr now tnow created raw uid req code ip db = (Inr out, db')"
  shows "throttles db' = throttles db"
proof -
  let ?x = "web_context (oc_client_id (ar_client req)) ip"
  let ?ck = "check_personal_code cfg cr now tnow (user_by_id db uid) (active_grant db uid)
    (may_connect cfg (break_glasses db) now (user_by_id db uid) (active_grant db uid)) ''no_active_grant'' code ?x
    AUTHORIZATION_REFUSED db"
  obtain r db1 where ck: "?ck = (r, db1)" by fastforce
  have "throttles db1 = throttles db" using arg_cong [OF ck, of "\<lambda>p. throttles (snd p)"] by simp
  then show ?thesis
    using assms ck
    by (auto simp: authorize_def atomic_return Let_def mint_code_def fresh_def create_code_def
        split: sum.splits option.splits if_splits)
qed

lemma rolled_key [simp]: "th_key (rolled cfg now r) = th_key r"
  by (simp add: rolled_def)

definition key_row :: "settings \<Rightarrow> instant \<Rightarrow> throttle_key \<Rightarrow> access_db \<Rightarrow> throttle_row" where
  \<comment> \<open>the row a request at \<open>now\<close> counts on\<close>
  "key_row cfg now k db =
     rolled cfg now (case first_where (\<lambda>r. th_key r = tk_key k) (throttles db) of Some r \<Rightarrow> r
       | None \<Rightarrow> \<lparr>th_key = tk_key k, th_failures = 0, th_window_started_at = now\<rparr>)"

lemma hold_one:
  "hold_throttles cfg now [k] db =
     (([key_row cfg now k db], if th_failures (key_row cfg now k db) \<ge> tk_limit k
         then seconds_until (Some (th_window_started_at (key_row cfg now k db) + throttle_window cfg)) now else 0),
      snd (held_throttle (tk_key k) now db))"
  by (auto simp: hold_throttles_def key_row_def held_throttle_def Let_def split: option.splits prod.splits)

lemma authorize_outcome:
  "authorize cfg cr now tnow created raw uid req code ip db = (Inr out, db') \<Longrightarrow> o_status out \<noteq> Throttled"
  by (auto simp: authorize_def atomic_return Let_def mint_code_def check_personal_code_def count_wrong_code_def
      answer_def split: option.splits sum.splits if_splits prod.splits bool.splits)

type_synonym guess =
  "instant \<times> instant \<times> instant \<times> instant \<times> string \<times> row_id option \<times> authorization_request \<times> string \<times> string option"

fun guess_once :: "settings \<Rightarrow> crypto \<Rightarrow> throttle_key \<Rightarrow> guess \<Rightarrow> access_db \<Rightarrow> (refusal exn + outcome) \<times> access_db" where
  "guess_once cfg cr k (hnow, now, tnow, created, raw, uid, req, code, ip) db =
     authorize_attempt cfg cr hnow now tnow created raw uid req code ip [k] db"

fun guess_all :: "settings \<Rightarrow> crypto \<Rightarrow> throttle_key \<Rightarrow> guess list \<Rightarrow> access_db \<Rightarrow> (refusal exn + outcome) list" where
  "guess_all cfg cr k [] db = []"
| "guess_all cfg cr k (g # gs) db =
     (let (r, db') = guess_once cfg cr k g db in r # guess_all cfg cr k gs db')"

definition refused_guess :: "refusal exn + outcome \<Rightarrow> bool" where
  \<comment> \<open>the code was looked at, and the answer was no\<close>
  "refused_guess r = (case r of Inl _ \<Rightarrow> False | Inr out \<Rightarrow> o_status out \<noteq> Ok \<and> o_status out \<noteq> Throttled)"

definition failures_of :: "throttle_key \<Rightarrow> access_db \<Rightarrow> nat" where
  "failures_of k db = (case first_where (\<lambda>r. th_key r = tk_key k) (throttles db) of None \<Rightarrow> 0 | Some r \<Rightarrow> th_failures r)"

definition window_from :: "instant \<Rightarrow> throttle_key \<Rightarrow> access_db \<Rightarrow> bool" where
  "window_from t0 k db \<longleftrightarrow> (\<forall>r \<in> set (throttles db). th_key r = tk_key k \<longrightarrow> t0 \<le> th_window_started_at r)"

lemma held_row:
  assumes "window_from t0 k db" and "t0 \<le> now" "now < t0 + throttle_window cfg"
  shows "first_where (\<lambda>r. th_key r = tk_key k) (throttles (snd (held_throttle (tk_key k) now db))) = Some (key_row cfg now k db)
    \<and> th_failures (key_row cfg now k db) = failures_of k db \<and> t0 \<le> th_window_started_at (key_row cfg now k db)
    \<and> now < th_window_started_at (key_row cfg now k db) + throttle_window cfg
    \<and> window_from t0 k (snd (held_throttle (tk_key k) now db))
    \<and> failures_of k (snd (held_throttle (tk_key k) now db)) = failures_of k db"
proof (cases "first_where (\<lambda>r. th_key r = tk_key k) (throttles db)")
  case None
  then show ?thesis using assms
    by (auto simp: held_throttle_def key_row_def failures_of_def window_from_def rolled_def first_where_append row_simps Let_def)
next
  case (Some r)
  then have "r \<in> set (throttles db)" "th_key r = tk_key k" by auto
  then have "t0 \<le> th_window_started_at r" using assms(1) by (simp add: window_from_def)
  then show ?thesis using Some assms by (auto simp: held_throttle_def key_row_def failures_of_def rolled_def)
qed

lemma seconds_until_pos: "seconds_until (Some t) now \<noteq> 0"
  by (simp add: seconds_until_def)

lemma save_throttle_row:
  assumes "first_where (\<lambda>r. th_key r = tk_key k) (throttles db) = Some old" and "window_from t0 k db"
    and "th_key r = tk_key k" and "t0 \<le> th_window_started_at r"
  shows "failures_of k (save_throttle r db) = th_failures r \<and> window_from t0 k (save_throttle r db)"
proof -
  have "th_key old = tk_key k" using assms(1) by auto
  then show ?thesis using assms
    by (auto simp: failures_of_def window_from_def save_throttle_def first_where_update in_update_where)
qed

lemma guess_once_step:
  assumes w: "window_from t0 k db" and t: "t0 \<le> fst g" "fst g < t0 + throttle_window cfg"
    and run: "guess_once cfg cr k g db = (r, db')"
  shows "window_from t0 k db' \<and> (if refused_guess r
      then failures_of k db < tk_limit k \<and> failures_of k db' = Suc (failures_of k db)
      else failures_of k db' = failures_of k db)"
proof -
  obtain hnow now tnow created raw uid req code ip where g: "g = (hnow, now, tnow, created, raw, uid, req, code, ip)"
    by (cases g) auto
  let ?row = "key_row cfg hnow k db" and ?db1 = "snd (held_throttle (tk_key k) hnow db)"
  have held: "first_where (\<lambda>r. th_key r = tk_key k) (throttles ?db1) = Some ?row" "th_failures ?row = failures_of k db"
    "t0 \<le> th_window_started_at ?row" "window_from t0 k ?db1" "failures_of k ?db1 = failures_of k db"
    using held_row [OF w, of hnow cfg] t g by auto
  then have key: "th_key ?row = tk_key k" by auto
  show ?thesis
  proof (cases "tk_limit k \<le> th_failures ?row")
    case True
    then have "r = Inr \<lparr>o_status = Throttled, o_code = [], o_wait = seconds_until (Some (th_window_started_at ?row + throttle_window cfg)) hnow\<rparr>
        \<and> throttles db' = throttles ?db1"
      using run by (auto simp: g authorize_attempt_def throttled_def atomic_def hold_one seconds_until_pos Let_def)
    then show ?thesis using held by (auto simp: refused_guess_def failures_of_def window_from_def)
  next
    case False
    let ?attempt = "case uid of None \<Rightarrow> (Inr (answer NoGrant), refused_check AUTHORIZATION_REFUSED None None
        (web_context (oc_client_id (ar_client req)) ip) ''unknown_account'' ?db1)
      | Some i \<Rightarrow> authorize cfg cr now tnow created raw i req code ip ?db1"
    obtain a db2 where a: "?attempt = (a, db2)" by fastforce
    show ?thesis
    proof (cases a)
      case (Inl e)
      then have "r = Inl e" "db' = db"
        using run a False by (auto simp: g authorize_attempt_def throttled_def atomic_def hold_one Let_def)
      then show ?thesis using w by (simp add: refused_guess_def)
    next
      case (Inr out)
      then have db2: "throttles db2 = throttles ?db1" "o_status out \<noteq> Throttled"
        using a authorize_throttles authorize_outcome
        by (auto simp: answer_def split: option.splits)
      have out: "r = Inr out" "db' = charge_throttles [?row] (o_status out \<noteq> Ok) db2"
        using run a Inr False by (auto simp: g authorize_attempt_def throttled_def atomic_def hold_one Let_def)
      have "failures_of k db' = (if o_status out \<noteq> Ok then Suc (th_failures ?row) else th_failures ?row)
          \<and> window_from t0 k db'"
        unfolding out(2) charge_throttles_def
        using save_throttle_row [of k db2 ?row t0 "if o_status out \<noteq> Ok then ?row\<lparr>th_failures := Suc (th_failures ?row)\<rparr> else ?row"]
          held key db2(1) by (auto simp: window_from_def)
      then show ?thesis using out(1) db2(2) held(2) False by (auto simp: refused_guess_def)
    qed
  qed
qed

lemma guesses_bounded:
  "window_from t0 k db \<Longrightarrow> \<forall>g \<in> set gs. t0 \<le> fst g \<and> fst g < t0 + throttle_window cfg \<Longrightarrow>
     length (filter refused_guess (guess_all cfg cr k gs db)) \<le> tk_limit k - failures_of k db"
proof (induction gs arbitrary: db)
  case (Cons g gs)
  obtain r db' where run: "guess_once cfg cr k g db = (r, db')" by fastforce
  note step = guess_once_step [OF Cons.prems(1) _ _ run]
  have "length (filter refused_guess (guess_all cfg cr k gs db')) \<le> tk_limit k - failures_of k db'"
    using Cons.IH [of db'] Cons.prems step by simp
  then show ?case using step Cons.prems(2) run by (auto split: if_splits)
qed simp


text \<open>The rows of other keys that are made on the way do not matter.\<close>

lemma held_keeps:
  assumes "first_where (\<lambda>r. th_key r = key) (throttles db) = Some row"
  shows "first_where (\<lambda>r. th_key r = key) (throttles (snd (held_throttle k now db))) = Some row"
  using assms by (auto simp: held_throttle_def Let_def first_where_append split: option.splits)

lemma hold_rows_blocked:
  assumes "hold_rows cfg now ks db = ((rows, blocked), db')"
    and "first_where (\<lambda>r. th_key r = tk_key k) (throttles db) = Some row"
    and "tk_limit k \<le> th_failures row" "now < th_window_started_at row + throttle_window cfg" "k \<in> set ks"
  shows "blocked \<noteq> []"
  using assms
proof (induction ks arbitrary: rows blocked db)
  case (Cons j ks)
  let ?db1 = "snd (held_throttle (tk_key j) now db)"
  obtain rows' blocked' where rest: "hold_rows cfg now ks ?db1 = ((rows', blocked'), db')"
    using Cons.prems(1) by (auto simp: Let_def split: prod.splits)
  have kept: "first_where (\<lambda>r. th_key r = tk_key k) (throttles ?db1) = Some row"
    by (rule held_keeps [OF Cons.prems(2)])
  show ?case
  proof (cases "k = j")
    case True
    then have "fst (held_throttle (tk_key j) now db) = row" using Cons.prems(2) by (simp add: held_throttle_def)
    then show ?thesis using Cons.prems True rest by (auto simp: Let_def rolled_def split: prod.splits if_splits)
  next
    case False
    then have "blocked' \<noteq> []" using Cons.IH [OF rest kept Cons.prems(3,4)] Cons.prems(5) by simp
    then show ?thesis using Cons.prems(1) rest by (auto simp: Let_def split: prod.splits if_splits)
  qed
qed simp

lemma held_frame [simp]:
  "grants (snd (held_throttle k now db)) = grants db" "authenticators (snd (held_throttle k now db)) = authenticators db"
  "codes (snd (held_throttle k now db)) = codes db" "tokens (snd (held_throttle k now db)) = tokens db"
  "events (snd (held_throttle k now db)) = events db"
  by (simp_all add: held_throttle_def Let_def split: option.split)

lemma hold_rows_frame:
  "hold_rows cfg now ks db = (rb, db') \<Longrightarrow> grants db' = grants db \<and> authenticators db' = authenticators db
     \<and> codes db' = codes db \<and> tokens db' = tokens db \<and> events db' = events db"
proof (induction ks arbitrary: db rb)
  case (Cons k ks)
  let ?db1 = "snd (held_throttle (tk_key k) now db)"
  obtain rb' where "hold_rows cfg now ks ?db1 = (rb', db')"
    using Cons.prems by (auto simp: Let_def split: prod.splits)
  from Cons.IH [OF this] show ?case by simp
qed simp

lemma fold_max_pos: "0 < w \<Longrightarrow> 0 < fold max (map f xs) (w :: int)"
  by (induction xs arbitrary: w) (auto simp: max_def)

lemma hold_throttles_blocked:
  assumes "hold_throttles cfg now ks db = ((rows, wait), db1)"
    and "first_where (\<lambda>r. th_key r = tk_key k) (throttles db) = Some row"
    and "tk_limit k \<le> th_failures row" "now < th_window_started_at row + throttle_window cfg" "k \<in> set ks"
  shows "0 < wait"
proof -
  obtain blocked where h: "hold_rows cfg now (sort_key tk_key ks) db = ((rows, blocked), db1)"
    and w: "wait = (case map (\<lambda>r. seconds_until (Some (th_window_started_at r + throttle_window cfg)) now) blocked of
        [] \<Rightarrow> 0 | w # ws \<Rightarrow> fold max ws w)"
    using assms(1) by (auto simp: hold_throttles_def Let_def split: prod.splits)
  have "blocked \<noteq> []" using hold_rows_blocked [OF h assms(2-4)] assms(5) by simp
  moreover have "0 < seconds_until (Some t) now" for t by (simp add: seconds_until_def)
  ultimately show ?thesis unfolding w by (cases blocked) (simp_all add: fold_max_pos)
qed

text \<open>Nothing is checked once a key is at its limit.\<close>

theorem throttled_attempt_checks_nothing:
  assumes row: "first_where (\<lambda>r. th_key r = tk_key k) (throttles db) = Some row" "k \<in> set ks"
      "tk_limit k \<le> th_failures row" "hnow < th_window_started_at row + throttle_window cfg"
    and run: "authorize_attempt cfg cr hnow now tnow created raw uid req code ip ks db = (r, db')"
  shows "\<exists>wait. r = Inr \<lparr>o_status = Throttled, o_code = [], o_wait = wait\<rparr> \<and> 0 < wait
    \<and> grants db' = grants db \<and> authenticators db' = authenticators db \<and> codes db' = codes db \<and> tokens db' = tokens db
    \<and> (\<exists>e. events db' = events db @ [e] \<and> e_type e = AUTHORIZATION_REFUSED \<and> \<not> e_succeeded e)"
proof -
  obtain rows wait db1 where h: "hold_throttles cfg hnow ks db = ((rows, wait), db1)" by (metis surj_pair)
  have "0 < wait" by (rule hold_throttles_blocked [OF h row(1,3,4,2)])
  moreover obtain rb where "hold_rows cfg hnow (sort_key tk_key ks) db = (rb, db1)"
    using h by (auto simp: hold_throttles_def Let_def split: prod.splits)
  ultimately have same: "grants db1 = grants db" "authenticators db1 = authenticators db" "codes db1 = codes db"
    "tokens db1 = tokens db" "events db1 = events db"
    using hold_rows_frame by auto
  have "r = Inr \<lparr>o_status = Throttled, o_code = [], o_wait = wait\<rparr>"
    "db' = refused_check AUTHORIZATION_REFUSED uid None (web_context (oc_client_id (ar_client req)) ip) ''throttled'' db1"
    using run h \<open>0 < wait\<close> by (simp_all add: authorize_attempt_def throttled_def atomic_def)
  then show ?thesis using \<open>0 < wait\<close> same by (simp add: refused_check_def record_event_def)
qed

section \<open>On the example\<close>

definition example_grant :: grant where
  "example_grant = hd (grants (example_after 4))"

theorem wrong_codes_suspend_witness:
  "is_suspended (foldl (\<lambda>g now. counted now g) example_grant (replicate 20 (seconds 3000)))"
proof -
  have "counters_ok example_grant" "20 \<le> guesses_spent example_grant + length (replicate 20 (seconds 3000))"
    by code_simp+
  with wrong_codes_suspend [of example_grant "replicate 20 (seconds 3000)"] show ?thesis by simp
qed

definition example_attempt :: "string \<Rightarrow> access_db \<Rightarrow> (refusal exn + outcome) \<times> access_db" where
  "example_attempt code = authorize example_settings example_crypto (seconds 2000) (seconds 2000) (seconds 2001)
     (raw_of CHR ''c'') 1 example_request code None"

lemma example_rows:
  "active_grant (example_after 4) 1 = Some example_grant"
  "user_by_id (example_after 4) 1 = Some example_specialist"
  "may_connect example_settings (break_glasses (example_after 4)) (seconds 2000) (Some example_specialist) (Some example_grant)"
  "map_option (\<lambda>a. unseal example_settings example_crypto (a_encrypted_secret a))
     (authenticator_of (example_after 4) (g_id example_grant)) = Some (Some ''s'')"
  "code_step example_settings example_crypto (seconds 2000) (authenticator_of (example_after 4) (g_id example_grant)) ''123456'' = None"
  "code_step example_settings example_crypto (seconds 2000) (authenticator_of (example_after 4) (g_id example_grant)) ''000066'' = Some 66"
  by code_simp+

theorem wrong_code_counted_witness:
  "active_grant (snd (example_attempt ''123456'' (example_after 4))) 1 = Some (counted (seconds 2000) example_grant)"
proof -
  let ?h = "history example_crypto (take 4 example_ops)"
  have readable: "\<forall>a. authenticator_of ?h (g_id example_grant) = Some a \<longrightarrow>
      unseal example_settings example_crypto (a_encrypted_secret a) \<noteq> None"
    using example_rows(4) by (auto simp: example_after_def)
  have run: "example_attempt ''123456'' ?h = (fst (example_attempt ''123456'' ?h), snd (example_attempt ''123456'' ?h))" by simp
  show ?thesis
    using wrong_code_counted [OF _ _ _ readable _ run [unfolded example_attempt_def]] example_rows(1,2,3,5)
    by (simp add: example_after_def example_attempt_def)
qed

definition example_check :: "access_db \<Rightarrow> (outcome + instant) \<times> access_db" where
  "example_check = check_personal_code example_settings example_crypto (seconds 2000) (seconds 2000)
     (Some example_specialist) (Some example_grant) True ''no_active_grant'' ''000066'' (web_context [] None)
     AUTHORIZATION_REFUSED"

theorem code_never_accepted_twice_witness:
  "\<exists>m. code_step example_settings example_crypto (seconds 3000)
     (authenticator_of (snd (example_check (example_after 4))) (g_id example_grant)) ''999999'' = Some m \<and> 66 < m"
proof -
  let ?h = "history example_crypto (take 4 example_ops)"
  have g: "example_grant \<in> set (grants ?h)" "g_status example_grant = Active"
    using example_rows(1) by (auto simp: active_grant_def example_after_def)
  have first: "code_step example_settings example_crypto (seconds 2000) (authenticator_of ?h (g_id example_grant)) ''000066'' = Some 66"
    using example_rows(6) by (simp add: example_after_def)
  have check: "example_check ?h = (fst (example_check ?h), snd (example_check ?h))" by simp
  have again: "code_step example_settings example_crypto (seconds 3000)
      (authenticator_of (snd (example_check (example_after 4))) (g_id example_grant)) ''999999'' = Some 99"
    by code_simp
  then have "code_step example_settings example_crypto (seconds 3000)
      (authenticator_of (foldl (access_step example_crypto) (snd (example_check ?h)) []) (g_id example_grant)) ''999999'' = Some 99"
    by (simp add: example_after_def)
  from code_never_accepted_twice [OF g first check [unfolded example_check_def] this [unfolded example_check_def]] again
  show ?thesis by blast
qed

theorem authorize_sound_witness:
  "\<exists>out db'. example_attempt ''000066'' (example_after 4) = (Inr out, db') \<and> o_status out = Ok \<and>
     (\<exists>c. codes db' = codes (example_after 4) @ [c] \<and> c_redirect_uri c = ''https://c.ee/cb'')"
proof -
  have "(case example_attempt ''000066'' (example_after 4) of (Inr out, _) \<Rightarrow> o_status out = Ok | _ \<Rightarrow> False)"
    by code_simp
  then obtain out db' where r: "example_attempt ''000066'' (example_after 4) = (Inr out, db')" "o_status out = Ok"
    by (auto split: prod.splits sum.splits)
  moreover have "ar_redirect_uri example_request = ''https://c.ee/cb''" by code_simp
  ultimately show ?thesis using authorize_sound [OF r(1) [unfolded example_attempt_def] r(2)] by fastforce
qed

definition example_guess :: guess where
  "example_guess = (seconds 2000, seconds 2000, seconds 2000, seconds 2001, raw_of CHR ''c'', Some 1, example_request,
     ''123456'', None)"

definition example_key :: throttle_key where
  "example_key = \<lparr>tk_key = ''s'', tk_limit = 2\<rparr>"


theorem throttled_attempt_checks_nothing_witness:
  "\<exists>wait > 0. fst (authorize_attempt example_settings example_crypto (seconds 2100) (seconds 2100) (seconds 2100)
     (seconds 2100) (raw_of CHR ''x'') (Some 1) example_request ''000066'' None [example_key]
     ((example_after 4)\<lparr>throttles := [\<lparr>th_key = ''s'', th_failures = 2, th_window_started_at = seconds 2000\<rparr>]\<rparr>)) =
     Inr \<lparr>o_status = Throttled, o_code = [], o_wait = wait\<rparr>"
proof -
  let ?row = "\<lparr>th_key = ''s'', th_failures = 2, th_window_started_at = seconds 2000\<rparr>"
  have "first_where (\<lambda>r. th_key r = tk_key example_key) (throttles ((example_after 4)\<lparr>throttles := [?row]\<rparr>)) = Some ?row"
    "example_key \<in> set [example_key]" "tk_limit example_key \<le> th_failures ?row"
    "seconds 2100 < th_window_started_at ?row + throttle_window example_settings"
    by (simp add: row_simps example_key_def, simp, simp add: example_key_def, code_simp)
  from throttled_attempt_checks_nothing [OF this surjective_pairing] show ?thesis by blast
qed

end
