(* ===== verification/ConnectionProperties.thy ===== *)
theory ConnectionProperties
  imports LockoutProperties
begin

text \<open>
  Connecting, end to end: who may connect does not depend on break-glass, a consent leads to
  tokens when its client presents the code in time, and an issued access token verifies until it
  expires. These are what the refusals proved elsewhere leave room for.
\<close>

section \<open>Who may connect does not depend on break-glass\<close>

lemma read_role_reads: "acting_role p \<in> set roles_with_business_read \<Longrightarrow> read_basis_of bgs now p = ByRole"
  by (auto simp: read_basis_of_def roles_with_business_read_def Let_def no_role_def)

lemma connect_later: "may_connect cfg bgs now uo go \<Longrightarrow> may_connect cfg bgs' now' uo go"
proof -
  have "acting_role (Person u) \<in> set roles_with_business_read" if "grant_refusal cfg bgs now u = None" for u
    using that by (auto simp: grant_refusal_def split: if_splits)
  then show "may_connect cfg bgs now uo go \<Longrightarrow> may_connect cfg bgs' now' uo go"
    by (auto simp: may_connect_def grant_refusal_def may_read_business_content_def read_role_reads
        split: option.splits if_splits)
qed

text \<open>No temporary grant of reading lets an account connect a client.\<close>

theorem connect_independent_of_break_glass:
  "may_connect cfg bgs now uo go = may_connect cfg bgs' now' uo go"
  by (blast intro: connect_later)

section \<open>A consent leads to tokens\<close>

lemma issue_pair_fresh:
  assumes "\<forall>t \<in> set (tokens db). t_digest t \<noteq> digest cr (fst raws) \<and> t_digest t \<noteq> digest cr (snd raws)"
    and "digest cr (fst raws) \<noteq> digest cr (snd raws)"
  shows "\<exists>issued j db'. issue_pair cfg cr now raws pr db = (Inr (issued, j), db')"
  using assms by (auto simp: issue_pair_def fresh_def create_token_def new_token_def Let_def)


text \<open>The tokens of an exchange work at once.\<close>

lemma exchange_rows:
  assumes "exchange_code cfg cr now raws cid code uri verifier resource ip am db = (Inr (Inr issued), db')"
  obtains c g u i where "c \<in> set (codes db)" "grant_by_id db (c_grant c) = Some g"
    "still_may_connect cfg now g (c_user c) (c_user_epoch c) db = Some u" "resource_is_allowed cfg (c_resource c)"
    "it_access_token issued = fst raws"
    "it_scope issued = narrow_scope cfg (c_scope c) (may_write cfg (break_glasses db) now (Some u) (Some g) \<and>
        write_enablement_covers g (Some (c_created_at c)))"
    "\<exists>t \<in> set (tokens db'). t_id t = i \<and> t_digest t = digest cr (fst raws) \<and> t_kind t = Access \<and> t_revoked_at t = None
      \<and> t_expires_at t = now + seconds (access_token_seconds cfg) \<and> t_scopes t = it_scope issued
      \<and> t_resource t = c_resource c \<and> t_grant t = g_id g \<and> t_user t = u_id u \<and> t_user_epoch t = u_epoch u"
    "users db' = users db" "break_glasses db' = break_glasses db" "grants db' = grants db"
proof -
  obtain d c where d: "first_where (\<lambda>c. c_digest c = d) (codes db) = Some c"
      "code_problem cfg cr now cid uri verifier resource c = None"
    and out: "exchange_spent cfg cr now raws cid ip am c
        (save_code (c_id c) (\<lambda>e. e\<lparr>c_used_at := Some now\<rparr>) db) = (Inr (Inr issued), db')"
    using assms by (auto simp: exchange_code_def atomic_return code_refused_def Let_def
        split: option.splits if_splits)
  let ?db1 = "save_code (c_id c) (\<lambda>e. e\<lparr>c_used_at := Some now\<rparr>) db"
  obtain g u where g: "grant_by_id ?db1 (c_grant c) = Some g"
    and u: "still_may_connect cfg now g (c_user c) (c_user_epoch c) ?db1 = Some u"
    using out by (auto simp: exchange_spent_def code_refused_def split: option.splits)
  let ?pr = "\<lparr>pr_grant = g, pr_user = u, pr_client_id = c_client_id c,
    pr_scopes = narrow_scope cfg (c_scope c) (may_write cfg (break_glasses db) now (Some u) (Some g) \<and>
               write_enablement_covers g (Some (c_created_at c))),
    pr_resource = c_resource c, pr_family_id = next_id db, pr_started_at = now, pr_auth_method = am\<rparr>"
  obtain j db2 e
    where p: "issue_pair cfg cr now raws ?pr (?db1\<lparr>next_id := Suc (next_id db)\<rparr>) = (Inr (issued, j), db2)"
    and db': "db' = record_event TOKEN_ISSUED True (Some (u_id u)) (Some (g_id g)) (web_context cid ip) e
         (save_code (c_id c) (\<lambda>d. d\<lparr>c_family_id := Some (next_id db)\<rparr>) db2)"
    using out g u by (auto simp: exchange_spent_def fresh_def Let_def split: prod.splits sum.splits)
  have frame: "users db' = users db" "break_glasses db' = break_glasses db" "grants db' = grants db"
    unfolding db' issue_pair_Inr(1) [OF p] by (simp_all add: add_pair_def)
  have row: "\<exists>t \<in> set (tokens db'). t_id t = Suc (next_id db) \<and> t_digest t = digest cr (fst raws) \<and> t_kind t = Access
      \<and> t_revoked_at t = None \<and> t_expires_at t = now + seconds (access_token_seconds cfg) \<and> t_scopes t = it_scope issued
      \<and> t_resource t = c_resource c \<and> t_grant t = g_id g \<and> t_user t = u_id u \<and> t_user_epoch t = u_epoch u"
    unfolding db' issue_pair_Inr(1,5) [OF p] by (simp add: add_pair_def access_of_def new_token_def)
  show thesis
    by (rule that [of c g u "Suc (next_id db)"])
      (use d g u row frame issue_pair_Inr(5) [OF p] in \<open>auto simp: code_problem_def split: if_splits\<close>)
qed

text \<open>C30: an issued token verifies.\<close>

theorem issued_token_verifies:
  assumes exchange: "exchange_code cfg cr now raws cid code uri verifier resource ip am (history cr ops) = (Inr (Inr issued), db1)"
    and live: "is_enabled cfg" "later < now + seconds (access_token_seconds cfg)"
    and names: "is_word (read_scope_name cfg)" "is_word (write_scope_name cfg)"
    and drawn: "is_opaque (fst raws)"
  shows "\<exists>va. verify_access_token cfg cr later (it_access_token issued) db1 = Some va \<and> va_scopes va = scope_words (it_scope issued)"
proof (rule exchange_rows [OF exchange])
  let ?db = "history cr ops"
  fix c g u i
  assume *: "grant_by_id ?db (c_grant c) = Some g"
    "still_may_connect cfg now g (c_user c) (c_user_epoch c) ?db = Some u" "resource_is_allowed cfg (c_resource c)"
    "it_access_token issued = fst raws"
    "it_scope issued = narrow_scope cfg (c_scope c) (may_write cfg (break_glasses ?db) now (Some u) (Some g) \<and>
        write_enablement_covers g (Some (c_created_at c)))"
    "\<exists>t \<in> set (tokens db1). t_id t = i \<and> t_digest t = digest cr (fst raws) \<and> t_kind t = Access \<and> t_revoked_at t = None
      \<and> t_expires_at t = now + seconds (access_token_seconds cfg) \<and> t_scopes t = it_scope issued
      \<and> t_resource t = c_resource c \<and> t_grant t = g_id g \<and> t_user t = u_id u \<and> t_user_epoch t = u_epoch u"
    "users db1 = users ?db" "break_glasses db1 = break_glasses ?db" "grants db1 = grants ?db"
  then obtain t where t: "t \<in> set (tokens db1)" "t_digest t = digest cr (fst raws)" "t_kind t = Access" "t_revoked_at t = None"
    "t_expires_at t = now + seconds (access_token_seconds cfg)" "t_scopes t = it_scope issued"
    "t_resource t = c_resource c" "t_grant t = g_id g" "t_user t = u_id u" "t_user_epoch t = u_epoch u" by blast
  have inv1: "access_inv db1"
    using reaches_inv [OF exchange_code_reaches [OF history_inv] history_inv, of cfg cr now raws cid code uri verifier resource ip am cr ops]
      exchange by simp
  have by_id: "user_by_id ?db (c_user c) = Some u" and mc: "may_connect cfg (break_glasses ?db) now (Some u) (Some g)"
    using *(2) by (auto simp: still_may_connect_def split: option.splits if_splits)
  then have "u_id u = c_user c" "u \<in> set (users ?db)" by auto
  then have u: "u \<in> set (users db1)" "user_by_id db1 (t_user t) = Some u" "may_connect cfg (break_glasses db1) now (Some u) (Some g)"
    using by_id mc *(7,8) t(9) by (simp_all add: user_by_id_def)
  have g: "g \<in> set (grants db1)" "grant_by_id db1 (t_grant t) = Some g"
    using *(1,9) t(8) grant_by_member [OF history_inv, of g cr ops] by (auto simp: grant_by_id_def)
  have "first_where (\<lambda>s. t_digest s = digest cr (fst raws) \<and> t_kind s = Access) (tokens db1) = Some t"
  proof (cases "first_where (\<lambda>s. t_digest s = digest cr (fst raws) \<and> t_kind s = Access) (tokens db1)")
    case None
    then show ?thesis using t by (auto simp: first_where_None)
  next
    case (Some s)
    then have "s \<in> set (tokens db1)" "t_digest s = t_digest t" using t(2) by auto
    then have "s = t" using inv1 t(1) by (auto simp: access_inv_def tokens_ok_def dest: unique_onD)
    then show ?thesis using Some by simp
  qed
  moreover have "token_passes cfg later t"
    using t live *(3,5) narrow_scope_words [OF names] by (simp add: token_passes_def scope_set_def scope_words_def)
  moreover have "account_passes cfg (break_glasses db1) later t (Some g) (Some u)"
    using connect_later [OF u(3)] t(10) by (simp add: account_passes_def) (simp add: may_connect_def)
  moreover have "opaque_digest cr (fst raws) = Some (digest cr (fst raws))" using drawn by (simp add: opaque_digest_Some)
  ultimately show ?thesis
    using live u g t(6) *(4) by (simp add: verify_access_token_def scope_set_def)
qed

section \<open>On the example\<close>


theorem issued_token_verifies_witness:
  "\<exists>va. verify_access_token example_settings example_crypto (seconds 2500) (raw_of CHR ''A'') (example_after 6) = Some va
     \<and> va_scopes va = scope_words ''juristid.read juristid.write''"
proof -
  have live: "is_enabled example_settings" "seconds 2500 < seconds 2010 + seconds (access_token_seconds example_settings)"
    "is_opaque (fst (raw_of CHR ''A'', raw_R))" by code_simp+
  from issued_token_verifies [OF example_first_exchange live(1,2) example_words(1,2) live(3)]
  show ?thesis by (simp add: example_pair_def)
qed

end
