(* ===== verification/EnrolmentProperties.thy ===== *)
theory EnrolmentProperties
  imports TokenProperties
begin

text \<open>
  Enrolment: what an operator hands out is read back, which values reach a query at all, what
  confirming an enrolment needs, and that a link enrols once, whatever happens in between.
\<close>

section \<open>Links\<close>

lemma hex_no_dot: "list_all hex_char s \<Longrightarrow> CHR ''.'' \<notin> set s" "list_all hex_char s \<Longrightarrow> list_all (\<lambda>c. \<not> is_space c) s"
proof -
  have "\<not> hex_char CHR ''.''" by (simp add: hex_char_def less_eq_char_def)
  then show "list_all hex_char s \<Longrightarrow> CHR ''.'' \<notin> set s" by (auto simp: list_all_iff)
  have "\<not> is_space c" if "hex_char c" for c
    using that by (auto simp: hex_char_def is_space_def less_eq_char_def)
  then show "list_all hex_char s \<Longrightarrow> list_all (\<lambda>c. \<not> is_space c) s" by (simp add: list_all_iff)
qed

lemma opaque_no_space: "list_all opaque_char s \<Longrightarrow> list_all (\<lambda>c. \<not> is_space c) s"
proof -
  have "\<not> is_space c" if "opaque_char c" for c
    using that by (auto simp: opaque_char_def is_space_def less_eq_char_def)
  then show "list_all opaque_char s \<Longrightarrow> list_all (\<lambda>c. \<not> is_space c) s" by (simp add: list_all_iff)
qed

text \<open>An issued link is read back.\<close>

theorem link_roundtrip:
  assumes "list_all hex_char selector" "length selector = 32" "list_all opaque_char verifier" "length verifier = 43"
    and hex: "list_all hex_char (digest cr verifier)" "length (digest cr verifier) = 64"
  shows "split_proof (link_proof cr (nl_token (new_link cr selector verifier))) =
    Some (nl_selector (new_link cr selector verifier), nl_verifier_digest (new_link cr selector verifier))"
proof -
  have dot: "\<not> is_space CHR ''.''" by (simp add: is_space_def)
  have strip: "strip (selector @ CHR ''.'' # verifier) = selector @ CHR ''.'' # verifier"
    "strip (selector @ CHR ''.'' # digest cr verifier) = selector @ CHR ''.'' # digest cr verifier"
    using assms hex_no_dot(2) [OF assms(1)] hex_no_dot(2) [OF hex(1)] opaque_no_space [OF assms(3)] dot
    by (intro strip_no_space; simp)+
  have "is_selector selector" "is_opaque verifier" "is_digest (digest cr verifier)"
    using assms by (simp_all add: is_selector_def is_opaque_def is_digest_def re_match_def in_range_def)
  then show ?thesis
    using strip hex_no_dot(1) [OF assms(1)]
    by (simp add: new_link_def link_proof_def split_proof_def partition_first)
qed

theorem link_roundtrip_witness:
  "split_proof (link_proof example_crypto (nl_token (new_link example_crypto example_selector (raw_of CHR ''f'')))) =
     Some (example_selector, digest example_crypto (raw_of CHR ''f''))"
proof -
  have "list_all hex_char example_selector" "length example_selector = 32" "list_all opaque_char (raw_of CHR ''f'')"
    "length (raw_of CHR ''f'') = 43" "list_all hex_char (digest example_crypto (raw_of CHR ''f''))"
    "length (digest example_crypto (raw_of CHR ''f'')) = 64"
    by code_simp+
  from link_roundtrip [OF this] show ?thesis by (simp add: new_link_def)
qed

text \<open>Which values reach a query.\<close>

theorem opaque_shape:
  "opaque_digest cr raw \<noteq> None \<longleftrightarrow>
     (\<exists>w. length w = 43 \<and> list_all opaque_char w \<and> (raw = w \<or> raw = w @ [newline]))"
proof -
  have "(\<exists>w. length w = 43 \<and> list_all opaque_char w \<and> raw = w @ [newline]) \<longleftrightarrow>
      raw \<noteq> [] \<and> last raw = newline \<and> length (butlast raw) = 43 \<and> list_all opaque_char (butlast raw)"
    by (metis append_butlast_last_id butlast_snoc last_snoc snoc_eq_iff_butlast)
  then show ?thesis
    by (auto simp: opaque_digest_def is_opaque_def re_match_def in_range_def)
qed

section \<open>Enrolment\<close>

text \<open>What a move leaves of a link, and of a grant that has been enrolled.\<close>

lemma moves_link:
  "moves db db' \<Longrightarrow> l \<in> set (links db) \<Longrightarrow>
     \<exists>k \<in> set (links db'). l_selector k = l_selector l \<and> l_grant k = l_grant l"
proof (induction rule: moves.induct)
  case (new_link db gid m now)
  let ?k = "if l_grant l = gid \<and> link_live l then l\<lparr>l_invalidated_at := Some now\<rparr> else l"
  have "?k \<in> set (links (invalidate_links gid now db))"
    using new_link by (auto simp: invalidate_links_def in_update_where)
  then show ?case by (intro bexI [of _ ?k]) auto
next
  case (end_grant g db reason now)
  let ?k = "if l_grant l = g_id g \<and> link_live l then l\<lparr>l_invalidated_at := Some now\<rparr> else l"
  have "?k \<in> set (links (snd (end_grant g reason now db)))"
    using end_grant by (auto simp: end_grant_simps in_update_where)
  then show ?case by (intro bexI [of _ ?k]) auto
next
  case (enrol m db g a now)
  let ?k = "if l_id l = l_id m then l\<lparr>l_used_at := Some now\<rparr> else l"
  show ?case using enrol
    by (intro bexI [of _ ?k]) (auto simp: save_grant_def save_link_def in_update_where)
qed (auto simp: save_grant_def add_pair_def revoke_tokens_simps use_code_def save_code_def rotate_token_def
    save_token_def save_authenticator_def)

lemma moves_enrolled:
  assumes "moves db db'" and "access_inv db" and "g \<in> set (grants db)" and "g_status g \<noteq> PendingEnrolment"
  shows "\<exists>h \<in> set (grants db'). g_id h = g_id g \<and> g_user h = g_user g \<and> g_status h \<noteq> PendingEnrolment"
  using assms
proof (induction rule: moves.induct)
  case (edit_grant db i f)
  let ?h = "if g_id g = i then f g else g"
  have "?h \<in> set (grants (save_grant i f db))"
    using edit_grant(3) by (auto simp: save_grant_def in_update_where)
  then show ?case using edit_grant by (intro bexI [of _ ?h]) (auto simp: keeps_grant_def)
next
  case (end_grant h db reason now)
  let ?h = "if g_id g = g_id h then g\<lparr>g_status := Revoked, g_revoked_at := Some now, g_revoke_reason := take 300 reason\<rparr> else g"
  have "?h \<in> set (grants (snd (end_grant h reason now db)))"
    using end_grant by (auto simp: end_grant_simps in_update_where)
  then show ?case using end_grant by (intro bexI [of _ ?h]) auto
next
  case (enrol l db h a now)
  then have "g_id g \<noteq> g_id h" by (auto simp: access_inv_def grants_ok_def dest: unique_onD)
  then show ?case
    using enrol by (intro bexI [of _ g]) (auto simp: save_grant_def save_link_def kept_update)
qed (auto simp: invalidate_links_def save_link_def add_pair_def revoke_tokens_simps use_code_def
    save_code_def rotate_token_def save_token_def save_authenticator_def intro: bexI)

lemma reaches_enrolled:
  assumes "reaches db db'" and "access_inv db"
  shows "l \<in> set (links db) \<Longrightarrow> \<exists>k \<in> set (links db'). l_selector k = l_selector l \<and> l_grant k = l_grant l"
    and "g \<in> set (grants db) \<Longrightarrow> g_status g \<noteq> PendingEnrolment \<Longrightarrow>
      \<exists>h \<in> set (grants db'). g_id h = g_id g \<and> g_status h \<noteq> PendingEnrolment"
  using assms
proof (induction rule: rtranclp_induct)
  case (step y z)
  { case 1 then show ?case using step moves_link by metis
  next case 2
    then obtain h where "h \<in> set (grants y)" "g_id h = g_id g" "g_status h \<noteq> PendingEnrolment" using step by auto
    then show ?case using moves_enrolled [OF step(2) reaches_inv [OF step(1) 2(3)]] by metis }
qed auto

lemma confirm_success:
  assumes "confirm_enrolment cfg cr now tnow nonce proof uid sealed code ip db = (Inr True, db')"
  obtains selector vd u l g sec n where "split_proof proof = Some (selector, vd)" "user_by_id db uid = Some u"
    "first_where (\<lambda>l. l_selector l = selector) (links db) = Some l" "same (l_verifier_digest l) vd"
    "grant_by_id db (l_grant l) = Some g" "enrolment_problem_of cfg db now u g l = None"
    "unseal cfg cr sealed = Some sec" "matching_step cr tnow sec code 0 = Some n"
    "\<forall>a \<in> set (authenticators db). a_grant a \<noteq> g_id g"
    "authenticators db' = authenticators db @ [\<lparr>a_grant = g_id g, a_encrypted_secret = seal cfg cr nonce sec,
       a_last_used_step = n, a_confirmed_at = now\<rparr>]"
    "links db' = update_where (\<lambda>k. l_id k = l_id l) (\<lambda>k. k\<lparr>l_used_at := Some now\<rparr>) (links db)"
    "grants db' = update_where (\<lambda>h. g_id h = g_id g) (\<lambda>h. h\<lparr>g_status := Active, g_activated_at := Some now,
       g_failed_attempts := 0, g_locked_until := None\<rparr>) (grants db)"
  using assms
  by (auto simp: confirm_enrolment_def atomic_return Let_def create_authenticator_def save_grant_def save_link_def
      split: option.splits prod.splits if_splits)

text \<open>C31: what an enrolment needs and does.\<close>

theorem enrolment_sound:
  assumes "confirm_enrolment cfg cr now tnow nonce proof uid sealed code ip (history cr ops) = (Inr True, db')"
  shows "\<exists>selector vd. split_proof proof = Some (selector, vd) \<and>
    (\<exists>l \<in> set (links (history cr ops)). \<exists>g \<in> set (grants (history cr ops)). \<exists>u \<in> set (users (history cr ops)). \<exists>n.
       l_selector l = selector \<and> same (l_verifier_digest l) vd \<and> link_usable_at l now \<and> l_grant l = g_id g
     \<and> g_user g = uid \<and> u_id u = uid \<and> g_status g = PendingEnrolment
     \<and> grant_refusal cfg (break_glasses (history cr ops)) now u = None
     \<and> map_option (\<lambda>sec. matching_step cr tnow sec code 0) (unseal cfg cr sealed) = Some (Some n)
     \<and> map_option a_last_used_step (authenticator_of db' (g_id g)) = Some n
     \<and> owned (grants db') (g_id g) uid (\<lambda>s. s = Active))"
proof (rule confirm_success [OF assms])
  let ?db = "history cr ops"
  fix selector vd u l g sec n
  assume *: "split_proof proof = Some (selector, vd)" "user_by_id ?db uid = Some u"
    "first_where (\<lambda>l. l_selector l = selector) (links ?db) = Some l" "same (l_verifier_digest l) vd"
    "grant_by_id ?db (l_grant l) = Some g" "enrolment_problem_of cfg ?db now u g l = None"
    "unseal cfg cr sealed = Some sec" "matching_step cr tnow sec code 0 = Some n"
    "\<forall>a \<in> set (authenticators ?db). a_grant a \<noteq> g_id g"
    "authenticators db' = authenticators ?db @ [\<lparr>a_grant = g_id g, a_encrypted_secret = seal cfg cr nonce sec,
       a_last_used_step = n, a_confirmed_at = now\<rparr>]"
    "grants db' = update_where (\<lambda>h. g_id h = g_id g) (\<lambda>h. h\<lparr>g_status := Active, g_activated_at := Some now,
       g_failed_attempts := 0, g_locked_until := None\<rparr>) (grants ?db)"
  have ok: "g_user g = u_id u" "link_usable_at l now" "g_status g = PendingEnrolment"
    "grant_refusal cfg (break_glasses ?db) now u = None"
    using *(6) by (auto simp: enrolment_problem_of_def split: if_splits)
  have rows: "l \<in> set (links ?db)" "l_selector l = selector" "g \<in> set (grants ?db)" "g_id g = l_grant l"
    "u \<in> set (users ?db)" "u_id u = uid"
    using *(2,3,5) by auto
  have "first_where (\<lambda>a. a_grant a = g_id g) (authenticators ?db) = None" using *(9) by (simp add: first_where_None)
  then have a: "map_option a_last_used_step (authenticator_of db' (g_id g)) = Some n"
    by (simp add: authenticator_of_def *(10) first_where_append first_where_simps)
  have h: "owned (grants db') (g_id g) uid (\<lambda>s. s = Active)"
    unfolding *(11) owned_def using rows(3,6) ok(1) by (auto simp: bex_update_where)
  show ?thesis
    using *(1,4,7,8) ok rows a h
    by - (rule exI [of _ selector], rule exI [of _ vd],
      intro conjI bexI [of _ l] bexI [of _ g] bexI [of _ u] exI [of _ n], simp_all)
qed

text \<open>A link enrols once.\<close>

theorem link_enrols_once:
  assumes first: "confirm_enrolment cfg cr now tnow nonce proof uid sealed code ip (history cr ops) = (Inr True, db1)"
    and same_link: "map_option fst (split_proof proof') = map_option fst (split_proof proof)"
    and second: "confirm_enrolment cfg' cr now' tnow' nonce' proof' uid' sealed' code' ip' (foldl (access_step cr) db1 later) = (r, db2)"
  shows "r \<noteq> Inr True"
proof
  assume ok: "r = Inr True"
  let ?db = "history cr ops" and ?mid = "foldl (access_step cr) db1 later"
  note second' = second [unfolded ok]
  have inv: "access_inv ?db" by (rule history_inv)
  have inv1: "access_inv db1"
    using reaches_inv [OF confirm_enrolment_reaches inv, of cfg cr now tnow nonce "proof" uid sealed code ip] first by simp
  note run = run_reaches [OF inv1, of cr later]
  note inv2 = reaches_inv [OF run inv1]
  obtain s vd l g where 1: "split_proof proof = Some (s, vd)" "first_where (\<lambda>l. l_selector l = s) (links ?db) = Some l"
    "grant_by_id ?db (l_grant l) = Some g"
    "links db1 = update_where (\<lambda>k. l_id k = l_id l) (\<lambda>k. k\<lparr>l_used_at := Some now\<rparr>) (links ?db)"
    "grants db1 = update_where (\<lambda>h. g_id h = g_id g) (\<lambda>h. h\<lparr>g_status := Active, g_activated_at := Some now,
       g_failed_attempts := 0, g_locked_until := None\<rparr>) (grants ?db)"
    by (rule confirm_success [OF first]) blast
  obtain s' vd' u l' g' where 2: "split_proof proof' = Some (s', vd')"
    "first_where (\<lambda>l. l_selector l = s') (links ?mid) = Some l'" "grant_by_id ?mid (l_grant l') = Some g'"
    "enrolment_problem_of cfg' ?mid now' u g' l' = None"
    by (rule confirm_success [OF second']) blast
  have s: "s' = s" using same_link 1(1) 2(1) by simp
  have l: "l \<in> set (links ?db)" "l_selector l = s" and g: "g \<in> set (grants ?db)" "g_id g = l_grant l" using 1(2,3) by auto
  have "l\<lparr>l_used_at := Some now\<rparr> \<in> set (links db1)" unfolding 1(4) using l(1) by (auto simp: in_update_where)
  then obtain k where k: "k \<in> set (links ?mid)" "l_selector k = s" "l_grant k = l_grant l"
    using reaches_enrolled(1) [OF run inv1, of "l\<lparr>l_used_at := Some now\<rparr>"] l(2) by auto
  have "l' \<in> set (links ?mid)" "l_selector l' = s" using 2(2) s by auto
  then have "l' = k" using inv2 k by (auto simp: access_inv_def links_ok_def dest: unique_onD)
  have "\<exists>h \<in> set (grants db1). g_id h = g_id g \<and> g_status h = Active"
    unfolding 1(5) using g(1) by (auto simp: bex_update_where)
  then obtain h where "h \<in> set (grants ?mid)" "g_id h = g_id g" "g_status h \<noteq> PendingEnrolment"
    using reaches_enrolled(2) [OF run inv1] by (metis grant_status.distinct(1))
  moreover have "g' \<in> set (grants ?mid)" "g_id g' = l_grant l" using 2(3) \<open>l' = k\<close> k(3) by auto
  ultimately have "g_status g' \<noteq> PendingEnrolment" using same_grant [OF inv2] g(2) by metis
  then show False using 2(4) by (auto simp: enrolment_problem_of_def split: if_splits)
qed

section \<open>On the example\<close>

definition example_proof :: string where
  "example_proof = example_selector @ CHR ''.'' # replicate 64 CHR ''f''"

definition example_enrolment :: "access_db \<Rightarrow> (refusal exn + bool) \<times> access_db" where
  "example_enrolment = confirm_enrolment example_settings example_crypto (seconds 1010) (seconds 1010) ''n''
     example_proof 1 ''n.s'' ''000033'' None"

lemma example_enrols:
  "example_enrolment (history example_crypto (take 2 example_ops)) =
     (Inr True, snd (example_enrolment (history example_crypto (take 2 example_ops))))"
proof -
  have "fst (example_enrolment (history example_crypto (take 2 example_ops))) = Inr True" by code_simp
  then show ?thesis by (simp add: prod_eq_iff)
qed

theorem enrolment_sound_witness:
  "\<exists>l \<in> set (links (history example_crypto (take 2 example_ops))). l_selector l = example_selector"
proof -
  have "map_option fst (split_proof example_proof) = Some example_selector" by code_simp
  then show ?thesis
    using enrolment_sound [OF example_enrols [unfolded example_enrolment_def]] by auto
qed

theorem link_enrols_once_witness:
  "fst (example_enrolment (snd (example_enrolment (history example_crypto (take 2 example_ops))))) \<noteq> Inr True"
  using link_enrols_once [OF example_enrols [unfolded example_enrolment_def] refl, of example_settings "seconds 1010"
      "seconds 1010" "''n''" 1 "''n.s''" "''000033''" None "[]", OF prod.collapse [symmetric]]
  by (simp add: example_enrolment_def)

end
