(* ===== verification/Calendar.thy ===== *)
theory Calendar
  imports Prelude
begin

text \<open>
  \<open>src/app/core/dates.py\<close>: how a date is written, read and moved, over Python's
  \<open>datetime.date\<close>. A date is its year, month and day, ordered as Python orders dates;
  \<open>ordinal\<close> is \<open>date.toordinal()\<close>. \<open>date(y, m, d)\<close> refuses a day that does not exist with
  \<open>ValueError\<close>, and date arithmetic leaves the years 1 to 9999 with \<open>OverflowError\<close>.
\<close>

section \<open>Python's dates\<close>

datatype date = Date (year_of: int) (month_of: int) (day_of: int)

datatype period_problem =
    Year_out_of_range | No_such_month | No_such_quarter | No_such_half
  | Exact_missing | Year_missing | Month_missing | Quarter_missing | Half_missing
  | Unknown_precision

datatype date_error = ValueError | OverflowError | InvalidPeriod period_problem

instantiation date :: linorder
begin

definition less_eq_date :: "date \<Rightarrow> date \<Rightarrow> bool" where
  "a \<le> b \<longleftrightarrow> year_of a < year_of b \<or> year_of a = year_of b \<and>
     (month_of a < month_of b \<or> month_of a = month_of b \<and> day_of a \<le> day_of b)"

definition less_date :: "date \<Rightarrow> date \<Rightarrow> bool" where
  "a < b \<longleftrightarrow> year_of a < year_of b \<or> year_of a = year_of b \<and>
     (month_of a < month_of b \<or> month_of a = month_of b \<and> day_of a < day_of b)"

instance
  by standard (auto simp: less_eq_date_def less_date_def date.expand)

end

lemmas date_order = less_eq_date_def less_date_def

definition is_leap :: "int \<Rightarrow> bool" where
  "is_leap y \<longleftrightarrow> y mod 4 = 0 \<and> (y mod 100 \<noteq> 0 \<or> y mod 400 = 0)"

definition monthrange :: "int \<Rightarrow> int \<Rightarrow> int" where
  \<comment> \<open>\<open>calendar.monthrange(y, m)[1]\<close>\<close>
  "monthrange y m = (if m = 2 then if is_leap y then 29 else 28
     else if m = 4 \<or> m = 6 \<or> m = 9 \<or> m = 11 then 30 else 31)"

definition in_month :: "date \<Rightarrow> bool" where
  "in_month d \<longleftrightarrow> 1 \<le> month_of d \<and> month_of d \<le> 12 \<and>
     1 \<le> day_of d \<and> day_of d \<le> monthrange (year_of d) (month_of d)"

definition valid_date :: "date \<Rightarrow> bool" where
  "valid_date d \<longleftrightarrow> 1 \<le> year_of d \<and> year_of d \<le> 9999 \<and> in_month d"

definition date_of :: "int \<Rightarrow> int \<Rightarrow> int \<Rightarrow> date_error + date" where
  \<comment> \<open>\<open>date(year, month, day)\<close>\<close>
  "date_of y m d = (if valid_date (Date y m d) then Inr (Date y m d) else Inl ValueError)"

definition days_before_year :: "int \<Rightarrow> int" where
  "days_before_year y = (y - 1) * 365 + (y - 1) div 4 - (y - 1) div 100 + (y - 1) div 400"

definition days_before_month :: "int \<Rightarrow> int \<Rightarrow> int" where
  "days_before_month y m =
     (if m \<le> 1 then 0 else if m = 2 then 31
      else (if m = 3 then 59 else if m = 4 then 90 else if m = 5 then 120 else if m = 6 then 151
            else if m = 7 then 181 else if m = 8 then 212 else if m = 9 then 243
            else if m = 10 then 273 else if m = 11 then 304 else 334)
           + (if is_leap y then 1 else 0))"

definition ordinal :: "date \<Rightarrow> int" where
  "ordinal d = days_before_year (year_of d) + days_before_month (year_of d) (month_of d) + day_of d"

definition weekday :: "date \<Rightarrow> int" where
  \<comment> \<open>Monday is 0\<close>
  "weekday d = (ordinal d + 6) mod 7"

definition next_day :: "date \<Rightarrow> date" where
  "next_day d =
     (if day_of d < monthrange (year_of d) (month_of d) then Date (year_of d) (month_of d) (day_of d + 1)
      else if month_of d < 12 then Date (year_of d) (month_of d + 1) 1
      else Date (year_of d + 1) 1 1)"

definition previous_day :: "date \<Rightarrow> date" where
  "previous_day d =
     (if 1 < day_of d then Date (year_of d) (month_of d) (day_of d - 1)
      else if 1 < month_of d
        then Date (year_of d) (month_of d - 1) (monthrange (year_of d) (month_of d - 1))
      else Date (year_of d - 1) 12 31)"

definition moved :: "date \<Rightarrow> int \<Rightarrow> date" where
  "moved d n = (if 0 \<le> n then (next_day ^^ nat n) d else (previous_day ^^ nat (- n)) d)"

definition date_plus :: "date \<Rightarrow> int \<Rightarrow> date_error + date" where
  \<comment> \<open>\<open>d + timedelta(days=n)\<close>\<close>
  "date_plus d n = (if valid_date (moved d n) then Inr (moved d n) else Inl OverflowError)"

section \<open>Facts about dates\<close>

lemma monthrange_bounds [simp]: "28 \<le> monthrange y m" "monthrange y m \<le> 31"
  "1 \<le> monthrange y m" "0 < monthrange y m"
  by (simp_all add: monthrange_def)

lemma monthrange_simps [simp]:
  "monthrange y 1 = 31" "monthrange y 3 = 31" "monthrange y 6 = 30" "monthrange y 9 = 30"
  "monthrange y 12 = 31"
  by (simp_all add: monthrange_def)

lemma date_of_eq [simp]: "date_of y m d = Inr v \<longleftrightarrow> valid_date (Date y m d) \<and> v = Date y m d"
  by (auto simp: date_of_def)

lemma valid_in_month [simp]: "valid_date d \<Longrightarrow> in_month d"
  by (simp add: valid_date_def)

lemma in_month_next_day [simp]: "in_month d \<Longrightarrow> in_month (next_day d)"
  by (cases d) (auto simp: in_month_def next_day_def monthrange_def split: if_splits)

lemma in_month_previous_day [simp]: "in_month d \<Longrightarrow> in_month (previous_day d)"
  by (cases d) (auto simp: in_month_def previous_day_def monthrange_def split: if_splits)

lemma div_step: "0 < k \<Longrightarrow> y div k = (y - 1) div k + (if y mod k = 0 then 1 else 0)" for k :: int
proof -
  assume k: "0 < k"
  define q r where "q = (y - 1) div k" and "r = (y - 1) mod k"
  then have y: "y = k * q + (r + 1)" and r: "0 \<le> r" "r < k"
    using k by simp_all
  show ?thesis
  proof (cases "r + 1 = k")
    case True
    then have "y = k * (q + 1)" using y by (simp add: algebra_simps)
    then have "y div k = q + 1 \<and> y mod k = 0" using k by simp
    then show ?thesis by (simp add: q_def)
  next
    case False
    with r have "0 < r + 1" "r + 1 < k" by simp_all
    then have "y div k = q \<and> y mod k = r + 1" using y by simp
    with r show ?thesis by (simp add: q_def)
  qed
qed

lemma days_before_year_Suc:
  "days_before_year (y + 1) = days_before_year y + (if is_leap y then 366 else 365)"
proof -
  have next_year: "days_before_year (y + 1) = y * 365 + y div 4 - y div 100 + y div 400"
    by (simp add: days_before_year_def)
  have step: "y div 4 = (y - 1) div 4 + (if y mod 4 = 0 then 1 else 0)"
    "y div 100 = (y - 1) div 100 + (if y mod 100 = 0 then 1 else 0)"
    "y div 400 = (y - 1) div 400 + (if y mod 400 = 0 then 1 else 0)"
    by (rule div_step, simp)+
  have dv: "(100 :: int) dvd 400" "(4 :: int) dvd 100" by simp_all
  have multiples: "y mod 400 = 0 \<Longrightarrow> y mod 100 = 0" "y mod 100 = 0 \<Longrightarrow> y mod 4 = 0"
    using dvd_trans [OF dv(1)] dvd_trans [OF dv(2)] by (simp_all only: mod_eq_0_iff_dvd)
  have "(if a then 1 else 0) - (if b then 1 else 0) + (if c then 1 else (0 :: int))
      = (if a \<and> (b \<longrightarrow> c) then 1 else 0)" if "c \<Longrightarrow> b" "b \<Longrightarrow> a" for a b c
    using that by simp
  from this [OF multiples] have leap: "(if y mod 4 = 0 then 1 else 0) - (if y mod 100 = 0 then 1 else 0)
      + (if y mod 400 = 0 then 1 else (0 :: int)) = (if is_leap y then 1 else 0)"
    by (simp only: is_leap_def imp_conv_disj)
  have "y * 365 + u - v + w = (y - 1) * 365 + u' - v' + w' + (365 + (i - j + k))"
    if "u = u' + i" "v = v' + j" "w = w' + k" for u v w u' v' w' i j k :: int
    using that by simp
  from this [OF step] show ?thesis
    unfolding next_year days_before_year_def leap by (cases "is_leap y") (simp_all only: if_True if_False, simp_all)
qed

lemma days_before_month_Suc:
  "1 \<le> m \<Longrightarrow> m < 12 \<Longrightarrow> days_before_month y (m + 1) = days_before_month y m + monthrange y m"
proof -
  assume "1 \<le> m" "m < 12"
  then have "m = 1 \<or> m = 2 \<or> m = 3 \<or> m = 4 \<or> m = 5 \<or> m = 6 \<or> m = 7 \<or> m = 8 \<or> m = 9 \<or> m = 10 \<or> m = 11"
    by presburger
  then show ?thesis by (elim disjE) (simp_all add: days_before_month_def monthrange_def)
qed

lemma ordinal_next_day [simp]: "in_month d \<Longrightarrow> ordinal (next_day d) = ordinal d + 1"
proof -
  assume v: "in_month d"
  consider "day_of d < monthrange (year_of d) (month_of d)"
    | "day_of d = monthrange (year_of d) (month_of d)" "month_of d < 12"
    | "day_of d = 31" "month_of d = 12"
    using v by (force simp: in_month_def)
  then show ?thesis
  proof cases
    case 2
    with v show ?thesis
      by (simp add: next_day_def ordinal_def in_month_def days_before_month_Suc)
  next
    case 3
    with v show ?thesis
      by (simp add: next_day_def ordinal_def days_before_year_Suc days_before_month_def)
  qed (simp add: next_day_def ordinal_def)
qed

lemma next_previous_day: "in_month d \<Longrightarrow> next_day (previous_day d) = d"
  by (cases d) (auto simp: in_month_def next_day_def previous_day_def)

lemma ordinal_previous_day [simp]: "in_month d \<Longrightarrow> ordinal (previous_day d) = ordinal d - 1"
  using ordinal_next_day [of "previous_day d"] by (simp add: next_previous_day)

lemma next_day_greater: "in_month d \<Longrightarrow> d < next_day d"
  by (cases d) (auto simp: in_month_def next_day_def less_date_def)

lemma less_next_day: "in_month d \<Longrightarrow> in_month e \<Longrightarrow> d < e \<longleftrightarrow> next_day d \<le> e"
  by (cases d; cases e) (auto simp: in_month_def next_day_def date_order split: if_splits)

lemma days_before_month_mono:
  assumes "1 \<le> m" "m < m'" "m' \<le> 12"
  shows "days_before_month y m + monthrange y m \<le> days_before_month y m'"
  using assms(2,3)
proof (induction m' rule: int_gr_induct)
  case base
  then show ?case using assms(1) by (simp add: days_before_month_Suc)
next
  case (step n)
  then show ?case using assms(1) less_imp_le [OF monthrange_bounds(4) [of y n]]
    by (simp add: days_before_month_Suc add_increasing2)
qed

lemma days_before_year_mono: "y < y' \<Longrightarrow> days_before_year (y + 1) \<le> days_before_year y'"
  by (induction y' rule: int_gr_induct) (auto simp: days_before_year_Suc)

lemma ordinal_in_year:
  assumes "in_month d"
  shows "days_before_year (year_of d) < ordinal d" "ordinal d \<le> days_before_year (year_of d + 1)"
proof -
  show "days_before_year (year_of d) < ordinal d"
    using assms by (auto simp: ordinal_def in_month_def days_before_month_def)
  have "days_before_month (year_of d) (month_of d) + day_of d \<le> days_before_month (year_of d) 12 + 31"
    using assms days_before_month_mono [of "month_of d" 12 "year_of d"]
    by (cases "month_of d = 12") (auto simp: in_month_def)
  then show "ordinal d \<le> days_before_year (year_of d + 1)"
    by (simp add: ordinal_def days_before_year_Suc days_before_month_def split: if_splits)
qed

lemma ordinal_strict_mono:
  assumes "in_month d" "in_month e" "d < e"
  shows "ordinal d < ordinal e"
proof -
  consider "year_of d < year_of e" | "year_of d = year_of e" "month_of d < month_of e"
    | "year_of d = year_of e" "month_of d = month_of e" "day_of d < day_of e"
    using assms(3) by (auto simp: less_date_def)
  then show ?thesis
  proof cases
    case 1
    then show ?thesis
      using ordinal_in_year [OF assms(1)] ordinal_in_year [OF assms(2)] days_before_year_mono [OF 1] by simp
  next
    case 2
    then have "days_before_month (year_of d) (month_of d) + monthrange (year_of d) (month_of d)
        \<le> days_before_month (year_of d) (month_of e)"
      using assms by (intro days_before_month_mono) (auto simp: in_month_def)
    with 2 show ?thesis using assms by (simp add: ordinal_def in_month_def)
  qed (simp add: ordinal_def)
qed

lemma ordinal_less [simp]: "in_month d \<Longrightarrow> in_month e \<Longrightarrow> ordinal d < ordinal e \<longleftrightarrow> d < e"
  using ordinal_strict_mono [of d e] ordinal_strict_mono [of e d] by (cases d e rule: linorder_cases) auto

lemma ordinal_le [simp]: "in_month d \<Longrightarrow> in_month e \<Longrightarrow> ordinal d \<le> ordinal e \<longleftrightarrow> d \<le> e"
  using ordinal_less [of e d] by (simp add: not_less [symmetric] del: ordinal_less)

lemma ordinal_eq: "in_month d \<Longrightarrow> in_month e \<Longrightarrow> ordinal d = ordinal e \<longleftrightarrow> d = e"
  by (metis ordinal_strict_mono less_irrefl linorder_cases)

lemma in_month_moved [simp]: "in_month d \<Longrightarrow> in_month (moved d n)"
proof -
  assume "in_month d"
  then have "in_month ((next_day ^^ k) d)" "in_month ((previous_day ^^ k) d)" for k
    by (induction k) auto
  then show ?thesis by (simp add: moved_def)
qed

lemma ordinal_moved [simp]: "in_month d \<Longrightarrow> ordinal (moved d n) = ordinal d + n"
proof -
  assume d: "in_month d"
  have fwd: "in_month ((next_day ^^ k) d) \<and> ordinal ((next_day ^^ k) d) = ordinal d + int k" for k
    using d by (induction k) auto
  have bwd: "in_month ((previous_day ^^ k) d) \<and> ordinal ((previous_day ^^ k) d) = ordinal d - int k" for k
    using d by (induction k) auto
  show ?thesis using fwd [of "nat n"] bwd [of "nat (- n)"] by (simp add: moved_def)
qed

section \<open>Months\<close>

definition end_of_month :: "date \<Rightarrow> date_error + date" where
  "end_of_month d =
     (case date_of (year_of d + (if month_of d = 12 then 1 else 0))
                   (if month_of d = 12 then 1 else month_of d + 1) 1 of
        Inl e \<Rightarrow> Inl e
      | Inr first_next \<Rightarrow> date_plus first_next (- 1))"

definition add_months :: "date \<Rightarrow> int \<Rightarrow> date_error + date" where
  "add_months d n =
     (let total = month_of d - 1 + n;
          y = year_of d + total div 12;
          m = total mod 12 + 1
      in date_of y m (min (day_of d) (monthrange y m)))"

lemma moved_1 [simp]: "moved d 1 = next_day d" "moved d (- 1) = previous_day d"
  by (simp_all add: moved_def)

lemma end_of_month_eq:
  assumes "valid_date d" "year_of d < 9999 \<or> month_of d < 12"
  shows "end_of_month d = Inr (Date (year_of d) (month_of d) (monthrange (year_of d) (month_of d)))"
  using assms by (auto simp: end_of_month_def date_of_def date_plus_def valid_date_def in_month_def
    previous_day_def)

lemma month_index: "n = 12 * (n div 12) + n mod 12" "0 \<le> n mod 12" "n mod 12 < 12" for n :: int
  by simp_all

lemma add_months_eq:
  assumes "valid_date d" and "0 \<le> n" and "add_months d n = Inr e"
  shows "valid_date e"
    and "12 * year_of e + month_of e = 12 * year_of d + month_of d + n"
    and "day_of e = min (day_of d) (monthrange (year_of e) (month_of e))"
  using assms month_index [of "month_of d - 1 + n"]
  by (auto simp: add_months_def Let_def algebra_simps)

lemma moved_within_month:
  "0 \<le> n \<Longrightarrow> day_of d + n \<le> monthrange (year_of d) (month_of d) \<Longrightarrow> moved d n = Date (year_of d) (month_of d) (day_of d + n)"
  "n \<le> 0 \<Longrightarrow> 1 \<le> day_of d + n \<Longrightarrow> moved d n = Date (year_of d) (month_of d) (day_of d + n)"
proof -
  have "int k + day_of d \<le> monthrange (year_of d) (month_of d) \<Longrightarrow> (next_day ^^ k) d = Date (year_of d) (month_of d) (day_of d + int k)" for k
    by (induction k) (auto simp: next_day_def)
  from this [of "nat n"] show "0 \<le> n \<Longrightarrow> day_of d + n \<le> monthrange (year_of d) (month_of d) \<Longrightarrow> moved d n = Date (year_of d) (month_of d) (day_of d + n)"
    by (simp add: moved_def)
  have "1 \<le> day_of d - int k \<Longrightarrow> (previous_day ^^ k) d = Date (year_of d) (month_of d) (day_of d - int k)" for k
    by (induction k) (auto simp: previous_day_def)
  from this [of "nat (- n)"] show "n \<le> 0 \<Longrightarrow> 1 \<le> day_of d + n \<Longrightarrow> moved d n = Date (year_of d) (month_of d) (day_of d + n)"
    by (cases "n = 0") (auto simp: moved_def)
qed

lemma moved_add: "0 \<le> a \<Longrightarrow> 0 \<le> b \<Longrightarrow> moved d (a + b) = moved (moved d a) b"
  "a \<le> 0 \<Longrightarrow> b \<le> 0 \<Longrightarrow> moved d (a + b) = moved (moved d a) b"
proof -
  show "0 \<le> a \<Longrightarrow> 0 \<le> b \<Longrightarrow> moved d (a + b) = moved (moved d a) b"
    by (simp add: moved_def nat_add_distrib add.commute [of "nat a"] funpow_add)
  have "nat (- a - b) = nat (- b) + nat (- a)" if "a \<le> 0" "b \<le> 0" using that by simp
  then show "a \<le> 0 \<Longrightarrow> b \<le> 0 \<Longrightarrow> moved d (a + b) = moved (moved d a) b"
    by (cases "a = 0"; cases "b = 0") (simp_all add: moved_def funpow_add)
qed

text \<open>Evaluation by months.\<close>

lemma moved_by_months [code]:
  "moved d n =
     (if n = 0 then d
      else if 0 < n then
        if day_of d + n \<le> monthrange (year_of d) (month_of d) then Date (year_of d) (month_of d) (day_of d + n)
        else if day_of d < monthrange (year_of d) (month_of d) then
          moved (Date (year_of d) (month_of d) (monthrange (year_of d) (month_of d)))
            (n - (monthrange (year_of d) (month_of d) - day_of d))
        else moved (next_day d) (n - 1)
      else if 1 \<le> day_of d + n then Date (year_of d) (month_of d) (day_of d + n)
      else if 1 < day_of d then moved (Date (year_of d) (month_of d) 1) (n + (day_of d - 1))
      else moved (previous_day d) (n + 1))"
  using moved_within_month [of n d] moved_add(1) [of "monthrange (year_of d) (month_of d) - day_of d" "n - (monthrange (year_of d) (month_of d) - day_of d)" d]
    moved_within_month(1) [of "monthrange (year_of d) (month_of d) - day_of d" d]
    moved_add(1) [of 1 "n - 1" d] moved_add(2) [of "- 1" "n + 1" d]
    moved_add(2) [of "1 - day_of d" "n + (day_of d - 1)" d] moved_within_month(2) [of "1 - day_of d" d]
  by (auto simp: moved_def [of d 0])

section \<open>Numbers in text\<close>

definition digit :: "nat \<Rightarrow> char" where
  "digit n = char_of (48 + n)"

definition is_digit :: "char \<Rightarrow> bool" where
  \<comment> \<open>\<open>\d\<close>, on code points below 256\<close>
  "is_digit c \<longleftrightarrow> 48 \<le> (of_char c :: nat) \<and> (of_char c :: nat) \<le> 57"

fun decimal :: "nat \<Rightarrow> string" where
  \<comment> \<open>\<open>str(n)\<close>\<close>
  "decimal n = (if n < 10 then [digit n] else decimal (n div 10) @ [digit (n mod 10)])"

declare decimal.simps [simp del]

definition two_digits :: "nat \<Rightarrow> string" where
  \<comment> \<open>\<open>f''{n:02d}''\<close>\<close>
  "two_digits n = (if n < 10 then CHR ''0'' # decimal n else decimal n)"

definition number :: "string \<Rightarrow> nat" where
  \<comment> \<open>the value of a string of digits\<close>
  "number s = foldl (\<lambda>n c. 10 * n + (of_char c - 48)) 0 s"

definition max_str_digits :: nat where
  \<comment> \<open>\<open>sys.int_info.default_max_str_digits\<close>\<close>
  "max_str_digits = 4300"

definition int_of_digits :: "string \<Rightarrow> date_error + int" where
  \<comment> \<open>\<open>int(s)\<close> of a nonempty string of digits: longer ones are refused since Python 3.11\<close>
  "int_of_digits s = (if max_str_digits < length s then Inl ValueError else Inr (int (number s)))"

fun split_on :: "char \<Rightarrow> string \<Rightarrow> string list" where
  \<comment> \<open>\<open>s.split(c)\<close>\<close>
  "split_on c [] = [[]]"
| "split_on c (x # xs) =
     (if x = c then [] # split_on c xs
      else (case split_on c xs of [] \<Rightarrow> [[x]] | w # ws \<Rightarrow> (x # w) # ws))"

lemma of_char_digit [simp]: "n < 10 \<Longrightarrow> (of_char (digit n) :: nat) = 48 + n"
  by (simp add: digit_def)

lemma is_digit_digit [simp]: "n < 10 \<Longrightarrow> is_digit (digit n)"
  by (simp add: is_digit_def)

lemma decimal_digits [simp]: "list_all is_digit (decimal n)"
proof (induction n rule: decimal.induct)
  case (1 n)
  then show ?case by (subst decimal.simps) simp
qed

lemma number_decimal [simp]: "number (decimal n) = n"
proof (induction n rule: decimal.induct)
  case (1 n)
  show ?case
  proof (cases "n < 10")
    case True
    then show ?thesis by (subst decimal.simps) (simp add: number_def)
  next
    case False
    with 1 have "number (decimal (n div 10)) = n div 10" by simp
    with False show ?thesis by (subst decimal.simps) (simp add: number_def)
  qed
qed

lemma length_decimal:
  "n < 10 \<Longrightarrow> length (decimal n) = 1"
  "10 \<le> n \<Longrightarrow> n < 100 \<Longrightarrow> length (decimal n) = 2"
  "1000 \<le> n \<Longrightarrow> n < 10000 \<Longrightarrow> length (decimal n) = 4"
proof -
  have step: "10 \<le> n \<Longrightarrow> length (decimal n) = Suc (length (decimal (n div 10)))" for n
    by (subst decimal.simps) simp
  have one: "n < 10 \<Longrightarrow> length (decimal n) = 1" for n by (subst decimal.simps) simp
  show "n < 10 \<Longrightarrow> length (decimal n) = 1" by (rule one)
  show "10 \<le> n \<Longrightarrow> n < 100 \<Longrightarrow> length (decimal n) = 2" by (simp add: step one)
  show "1000 \<le> n \<Longrightarrow> n < 10000 \<Longrightarrow> length (decimal n) = 4"
    by (simp add: step one div_mult2_eq [symmetric])
qed

lemma split_on_nonempty [simp]: "split_on c s \<noteq> []"
  by (induction s) (auto split: list.splits)

lemma split_on_piece:
  "c \<notin> set w \<Longrightarrow> split_on c (w @ c # rest) = w # split_on c rest"
  by (induction w) auto

lemma split_on_last: "c \<notin> set w \<Longrightarrow> split_on c w = [w]"
  by (induction w) auto

lemma no_dot [simp]: "list_all is_digit w \<Longrightarrow> CHR ''.'' \<notin> set w"
  by (auto simp: list_all_iff is_digit_def)

section \<open>Writing and reading a day\<close>

definition format_estonian_date :: "date option \<Rightarrow> string" where
  "format_estonian_date v =
     (case v of None \<Rightarrow> []
      | Some d \<Rightarrow> decimal (nat (day_of d)) @ CHR ''.'' # decimal (nat (month_of d))
          @ CHR ''.'' # decimal (nat (year_of d)))"

definition dotted :: "string \<Rightarrow> (string \<times> string \<times> string) option" where
  \<comment> \<open>\<open>_DOTTED.match\<close> of a stripped text: one or two digits, one or two digits, two or four digits\<close>
  "dotted s =
     (case split_on CHR ''.'' s of
        [d, m, y] \<Rightarrow>
          if list_all is_digit (d @ m @ y) \<and> length d \<in> {1, 2} \<and> length m \<in> {1, 2} \<and> length y \<in> {2, 4}
          then Some (d, m, y) else None
      | _ \<Rightarrow> None)"

definition century :: int where
  "century = 2000"

definition parse_estonian_date :: "string option \<Rightarrow> date option" where
  "parse_estonian_date v =
     (case v of
        None \<Rightarrow> None
      | Some s \<Rightarrow>
          if s = [] then None
          else case dotted (strip s) of
            None \<Rightarrow> None
          | Some (d, m, y) \<Rightarrow>
              let year = int (number y) + (if length y = 2 then century else 0)
              in case date_of year (int (number m)) (int (number d)) of Inl _ \<Rightarrow> None | Inr e \<Rightarrow> Some e)"

record date_reading =
  reading_value :: "date option"
  reading_invalid :: bool

definition reading_empty :: "date_reading \<Rightarrow> bool" where
  "reading_empty r \<longleftrightarrow> reading_value r = None \<and> \<not> reading_invalid r"

definition read_flexible_date ::
  "(string \<Rightarrow> date_error + date option) \<Rightarrow> string option \<Rightarrow> date_reading" where
  \<comment> \<open>the first argument is Django's \<open>parse_date\<close>, which raises on a well-formed day that does not exist\<close>
  "read_flexible_date parse_date v =
     (let stripped = strip (case v of None \<Rightarrow> [] | Some s \<Rightarrow> s)
      in if stripped = [] then \<lparr>reading_value = None, reading_invalid = False\<rparr>
         else if CHR 0x00 \<in> set stripped then \<lparr>reading_value = None, reading_invalid = True\<rparr>
         else let parsed = (case parse_estonian_date (Some stripped) of
                  Some d \<Rightarrow> Some d
                | None \<Rightarrow> (case parse_date stripped of Inl _ \<Rightarrow> None | Inr r \<Rightarrow> r))
              in \<lparr>reading_value = parsed, reading_invalid = (parsed = None)\<rparr>)"

definition parse_flexible_date ::
  "(string \<Rightarrow> date_error + date option) \<Rightarrow> string option \<Rightarrow> date option" where
  "parse_flexible_date parse_date v = reading_value (read_flexible_date parse_date v)"

definition weekday_letters :: "string list" where
  "weekday_letters = [''E'', ''T'', ''K'', ''N'', ''R'', ''L'', ''P'']"

definition weekday_names :: "string list" where
  "weekday_names =
     [''esmasp'' @ CHR 0xE4 # ''ev'', ''teisip'' @ CHR 0xE4 # ''ev'', ''kolmap'' @ CHR 0xE4 # ''ev'',
      ''neljap'' @ CHR 0xE4 # ''ev'', ''reede'', ''laup'' @ CHR 0xE4 # ''ev'',
      ''p'' @ CHR 0xFC # ''hap'' @ CHR 0xE4 # ''ev'']"

definition weekday_name :: "date option \<Rightarrow> string" where
  "weekday_name v = (case v of None \<Rightarrow> [] | Some d \<Rightarrow> weekday_names ! nat (weekday d))"

definition weekday_letter :: "date option \<Rightarrow> string" where
  "weekday_letter v = (case v of None \<Rightarrow> [] | Some d \<Rightarrow> weekday_letters ! nat (weekday d))"

definition short_day_month :: "date option \<Rightarrow> string" where
  "short_day_month v =
     (case v of None \<Rightarrow> [] | Some d \<Rightarrow> two_digits (nat (day_of d)) @ CHR ''.'' # two_digits (nat (month_of d)))"

lemma strip_unchanged: "list_all (\<lambda>c. \<not> is_space c) s \<Longrightarrow> strip s = s"
proof -
  assume s: "list_all (\<lambda>c. \<not> is_space c) s"
  have "dropWhile is_space w = w" if "list_all (\<lambda>c. \<not> is_space c) w" for w
    using that by (cases w) auto
  from this [OF s] this [of "rev s"] s show ?thesis by (simp add: strip_def strip_by_def)
qed

lemma digits_not_space: "list_all is_digit w \<Longrightarrow> list_all (\<lambda>c. \<not> is_space c) w"
  by (auto simp: list_all_iff is_digit_def is_space_def)

lemma not_space_dot: "\<not> is_space CHR ''.''"
  by (simp add: is_space_def)

lemma dotted_format:
  assumes "valid_date d" "1000 \<le> year_of d"
  shows "dotted (format_estonian_date (Some d)) =
    Some (decimal (nat (day_of d)), decimal (nat (month_of d)), decimal (nat (year_of d)))"
proof -
  have m: "day_of d \<le> 31"
    using assms(1) monthrange_bounds(2) by (auto simp: valid_date_def in_month_def intro: order_trans)
  have "length (decimal n) \<in> {1, 2}" if "n < 100" for n
    using that length_decimal(1,2) [of n] by (cases "n < 10") auto
  moreover have "nat (day_of d) < 100" "nat (month_of d) < 100"
    using assms(1) m by (auto simp: valid_date_def in_month_def)
  ultimately have "length (decimal (nat (day_of d))) \<in> {1, 2}" "length (decimal (nat (month_of d))) \<in> {1, 2}"
    by blast+
  moreover have "length (decimal (nat (year_of d))) = 4"
    using assms by (intro length_decimal(3)) (auto simp: valid_date_def)
  ultimately show ?thesis
    by (simp add: dotted_def format_estonian_date_def split_on_piece split_on_last)
qed

lemma strip_format [simp]: "strip (format_estonian_date (Some d)) = format_estonian_date (Some d)"
  by (rule strip_unchanged)
    (simp add: format_estonian_date_def digits_not_space not_space_dot)

end
