(* ===== verification/Periods.thy ===== *)
theory Periods
  imports Calendar
begin

text \<open>
  \<open>src/app/workflow/dates.py\<close>: what a date recorded at a precision stands for. A stored date is
  the anchor of its period; \<open>period_bounds\<close> answers the first and the last day of it. A
  \<open>date_precision\<close> column holds a string, so a value outside the vocabulary of
  \<open>app/workflow/enums.py\<close> is \<open>Unlisted\<close>; \<open>InvalidPeriod\<close> carries which sentence is refused with.
\<close>

section \<open>The vocabulary\<close>

datatype date_precision = EXACT | MONTH | QUARTER | HALF_YEAR | YEAR | INFERRED | Unlisted string

definition estonian_months :: "string list" where
  "estonian_months =
     [''jaanuar'', ''veebruar'', ''m'' @ CHR 0xE4 # ''rts'', ''aprill'', ''mai'', ''juuni'', ''juuli'',
      ''august'', ''september'', ''oktoober'', ''november'', ''detsember'']"

definition roman_quarters :: "string list" where
  "roman_quarters = [''I'', ''II'', ''III'', ''IV'']"

definition roman_halves :: "string list" where
  "roman_halves = [''I'', ''II'']"

definition is_approximate :: "date_precision \<Rightarrow> bool" where
  "is_approximate p \<longleftrightarrow> p \<noteq> EXACT \<and> p \<noteq> INFERRED"

section \<open>Supported days and years\<close>

definition min_year :: int where
  "min_year = 1990"

definition max_year :: int where
  "max_year = 2100"

definition earliest_day :: date where
  "earliest_day = Date min_year 1 1"

definition latest_day :: date where
  "latest_day = Date max_year 12 31"

definition is_supported_day :: "date \<Rightarrow> bool" where
  "is_supported_day v \<longleftrightarrow> earliest_day \<le> v \<and> v \<le> latest_day"

definition check_year :: "int \<Rightarrow> date_error + int" where
  "check_year y = (if min_year \<le> y \<and> y \<le> max_year then Inr y else Inl (InvalidPeriod Year_out_of_range))"

definition year_from :: "string option \<Rightarrow> date_error + int option" where
  "year_from raw =
     (let v = strip (case raw of None \<Rightarrow> [] | Some s \<Rightarrow> s)
      in if \<not> (is_ascii v \<and> v \<noteq> [] \<and> list_all is_digit v) then Inr None
         else case int_of_digits v of
           Inl e \<Rightarrow> Inl e
         | Inr y \<Rightarrow> Inr (if min_year \<le> y \<and> y \<le> max_year then Some y else None))"

section \<open>Bounds\<close>

type_synonym bounds = "date \<times> date"

definition exact_bounds :: "date \<Rightarrow> bounds" where
  "exact_bounds v = (v, v)"

definition month_bounds :: "int \<Rightarrow> int \<Rightarrow> date_error + bounds" where
  "month_bounds y m =
     (case check_year y of
        Inl e \<Rightarrow> Inl e
      | Inr _ \<Rightarrow>
          if \<not> (1 \<le> m \<and> m \<le> 12) then Inl (InvalidPeriod No_such_month)
          else Inr (Date y m 1, Date y m (monthrange y m)))"

definition quarter_bounds :: "int \<Rightarrow> int \<Rightarrow> date_error + bounds" where
  "quarter_bounds y q =
     (case check_year y of
        Inl e \<Rightarrow> Inl e
      | Inr _ \<Rightarrow>
          if \<not> (1 \<le> q \<and> q \<le> 4) then Inl (InvalidPeriod No_such_quarter)
          else let first_month = (q - 1) * 3 + 1; end_month = first_month + 2
               in Inr (Date y first_month 1, Date y end_month (monthrange y end_month)))"

definition half_year_bounds :: "int \<Rightarrow> int \<Rightarrow> date_error + bounds" where
  "half_year_bounds y h =
     (case check_year y of
        Inl e \<Rightarrow> Inl e
      | Inr _ \<Rightarrow>
          if h \<noteq> 1 \<and> h \<noteq> 2 then Inl (InvalidPeriod No_such_half)
          else if h = 1 then Inr (Date y 1 1, Date y 6 30)
          else Inr (Date y 7 1, Date y 12 31))"

definition year_bounds :: "int \<Rightarrow> date_error + bounds" where
  "year_bounds y =
     (case check_year y of Inl e \<Rightarrow> Inl e | Inr _ \<Rightarrow> Inr (Date y 1 1, Date y 12 31))"

fun period_bounds :: "date \<Rightarrow> date_precision \<Rightarrow> date_error + bounds" where
  "period_bounds v YEAR = year_bounds (year_of v)"
| "period_bounds v HALF_YEAR = half_year_bounds (year_of v) (if month_of v \<le> 6 then 1 else 2)"
| "period_bounds v QUARTER = quarter_bounds (year_of v) ((month_of v - 1) div 3 + 1)"
| "period_bounds v MONTH = month_bounds (year_of v) (month_of v)"
| "period_bounds v _ = Inr (exact_bounds v)"

definition bounds_for ::
  "date_precision \<Rightarrow> date option \<Rightarrow> int option \<Rightarrow> int option \<Rightarrow> int option \<Rightarrow> int option
     \<Rightarrow> date_error + bounds" where
  "bounds_for p exact year month quarter half =
     (if p = EXACT \<or> p = INFERRED then
        (case exact of
           None \<Rightarrow> Inl (InvalidPeriod Exact_missing)
         | Some d \<Rightarrow> (case check_year (year_of d) of Inl e \<Rightarrow> Inl e | Inr _ \<Rightarrow> Inr (exact_bounds d)))
      else case year of
        None \<Rightarrow> Inl (InvalidPeriod Year_missing)
      | Some y \<Rightarrow>
          if p = MONTH then (case month of
             None \<Rightarrow> Inl (InvalidPeriod Month_missing) | Some m \<Rightarrow> month_bounds y m)
          else if p = QUARTER then (case quarter of
             None \<Rightarrow> Inl (InvalidPeriod Quarter_missing) | Some q \<Rightarrow> quarter_bounds y q)
          else if p = HALF_YEAR then (case half of
             None \<Rightarrow> Inl (InvalidPeriod Half_missing) | Some h \<Rightarrow> half_year_bounds y h)
          else if p = YEAR then year_bounds y
          else Inl (InvalidPeriod Unknown_precision))"

definition period_starts_after :: "date option \<Rightarrow> date_precision \<Rightarrow> date \<Rightarrow> date_error + bool" where
  "period_starts_after v p day =
     (case v of
        None \<Rightarrow> Inr False
      | Some d \<Rightarrow> (case period_bounds d p of Inl e \<Rightarrow> Inl e | Inr (s, _) \<Rightarrow> Inr (day < s)))"

definition period_in_window ::
  "date option \<Rightarrow> date_precision \<Rightarrow> date \<Rightarrow> date option \<Rightarrow> date \<Rightarrow> date_error + bool" where
  "period_in_window v p start stop today =
     (case v of
        None \<Rightarrow> Inr False
      | Some d \<Rightarrow>
          if \<not> is_approximate p then
            Inr (start \<le> d \<and> (case stop of None \<Rightarrow> True | Some e \<Rightarrow> d \<le> e))
          else if stop \<noteq> None then Inr False
          else case period_bounds d p of
            Inl e \<Rightarrow> Inl e
          | Inr (_, final) \<Rightarrow> Inr (min start today \<le> final))"

definition format_at_precision :: "date option \<Rightarrow> date_precision \<Rightarrow> string" where
  "format_at_precision v p =
     (case v of
        None \<Rightarrow> []
      | Some d \<Rightarrow>
          let year = decimal (nat (year_of d))
          in case p of
            YEAR \<Rightarrow> year
          | HALF_YEAR \<Rightarrow> roman_halves ! (if month_of d \<le> 6 then 0 else 1) @ '' poolaasta '' @ year
          | QUARTER \<Rightarrow> roman_quarters ! nat ((month_of d - 1) div 3) @ '' kvartal '' @ year
          | MONTH \<Rightarrow> estonian_months ! nat (month_of d - 1) @ CHR '' '' # year
          | _ \<Rightarrow> format_estonian_date v)"

section \<open>Facts about periods\<close>

lemmas bounds_defs = year_bounds_def half_year_bounds_def quarter_bounds_def month_bounds_def
  exact_bounds_def check_year_def

lemma month_cases:
  assumes "valid_date v"
  obtains "month_of v = 1" | "month_of v = 2" | "month_of v = 3" | "month_of v = 4"
    | "month_of v = 5" | "month_of v = 6" | "month_of v = 7" | "month_of v = 8"
    | "month_of v = 9" | "month_of v = 10" | "month_of v = 11" | "month_of v = 12"
proof -
  have "1 \<le> month_of v" "month_of v \<le> 12" using assms by (auto simp: valid_date_def in_month_def)
  then have "month_of v = 1 \<or> month_of v = 2 \<or> month_of v = 3 \<or> month_of v = 4 \<or> month_of v = 5
      \<or> month_of v = 6 \<or> month_of v = 7 \<or> month_of v = 8 \<or> month_of v = 9 \<or> month_of v = 10
      \<or> month_of v = 11 \<or> month_of v = 12" by presburger
  then show thesis using that by blast
qed

lemma period_bounds_cases:
  assumes "period_bounds v p = Inr (s, e)" and "valid_date v"
  obtains (day) "s = v" "e = v" "p \<notin> {MONTH, QUARTER, HALF_YEAR, YEAR}"
    | (span) a b where "s = Date (year_of v) a 1" "e = Date (year_of v) b (monthrange (year_of v) b)"
        "1 \<le> a" "a \<le> month_of v" "month_of v \<le> b" "b \<le> 12"
        "p \<in> {MONTH, QUARTER, HALF_YEAR, YEAR}" "min_year \<le> year_of v" "year_of v \<le> max_year"
proof -
  have m: "1 \<le> month_of v" "month_of v \<le> 12" using assms(2) by (auto simp: valid_date_def in_month_def)
  show thesis
  proof (cases p)
    case YEAR
    with assms m show thesis by (intro span [of 1 12]) (auto simp: bounds_defs split: if_splits)
  next
    case HALF_YEAR
    with assms m show thesis
      by (intro span [of "if month_of v \<le> 6 then 1 else 7" "if month_of v \<le> 6 then 6 else 12"])
        (auto simp: bounds_defs split: if_splits)
  next
    case QUARTER
    with assms m show thesis
      by (intro span [of "(month_of v - 1) div 3 * 3 + 1" "(month_of v - 1) div 3 * 3 + 3"])
        (auto simp: bounds_defs Let_def add.commute split: if_splits)
  next
    case MONTH
    with assms m show thesis by (intro span [of "month_of v" "month_of v"]) (auto simp: bounds_defs split: if_splits)
  qed (use assms in \<open>auto simp: exact_bounds_def intro: day\<close>)
qed

lemma anchor_in_bounds:
  assumes "period_bounds v p = Inr (s, e)" and "valid_date v"
  shows "s \<le> v \<and> v \<le> e \<and> valid_date s \<and> valid_date e"
  using assms
  by (cases rule: period_bounds_cases) (use assms(2) in \<open>auto simp: date_order valid_date_def in_month_def\<close>)

lemma between_months:
  "Date y a 1 \<le> w \<Longrightarrow> w \<le> Date y b d \<Longrightarrow> year_of w = y \<and> a \<le> month_of w \<and> month_of w \<le> b"
  by (auto simp: date_order)

lemma same_period:
  assumes "period_bounds v p = Inr (s, e)" and "valid_date v" and "valid_date w"
    and "s \<le> w" and "w \<le> e"
  shows "period_bounds w p = Inr (s, e)"
  using assms(1,2)
proof (cases rule: period_bounds_cases)
  case day
  with assms have "w = v" by simp
  with assms(1) show ?thesis by simp
next
  case (span a b)
  then have year: "year_of w = year_of v" and months: "a \<le> month_of w" "month_of w \<le> b"
    using between_months assms(4,5) unfolding span(1,2) by blast+
  have ok: "check_year (year_of v) = Inr (year_of v)" using span(8,9) by (simp add: check_year_def)
  from span(7) consider (m) "p = MONTH" | (q) "p = QUARTER" | (h) "p = HALF_YEAR" | (y) "p = YEAR"
    by (auto simp only: insert_iff empty_iff)
  then show ?thesis
  proof cases
    case q
    define q where "q = (month_of v - 1) div 3"
    have "1 \<le> q + 1" "q + 1 \<le> 4" using span(3-6) by (simp_all add: q_def)
    then have "period_bounds v QUARTER = Inr (Date (year_of v) (q * 3 + 1) 1,
        Date (year_of v) (q * 3 + 1 + 2) (monthrange (year_of v) (q * 3 + 1 + 2)))"
      using span(8,9) by (simp add: q_def [symmetric] quarter_bounds_def check_year_def Let_def)
    with q assms(1) span(1,2) have "a = q * 3 + 1" "b = q * 3 + 1 + 2"
      by (auto simp only: sum.inject prod.inject date.inject)
    with months have "(month_of w - 1) div 3 = q" by simp
    with q assms(1) year show ?thesis by (simp only: period_bounds.simps q_def)
  next
    case h
    with assms(1) span(1,2) ok have "if month_of v \<le> 6 then a = 1 \<and> b = 6 else a = 7 \<and> b = 12"
      by (simp add: half_year_bounds_def split: if_splits)
    with months have "month_of w \<le> 6 \<longleftrightarrow> month_of v \<le> 6" by (simp split: if_splits)
    with h assms(1) year show ?thesis by simp
  next
    case m
    with assms(1) span(1,2,3-6) ok have "a = month_of v" "b = month_of v"
      by (simp_all add: month_bounds_def split: if_splits)
    with months have "month_of w = month_of v" by simp
    with m assms(1) year show ?thesis by simp
  next
    case y
    with assms(1) year show ?thesis by simp
  qed
qed

lemma period_bounds_ok:
  assumes "valid_date v" and "min_year \<le> year_of v" and "year_of v \<le> max_year"
  obtains s e where "period_bounds v p = Inr (s, e)"
  using assms by (cases p; cases rule: month_cases [OF assms(1)]) (auto simp: bounds_defs Let_def)

lemma approximate_raises:
  assumes "p \<in> {MONTH, QUARTER, HALF_YEAR, YEAR}" and "\<not> (min_year \<le> year_of v \<and> year_of v \<le> max_year)"
  shows "period_bounds v p = Inl (InvalidPeriod Year_out_of_range)"
  using assms by (auto simp: bounds_defs)

lemma supported_years: "is_supported_day v \<Longrightarrow> valid_date v \<Longrightarrow> min_year \<le> year_of v \<and> year_of v \<le> max_year"
  by (auto simp: is_supported_day_def earliest_day_def latest_day_def date_order)

end
