(* ===== verification/Lateness.thy ===== *)
theory Lateness
  imports Periods
begin

text \<open>
  \<open>src/app/workflow/lateness.py\<close>: when a planned step is late and when a review comes round, each
  rule in its two readings. The Python reading asks one loaded row; the SQL reading is a
  \<open>Q\<close> built once from today's date, here a predicate of rows. A comparison with a
  \<open>NULL\<close> column is unknown and selects nothing; no nullable column stands under a negation in
  these conditions, so unknown is \<open>False\<close> here.
\<close>

section \<open>Rows\<close>

datatype action_kind = DO | WAIT | MONITOR

datatype date_semantics = DEADLINE | REVIEW_ON | EXPECTED_AROUND

record dated_row =
  row_kind :: action_kind
  row_semantics :: date_semantics
  row_date :: "date option"
  row_precision :: date_precision

definition overdue_kind :: action_kind where
  "overdue_kind = DO"

definition overdue_semantics :: date_semantics where
  "overdue_semantics = DEADLINE"

definition review_kinds :: "action_kind list" where
  "review_kinds = [WAIT, MONITOR]"

definition approximate_precisions :: "date_precision list" where
  "approximate_precisions = [MONTH, QUARTER, HALF_YEAR, YEAR]"

section \<open>The reading of one row\<close>

definition period_end_for :: "date \<Rightarrow> date_precision \<Rightarrow> date" where
  \<comment> \<open>\<open>except InvalidPeriod\<close>, the only error \<open>period_bounds\<close> has for a stored date\<close>
  "period_end_for v p = (case period_bounds v p of Inl _ \<Rightarrow> v | Inr (_, e) \<Rightarrow> e)"

definition is_past_period :: "date option \<Rightarrow> date_precision \<Rightarrow> date \<Rightarrow> bool" where
  "is_past_period v p today =
     (case v of None \<Rightarrow> False | Some d \<Rightarrow> period_end_for d p < today)"

definition days_past_period :: "date option \<Rightarrow> date_precision \<Rightarrow> date \<Rightarrow> int" where
  "days_past_period v p today =
     (case v of
        None \<Rightarrow> 0
      | Some d \<Rightarrow> let e = period_end_for d p in if e < today then ordinal today - ordinal e else 0)"

definition period_start_for :: "date \<Rightarrow> date_precision \<Rightarrow> date" where
  "period_start_for v p = (case period_bounds v p of Inl _ \<Rightarrow> v | Inr (s, _) \<Rightarrow> s)"

definition review_has_come_round :: "date option \<Rightarrow> date_precision \<Rightarrow> date \<Rightarrow> bool" where
  "review_has_come_round v p today =
     (case v of None \<Rightarrow> False | Some d \<Rightarrow> period_start_for d p \<le> today)"

definition expectation_has_come_round :: "date option \<Rightarrow> date_precision \<Rightarrow> date \<Rightarrow> bool" where
  "expectation_has_come_round v p today =
     (case v of None \<Rightarrow> False | Some d \<Rightarrow> period_end_for d p \<le> today)"

definition is_review_due ::
  "action_kind \<Rightarrow> date option \<Rightarrow> date_precision \<Rightarrow> date \<Rightarrow> date_semantics \<Rightarrow> bool" where
  "is_review_due kind v p today sem =
     (if kind \<notin> set review_kinds then False
      else if sem = EXPECTED_AROUND then expectation_has_come_round v p today
      else review_has_come_round v p today)"

section \<open>The reading of a queryset\<close>

type_synonym q = "dated_row \<Rightarrow> bool"

definition date_where :: "(date \<Rightarrow> bool) \<Rightarrow> q" where
  \<comment> \<open>\<open>Q(target_date__lt=...)\<close>: false of \<open>NULL\<close>\<close>
  "date_where c r = (case row_date r of None \<Rightarrow> False | Some d \<Rightarrow> c d)"

definition exact_branch :: "(date \<Rightarrow> bool) \<Rightarrow> q" where
  \<comment> \<open>\<open>~Q(date_precision__in=APPROXIMATE_PRECISIONS) & Q(target_date...)\<close>\<close>
  "exact_branch c r \<longleftrightarrow> row_precision r \<notin> set approximate_precisions \<and> date_where c r"

fun or_branches ::
  "(date_precision \<Rightarrow> date_error + (date \<Rightarrow> bool)) \<Rightarrow> date_precision list \<Rightarrow> q \<Rightarrow> date_error + q" where
  \<comment> \<open>the loop \<open>condition |= Q(date_precision=precision, target_date...)\<close>\<close>
  "or_branches bound [] condition = Inr condition"
| "or_branches bound (p # ps) condition =
     (case bound p of
        Inl e \<Rightarrow> Inl e
      | Inr c \<Rightarrow> or_branches bound ps (\<lambda>r. condition r \<or> row_precision r = p \<and> date_where c r))"

definition before_period :: "date \<Rightarrow> date_precision \<Rightarrow> date_error + (date \<Rightarrow> bool)" where
  "before_period day p =
     (case period_bounds day p of Inl e \<Rightarrow> Inl e | Inr (s, _) \<Rightarrow> Inr (\<lambda>d. d < s))"

definition until_period :: "date \<Rightarrow> date_precision \<Rightarrow> date_error + (date \<Rightarrow> bool)" where
  "until_period day p =
     (case period_bounds day p of Inl e \<Rightarrow> Inl e | Inr (_, e) \<Rightarrow> Inr (\<lambda>d. d \<le> e))"

definition overdue_date_q :: "date \<Rightarrow> date_error + q" where
  "overdue_date_q today =
     or_branches (before_period today) approximate_precisions (exact_branch (\<lambda>d. d < today))"

definition overdue_q :: "date \<Rightarrow> date_error + q" where
  "overdue_q today =
     (case overdue_date_q today of
        Inl e \<Rightarrow> Inl e
      | Inr dates \<Rightarrow>
          Inr (\<lambda>r. row_kind r = overdue_kind \<and> row_semantics r = overdue_semantics \<and> dates r))"

definition review_due_date_q :: "date \<Rightarrow> date_error + q" where
  "review_due_date_q today =
     or_branches (until_period today) approximate_precisions (exact_branch (\<lambda>d. d \<le> today))"

definition expectation_due_date_q :: "date \<Rightarrow> date_error + q" where
  "expectation_due_date_q today =
     (case date_plus today 1 of
        Inl e \<Rightarrow> Inl e
      | Inr tomorrow \<Rightarrow>
          or_branches (before_period tomorrow) approximate_precisions (exact_branch (\<lambda>d. d \<le> today)))"

definition review_due_q :: "date \<Rightarrow> date_error + q" where
  "review_due_q today =
     (case review_due_date_q today of
        Inl e \<Rightarrow> Inl e
      | Inr reviews \<Rightarrow>
          (case expectation_due_date_q today of
             Inl e \<Rightarrow> Inl e
           | Inr expectations \<Rightarrow>
               Inr (\<lambda>r. row_kind r \<in> set review_kinds \<and> row_date r \<noteq> None \<and>
                      (row_semantics r \<noteq> EXPECTED_AROUND \<and> reviews r
                       \<or> row_semantics r = EXPECTED_AROUND \<and> expectations r))))"

section \<open>The two readings agree\<close>

lemmas lateness_defs = period_end_for_def period_start_for_def before_period_def until_period_def
  date_where_def exact_branch_def

lemma or_branches_Inr:
  assumes "list_all (\<lambda>p. bound p = Inr (limit p)) ps"
  shows "\<exists>Q. or_branches bound ps c = Inr Q \<and>
           (\<forall>r. Q r \<longleftrightarrow> c r \<or> row_precision r \<in> set ps \<and> date_where (limit (row_precision r)) r)"
  using assms
proof (induction ps arbitrary: c)
  case (Cons p ps)
  then have "list_all (\<lambda>p. bound p = Inr (limit p)) ps" by simp
  from Cons.IH [OF this, of "\<lambda>r. c r \<or> row_precision r = p \<and> date_where (limit p) r"] Cons.prems
  show ?case by auto
qed simp

lemma exact_period: "p \<notin> set approximate_precisions \<Longrightarrow> period_bounds v p = Inr (v, v)"
  by (cases p) (simp_all add: approximate_precisions_def exact_bounds_def)

lemma nested_periods:
  fixes s e s' e' t v :: "'a :: linorder"
  assumes "s' \<le> v" "v \<le> e'" "s \<le> t" "t \<le> e"
  shows "(s' \<le> t \<and> t \<le> e' \<Longrightarrow> s' = s) \<Longrightarrow> (s \<le> v \<and> v \<le> e \<Longrightarrow> e' = e) \<Longrightarrow> e' < t \<longleftrightarrow> v < s"
    and "(s' \<le> t \<and> t \<le> e' \<Longrightarrow> e' = e) \<Longrightarrow> (s \<le> v \<and> v \<le> e \<Longrightarrow> s' = s) \<Longrightarrow> s' \<le> t \<longleftrightarrow> v \<le> e"
  using assms by (cases "e' < t"; cases "v < s"; cases "s' \<le> t"; cases "v \<le> e"; auto)+

lemma period_ends_before:
  \<comment> \<open>the inversion: a period has ended by a day iff its anchor falls before the period of that day\<close>
  assumes "period_bounds today p = Inr (s, e)" and "valid_date today" and "valid_date v"
  shows "period_end_for v p < today \<longleftrightarrow> v < s"
proof (cases "period_bounds v p")
  case (Inl err)
  have "s \<le> today" "today \<le> e" using anchor_in_bounds [OF assms(1,2)] by simp_all
  moreover have "\<not> (s \<le> v \<and> v \<le> e)" using same_period [OF assms(1-3)] Inl by auto
  ultimately show ?thesis using Inl by (auto simp: period_end_for_def)
next
  case (Inr b)
  obtain s' e' where b: "period_bounds v p = Inr (s', e')" using Inr by (cases b) simp
  have v: "s' \<le> v" "v \<le> e'" and t: "s \<le> today" "today \<le> e"
    using anchor_in_bounds [OF b assms(3)] anchor_in_bounds [OF assms(1,2)] by simp_all
  have "s' \<le> today \<and> today \<le> e' \<Longrightarrow> s' = s" using same_period [OF b assms(3,2)] assms(1) by simp
  moreover have "s \<le> v \<and> v \<le> e \<Longrightarrow> e' = e" using same_period [OF assms(1-3)] b by simp
  ultimately have "e' < today \<longleftrightarrow> v < s" by (rule nested_periods(1) [OF v t])
  then show ?thesis by (simp add: period_end_for_def b)
qed

lemma period_starts_until:
  assumes "period_bounds today p = Inr (s, e)" and "valid_date today" and "valid_date v"
  shows "period_start_for v p \<le> today \<longleftrightarrow> v \<le> e"
proof (cases "period_bounds v p")
  case (Inl err)
  have "s \<le> today" "today \<le> e" using anchor_in_bounds [OF assms(1,2)] by simp_all
  moreover have "\<not> (s \<le> v \<and> v \<le> e)" using same_period [OF assms(1-3)] Inl by auto
  ultimately show ?thesis using Inl by (auto simp: period_start_for_def)
next
  case (Inr b)
  obtain s' e' where b: "period_bounds v p = Inr (s', e')" using Inr by (cases b) simp
  have v: "s' \<le> v" "v \<le> e'" and t: "s \<le> today" "today \<le> e"
    using anchor_in_bounds [OF b assms(3)] anchor_in_bounds [OF assms(1,2)] by simp_all
  have "s' \<le> today \<and> today \<le> e' \<Longrightarrow> e' = e" using same_period [OF b assms(3,2)] assms(1) by simp
  moreover have "s \<le> v \<and> v \<le> e \<Longrightarrow> s' = s" using same_period [OF assms(1-3)] b by simp
  ultimately have "s' \<le> today \<longleftrightarrow> v \<le> e" by (rule nested_periods(2) [OF v t])
  then show ?thesis by (simp add: period_start_for_def b)
qed

definition dated_by :: "(date \<Rightarrow> date_precision \<Rightarrow> bool) \<Rightarrow> q" where
  "dated_by rule r \<longleftrightarrow> (case row_date r of None \<Rightarrow> False | Some d \<Rightarrow> rule d (row_precision r))"

definition row_ok :: "dated_row \<Rightarrow> bool" where
  "row_ok r \<longleftrightarrow> (case row_date r of None \<Rightarrow> True | Some d \<Rightarrow> valid_date d)"

lemma q_reads_rule:
  assumes "\<And>p. p \<in> set approximate_precisions \<Longrightarrow> bound p = Inr (limit p)"
    and "\<And>d p. valid_date d \<Longrightarrow> p \<in> set approximate_precisions \<Longrightarrow> limit p d \<longleftrightarrow> rule d p"
    and "\<And>d p. valid_date d \<Longrightarrow> p \<notin> set approximate_precisions \<Longrightarrow> here d \<longleftrightarrow> rule d p"
  shows "\<exists>Q. or_branches bound approximate_precisions (exact_branch here) = Inr Q \<and>
           (\<forall>r. row_ok r \<longrightarrow> Q r = dated_by rule r)"
proof -
  have "list_all (\<lambda>p. bound p = Inr (limit p)) approximate_precisions"
    using assms(1) by (simp add: list_all_iff)
  then obtain Q where Q: "or_branches bound approximate_precisions (exact_branch here) = Inr Q"
      "\<forall>r. Q r \<longleftrightarrow> exact_branch here r \<or>
         row_precision r \<in> set approximate_precisions \<and> date_where (limit (row_precision r)) r"
    using or_branches_Inr [of bound limit] by blast
  have "Q r = dated_by rule r" if "row_ok r" for r
    using that assms(2,3) Q(2)
    by (cases "row_date r"; cases "row_precision r \<in> set approximate_precisions")
      (simp_all add: exact_branch_def date_where_def dated_by_def row_ok_def)
  with Q(1) show ?thesis by blast
qed

lemma period_bounds_supported:
  assumes "valid_date v" "is_supported_day v"
  obtains lo hi where "\<And>p. period_bounds v p = Inr (lo p, hi p)"
proof -
  have "\<exists>b. period_bounds v p = Inr (fst b, snd b)" for p
    using period_bounds_ok [OF assms(1)] supported_years [OF assms(2,1)] by (metis fst_conv snd_conv)
  then obtain b where "\<And>p. period_bounds v p = Inr (fst (b p), snd (b p))" by metis
  then show thesis by (rule that)
qed

lemma overdue_reads_rule:
  assumes "valid_date today" "is_supported_day today"
  shows "\<exists>Q. overdue_date_q today = Inr Q \<and>
           (\<forall>r. row_ok r \<longrightarrow> Q r = is_past_period (row_date r) (row_precision r) today)"
proof -
  obtain lo hi where today: "\<And>p. period_bounds today p = Inr (lo p, hi p)"
    using period_bounds_supported [OF assms] by blast
  have "\<exists>Q. overdue_date_q today = Inr Q \<and>
      (\<forall>r. row_ok r \<longrightarrow> Q r = dated_by (\<lambda>d p. period_end_for d p < today) r)"
    unfolding overdue_date_q_def
  proof (rule q_reads_rule [where limit = "\<lambda>p d. d < lo p"])
    show "before_period today p = Inr (\<lambda>d. d < lo p)" for p
      by (simp add: before_period_def today)
    show "d < lo p \<longleftrightarrow> period_end_for d p < today" if "valid_date d" for d p
      using period_ends_before [OF today assms(1) that] by simp
    show "d < today \<longleftrightarrow> period_end_for d p < today" if "p \<notin> set approximate_precisions" for d p
      by (simp add: period_end_for_def exact_period [OF that])
  qed
  then show ?thesis by (simp add: dated_by_def is_past_period_def)
qed

lemma review_reads_rule:
  assumes "valid_date today" "is_supported_day today"
  shows "\<exists>Q. review_due_date_q today = Inr Q \<and>
           (\<forall>r. row_ok r \<longrightarrow> Q r = review_has_come_round (row_date r) (row_precision r) today)"
proof -
  obtain lo hi where today: "\<And>p. period_bounds today p = Inr (lo p, hi p)"
    using period_bounds_supported [OF assms] by blast
  have "\<exists>Q. review_due_date_q today = Inr Q \<and>
      (\<forall>r. row_ok r \<longrightarrow> Q r = dated_by (\<lambda>d p. period_start_for d p \<le> today) r)"
    unfolding review_due_date_q_def
  proof (rule q_reads_rule [where limit = "\<lambda>p d. d \<le> hi p"])
    show "until_period today p = Inr (\<lambda>d. d \<le> hi p)" for p
      by (simp add: until_period_def today)
    show "d \<le> hi p \<longleftrightarrow> period_start_for d p \<le> today" if "valid_date d" for d p
      using period_starts_until [OF today assms(1) that] by simp
    show "d \<le> today \<longleftrightarrow> period_start_for d p \<le> today" if "p \<notin> set approximate_precisions" for d p
      by (simp add: period_start_for_def exact_period [OF that])
  qed
  then show ?thesis by (simp add: dated_by_def review_has_come_round_def)
qed

lemma period_end_valid: "valid_date v \<Longrightarrow> valid_date (period_end_for v p)"
  using anchor_in_bounds [of v p] by (auto simp: period_end_for_def split: sum.splits)

lemma tomorrow:
  assumes "valid_date today" "is_supported_day today" "today \<noteq> latest_day"
  shows "date_plus today 1 = Inr (next_day today)" "valid_date (next_day today)"
    "is_supported_day (next_day today)"
proof -
  have "year_of (next_day today) \<le> max_year" "year_of today \<le> year_of (next_day today)"
    using assms by (cases today; auto simp: next_day_def is_supported_day_def latest_day_def
      earliest_day_def date_order valid_date_def in_month_def max_year_def)+
  moreover have "min_year \<le> year_of today" using supported_years [OF assms(2,1)] by simp
  ultimately show v: "valid_date (next_day today)" and "date_plus today 1 = Inr (next_day today)"
    using assms(1) by (simp_all add: valid_date_def date_plus_def max_year_def min_year_def)
  have "next_day today \<le> latest_day"
    using assms less_next_day [of today latest_day]
    by (simp add: is_supported_day_def order_less_le) (simp add: latest_day_def in_month_def)
  moreover have "earliest_day \<le> next_day today"
    using assms next_day_greater [of today] by (auto simp: is_supported_day_def)
  ultimately show "is_supported_day (next_day today)" by (simp add: is_supported_day_def)
qed

lemma expectation_reads_rule:
  assumes "valid_date today" "is_supported_day today" "today \<noteq> latest_day"
  shows "\<exists>Q. expectation_due_date_q today = Inr Q \<and>
           (\<forall>r. row_ok r \<longrightarrow> Q r = expectation_has_come_round (row_date r) (row_precision r) today)"
proof -
  note next_day = tomorrow [OF assms]
  obtain lo hi where bounds: "\<And>p. period_bounds (next_day today) p = Inr (lo p, hi p)"
    using period_bounds_supported [OF next_day(2,3)] by blast
  have le: "d \<le> today \<longleftrightarrow> d < next_day today" if "valid_date d" for d
    using less_next_day [of today d] that assms(1) by (meson not_less valid_in_month)
  have "\<exists>Q. expectation_due_date_q today = Inr Q \<and>
      (\<forall>r. row_ok r \<longrightarrow> Q r = dated_by (\<lambda>d p. period_end_for d p \<le> today) r)"
    unfolding expectation_due_date_q_def next_day(1) sum.case
  proof (rule q_reads_rule [where limit = "\<lambda>p d. d < lo p"])
    show "before_period (next_day today) p = Inr (\<lambda>d. d < lo p)" for p
      by (simp add: before_period_def bounds)
    show "d < lo p \<longleftrightarrow> period_end_for d p \<le> today" if "valid_date d" for d p
      using period_ends_before [OF bounds next_day(2) that] le [OF period_end_valid [OF that]] by simp
    show "d \<le> today \<longleftrightarrow> period_end_for d p \<le> today" if "p \<notin> set approximate_precisions" for d p
      by (simp add: period_end_for_def exact_period [OF that])
  qed
  then show ?thesis by (simp add: dated_by_def expectation_has_come_round_def)
qed

end
