(* ===== verification/Holidays.thy ===== *)
theory Holidays
  imports Calendar "HOL-Library.Multiset"
begin

text \<open>
  \<open>src/app/core/holidays.py\<close>: the twelve public holidays of a year, three of them tied to Easter
  Sunday, and the sentence a date box says about a rest day.
\<close>

section \<open>The rules\<close>

definition national_day :: string where
  "national_day = ''rahvusp'' @ CHR 0xFC # ''ha''"

definition public_holiday :: string where
  "public_holiday = ''riigip'' @ CHR 0xFC # ''ha''"

definition fixed_holidays :: "(int \<times> int \<times> string) list" where
  "fixed_holidays =
     [(1, 1, ''uusaasta''),
      (2, 24, ''iseseisvusp'' @ CHR 0xE4 # ''ev''),
      (5, 1, ''kevadp'' @ CHR 0xFC # ''ha''),
      (6, 23, ''v'' @ CHR 0xF5 # ''idup'' @ CHR 0xFC # ''ha''),
      (6, 24, ''jaanip'' @ CHR 0xE4 # ''ev''),
      (8, 20, ''taasiseseisvumisp'' @ CHR 0xE4 # ''ev''),
      (12, 24, ''j'' @ CHR 0xF5 # ''ululaup'' @ CHR 0xE4 # ''ev''),
      (12, 25, ''esimene j'' @ CHR 0xF5 # ''ulup'' @ CHR 0xFC # ''ha''),
      (12, 26, ''teine j'' @ CHR 0xF5 # ''ulup'' @ CHR 0xFC # ''ha'')]"

definition easter_holidays :: "(int \<times> string) list" where
  "easter_holidays =
     [(- 2, ''suur reede''),
      (0, CHR 0xFC # ''lest'' @ CHR 0xF5 # ''usmisp'' @ CHR 0xFC # ''hade 1. p'' @ CHR 0xFC # ''ha''),
      (49, ''nelip'' @ CHR 0xFC # ''hade 1. p'' @ CHR 0xFC # ''ha'')]"

definition easter_sunday :: "int \<Rightarrow> date" where
  "easter_sunday year =
     (let a = year mod 19;
          b = year div 100; c = year mod 100;
          d = b div 4; e = b mod 4;
          f = (b + 8) div 25;
          g = (b - f + 1) div 3;
          h = (19 * a + b - d - g + 15) mod 30;
          i = c div 4; k = c mod 4;
          el = (32 + 2 * e + 2 * i - h - k) mod 7;
          m = (a + 11 * h + 22 * el) div 451
      in Date year ((h + el - 7 * m + 114) div 31) ((h + el - 7 * m + 114) mod 31 + 1))"

definition holidays :: "int \<Rightarrow> (date \<times> string) list" where
  \<comment> \<open>sorted by day; two holidays never share a day (\<open>holiday_days_distinct\<close>)\<close>
  "holidays year =
     (let days = map (\<lambda>(m, d, name). (Date year m d, name)) fixed_holidays;
          easter = easter_sunday year
      in sort_key fst (days @ map (\<lambda>(offset, name). (moved easter offset, name)) easter_holidays))"

definition estonian_public_holidays :: "int \<Rightarrow> (date \<times> string) list" where
  "estonian_public_holidays year = holidays year"

definition holiday_name :: "date \<Rightarrow> string option" where
  "holiday_name day = map_of (rev (estonian_public_holidays (year_of day))) day"

definition holiday_kind :: "date \<Rightarrow> string option" where
  "holiday_kind day =
     (if holiday_name day = None then None
      else if month_of day = 2 \<and> day_of day = 24 then Some national_day else Some public_holiday)"

record rest_day =
  rest_date :: date
  rest_holiday :: "string option"
  rest_kind :: "string option"

definition is_weekend :: "rest_day \<Rightarrow> bool" where
  "is_weekend r \<longleftrightarrow> 5 \<le> weekday (rest_date r)"

definition is_holiday :: "rest_day \<Rightarrow> bool" where
  "is_holiday r \<longleftrightarrow> rest_holiday r \<noteq> None"

definition is_rest_day :: "rest_day \<Rightarrow> bool" where
  "is_rest_day r \<longleftrightarrow> is_weekend r \<or> is_holiday r"

definition rest_day_of :: "date \<Rightarrow> rest_day" where
  "rest_day_of day =
     \<lparr>rest_date = day, rest_holiday = holiday_name day, rest_kind = holiday_kind day\<rparr>"

definition rest_label :: "rest_day \<Rightarrow> string" where
  "rest_label r =
     (case rest_holiday r of
        None \<Rightarrow> []
      | Some name \<Rightarrow> name @ '' ('' @ (case rest_kind r of None \<Rightarrow> ''None'' | Some k \<Rightarrow> k) @ '')'')"

definition date_notice :: "date option \<Rightarrow> string option" where
  "date_notice v =
     (case v of
        None \<Rightarrow> None
      | Some day \<Rightarrow>
          let written = two_digits (nat (day_of day)) @ CHR ''.'' # two_digits (nat (month_of day))
                @ CHR ''.'' # decimal (nat (year_of day))
          in case holiday_name day of
               Some name \<Rightarrow> Some (written @ '' valitud kuup'' @ CHR 0xE4 # ''ev on riigip'' @ CHR 0xFC # ''ha (''
                 @ name @ '').'')
             | None \<Rightarrow>
                 if 5 \<le> weekday day
                 then Some (written @ '' valitud kuup'' @ CHR 0xE4 # ''ev on '' @ weekday_names ! nat (weekday day) @ ''.'')
                 else None)"

section \<open>The church's computation of Easter\<close>

text \<open>
  The rule the algorithm is meant to compute: Easter is the first Sunday after the paschal full
  moon, whose day is read from the Gregorian lunar tables. \<open>paschal_moon\<close> is its distance from
  21 March: the value \<open>h\<close> of the tables, one less in the two cases where the tables move it.
\<close>

definition epact_term :: "int \<Rightarrow> int" where
  "epact_term year =
     (let b = year div 100
      in (19 * (year mod 19) + b - b div 4 - (b - (b + 8) div 25 + 1) div 3 + 15) mod 30)"

definition paschal_moon :: "int \<Rightarrow> int" where
  "paschal_moon year =
     (let h = epact_term year
      in if h = 29 \<or> h = 28 \<and> 10 < year mod 19 then h - 1 else h)"

definition march_day :: "int \<Rightarrow> int \<Rightarrow> date" where
  \<comment> \<open>the \<open>n\<close>-th day counted from 1 March, in March or April\<close>
  "march_day year n = (if n \<le> 31 then Date year 3 n else Date year 4 (n - 31))"

definition sunday_term :: "int \<Rightarrow> int" where
  "sunday_term year =
     (32 + 2 * (year div 100 mod 4) + 2 * (year mod 100 div 4) - epact_term year - year mod 100 mod 4) mod 7"

definition easter_offset :: "int \<Rightarrow> int" where
  \<comment> \<open>days from 22 March\<close>
  "easter_offset year =
     (let h = epact_term year; l = sunday_term year
      in h + l - 7 * ((year mod 19 + 11 * h + 22 * l) div 451))"

lemma epact_bounds: "0 \<le> epact_term y" "epact_term y \<le> 29"
proof -
  show "0 \<le> epact_term y" by (simp add: epact_term_def Let_def)
  have "x mod 30 \<le> 29" for x :: int using pos_mod_bound [of 30 x] by linarith
  then show "epact_term y \<le> 29" by (simp add: epact_term_def Let_def)
qed

lemma sunday_bounds: "0 \<le> sunday_term y" "sunday_term y \<le> 6"
proof -
  show "0 \<le> sunday_term y" by (simp add: sunday_term_def)
  have "x mod 7 \<le> 6" for x :: int using pos_mod_bound [of 7 x] by linarith
  then show "sunday_term y \<le> 6" by (simp add: sunday_term_def)
qed

lemma century_step:
  fixes a h l :: int
  assumes "0 \<le> a" "a \<le> 18" "0 \<le> h" "h \<le> 29" "0 \<le> l" "l \<le> 6"
  shows "(a + 11 * h + 22 * l) div 451 = (if l = 6 \<and> (h = 29 \<or> h = 28 \<and> 10 < a) then 1 else 0)"
proof (cases "l = 6 \<and> (h = 29 \<or> h = 28 \<and> 10 < a)")
  case True
  then have "451 \<le> a + 11 * h + 22 * l" "a + 11 * h + 22 * l < 902" using assms by auto
  then have "(a + 11 * h + 22 * l) div 451 = 1"
    by (intro int_div_pos_eq [of _ _ _ "a + 11 * h + 22 * l - 451"]) simp_all
  with True show ?thesis by simp
next
  case False
  have "a + 11 * h + 22 * l < 451"
  proof (rule ccontr)
    assume "\<not> ?thesis"
    with assms have l: "l = 6" by presburger
    with \<open>\<not> ?thesis\<close> assms have "28 \<le> h" by presburger
    with l \<open>\<not> ?thesis\<close> assms have "h = 29 \<or> h = 28 \<and> 10 < a" by presburger
    with l False show False by simp
  qed
  with assms False show ?thesis by (simp add: div_pos_pos_trivial)
qed

lemma easter_offset_moon:
  "paschal_moon y \<le> easter_offset y" "easter_offset y \<le> paschal_moon y + 6"
  "0 \<le> easter_offset y" "easter_offset y \<le> 34"
proof -
  have a: "0 \<le> y mod 19" "y mod 19 \<le> 18" using pos_mod_bound [of 19 y] by simp_all
  note h = epact_bounds [of y] and l = sunday_bounds [of y]
  have e: "easter_offset y = epact_term y + sunday_term y
      - 7 * (if sunday_term y = 6 \<and> (epact_term y = 29 \<or> epact_term y = 28 \<and> 10 < y mod 19) then 1 else 0)"
    using century_step [OF a h l] by (simp only: easter_offset_def Let_def)
  show "paschal_moon y \<le> easter_offset y" "easter_offset y \<le> paschal_moon y + 6"
    "0 \<le> easter_offset y" "easter_offset y \<le> 34"
    using h l by (auto simp: e paschal_moon_def Let_def)
qed

lemma easter_sunday_eq: "easter_sunday y = march_day y (22 + easter_offset y)"
proof -
  have "easter_sunday y = Date y ((easter_offset y + 114) div 31) ((easter_offset y + 114) mod 31 + 1)"
    by (simp only: easter_sunday_def easter_offset_def epact_term_def sunday_term_def Let_def)
  moreover have "(n + 114) div 31 = (if n \<le> 9 then 3 else 4) \<and>
      (n + 114) mod 31 = (if n \<le> 9 then n + 21 else n - 10)" if "0 \<le> n" "n \<le> 34" for n :: int
  proof (cases "n \<le> 9")
    case True
    with that show ?thesis
      using int_div_pos_eq [of "n + 114" 31 3 "n + 21"] int_mod_pos_eq [of "n + 114" 31 3 "n + 21"] by simp
  next
    case False
    with that show ?thesis
      using int_div_pos_eq [of "n + 114" 31 4 "n - 10"] int_mod_pos_eq [of "n + 114" 31 4 "n - 10"] by simp
  qed
  ultimately show ?thesis
    using easter_offset_moon(3,4) [of y] by (simp add: march_day_def)
qed

lemma ordinal_march_day:
  "ordinal (march_day y n) = 365 * (y - 1) + y div 4 - y div 100 + y div 400 + 59 + n"
proof -
  have "days_before_year y + (if is_leap y then 1 else 0) = 365 * (y - 1) + y div 4 - y div 100 + y div 400"
    using days_before_year_Suc [of y] by (simp add: days_before_year_def [of "y + 1"] split: if_splits)
  then show ?thesis by (simp add: march_day_def ordinal_def days_before_month_def)
qed

lemma in_month_march_day [simp]: "1 \<le> n \<Longrightarrow> n \<le> 61 \<Longrightarrow> in_month (march_day y n)"
  by (simp add: march_day_def in_month_def monthrange_def)

lemma easter_is_sunday: "weekday (easter_sunday y) = 6"
proof -
  define b c d e i k where "b = y div 100" and "c = y mod 100" and "d = b div 4" and "e = b mod 4"
    and "i = c div 4" and "k = c mod 4"
  have y: "y = 100 * b + c" and b: "b = 4 * d + e" and c: "c = 4 * i + k"
    by (simp_all add: b_def c_def d_def e_def i_def k_def)
  have quarters: "y div 4 = 25 * b + i" by (simp add: y i_def)
  have centuries: "y div 400 = d" by (simp add: d_def b_def div_mult2_eq [symmetric])
  define t where "t = (32 + 2 * e + 2 * i - epact_term y - k) div 7"
  have l: "sunday_term y = 32 + 2 * e + 2 * i - epact_term y - k - 7 * t"
    unfolding sunday_term_def t_def b_def [symmetric] c_def [symmetric] e_def [symmetric] i_def [symmetric]
      k_def [symmetric] by (simp add: minus_mult_div_eq_mod [symmetric])
  define m where "m = (y mod 19 + 11 * epact_term y + 22 * sunday_term y) div 451"
  have off: "easter_offset y = epact_term y + sunday_term y - 7 * m"
    by (simp only: easter_offset_def Let_def m_def)
  have "ordinal (easter_sunday y) = 365 * (y - 1) + (25 * b + i) - b + d + 59 + (22 + easter_offset y)"
    by (simp only: easter_sunday_eq ordinal_march_day quarters centuries b_def [symmetric])
  also have "\<dots> = 7 * (20871 * d + 5218 * e + 209 * i + 52 * k - 36 - t - m)"
    unfolding off l by (simp add: y b c)
  finally have "ordinal (easter_sunday y) mod 7 = 0" by simp
  then have "7 dvd ordinal (easter_sunday y)" by (simp add: mod_eq_0_iff_dvd)
  then obtain n where "ordinal (easter_sunday y) = 7 * n" by (rule dvdE)
  then have "weekday (easter_sunday y) = (6 + n * 7) mod 7" by (simp add: weekday_def algebra_simps)
  then show ?thesis by simp
qed

lemma easter_after_moon:
  "ordinal (march_day y (21 + paschal_moon y)) < ordinal (easter_sunday y)"
  "ordinal (easter_sunday y) \<le> ordinal (march_day y (21 + paschal_moon y)) + 7"
  using easter_offset_moon [of y] by (simp_all add: easter_sunday_eq ordinal_march_day)

lemma in_month_easter [simp]: "in_month (easter_sunday y)"
  using easter_offset_moon(3,4) [of y] by (simp add: easter_sunday_eq)

lemma easter_between: "Date y 3 22 \<le> easter_sunday y" "easter_sunday y \<le> Date y 4 25"
  using easter_offset_moon(3,4) [of y] by (simp_all add: easter_sunday_eq march_day_def date_order)

section \<open>Twelve different days\<close>

lemma next_days: "in_month d \<Longrightarrow> ordinal e = ordinal d + n \<Longrightarrow> in_month e \<Longrightarrow> moved d n = e"
  using ordinal_eq [of "moved d n" e] by simp

lemma moved_between:
  assumes "in_month d" "in_month lo" "in_month hi"
    and "ordinal lo \<le> ordinal d + n" "ordinal d + n \<le> ordinal hi"
  shows "lo \<le> moved d n \<and> moved d n \<le> hi"
  using assms ordinal_le [of lo "moved d n"] ordinal_le [of "moved d n" hi] by simp

lemma fixed_in_month [simp]:
  "in_month (Date y 3 20)" "in_month (Date y 3 22)" "in_month (Date y 4 23)" "in_month (Date y 4 25)"
  "in_month (Date y 5 10)" "in_month (Date y 6 13)"
  by (simp_all add: in_month_def monthrange_def)

lemma fixed_ordinals:
  "ordinal (Date y 3 20) = ordinal (Date y 3 22) - 2" "ordinal (Date y 4 23) = ordinal (Date y 4 25) - 2"
  "ordinal (Date y 5 10) = ordinal (Date y 3 22) + 49" "ordinal (Date y 6 13) = ordinal (Date y 4 25) + 49"
  by (simp_all add: ordinal_def days_before_month_def)

lemma easter_ordinals:
  "ordinal (Date y 3 22) \<le> ordinal (easter_sunday y)" "ordinal (easter_sunday y) \<le> ordinal (Date y 4 25)"
  using easter_between [of y] by simp_all

lemma good_friday: "Date y 3 20 \<le> moved (easter_sunday y) (- 2)" "moved (easter_sunday y) (- 2) \<le> Date y 4 23"
  using easter_between [of y] fixed_ordinals [of y]
    moved_between [of "easter_sunday y" "Date y 3 20" "Date y 4 23" "- 2"]
  by simp_all

lemma whit_sunday: "Date y 5 10 \<le> moved (easter_sunday y) 49" "moved (easter_sunday y) 49 \<le> Date y 6 13"
  using easter_ordinals [of y] fixed_ordinals [of y]
    moved_between [of "easter_sunday y" "Date y 5 10" "Date y 6 13" 49]
  by simp_all

lemma easter_days_distinct: "moved (easter_sunday y) (- 2) < easter_sunday y" "easter_sunday y < moved (easter_sunday y) 49"
  using ordinal_less [of "moved (easter_sunday y) (- 2)" "easter_sunday y"]
    ordinal_less [of "easter_sunday y" "moved (easter_sunday y) 49"] by simp_all

lemma moved_0 [simp]: "moved d 0 = d"
  by (simp add: moved_def)

lemma holidays_eq:
  "holidays y = sort_key fst (map (\<lambda>(m, d, name). (Date y m d, name)) fixed_holidays
     @ map (\<lambda>(offset, name). (moved (easter_sunday y) offset, name)) easter_holidays)"
  by (simp add: holidays_def Let_def)

lemma day_sequence:
  "sorted_wrt (<) [Date y 1 1, Date y 2 24, moved (easter_sunday y) (- 2), easter_sunday y, Date y 5 1,
     moved (easter_sunday y) 49, Date y 6 23, Date y 6 24, Date y 8 20, Date y 12 24, Date y 12 25, Date y 12 26]"
proof -
  have "Date y 2 24 < Date y 3 20" "Date y 4 25 < Date y 5 1" "Date y 5 1 < Date y 5 10"
    "Date y 6 13 < Date y 6 23" by (simp_all add: less_date_def)
  then have "Date y 2 24 < moved (easter_sunday y) (- 2)" "easter_sunday y < Date y 5 1"
    "Date y 5 1 < moved (easter_sunday y) 49" "moved (easter_sunday y) 49 < Date y 6 23"
    using good_friday [of y] whit_sunday [of y] easter_between [of y] by order+
  moreover have "Date y 1 1 < Date y 2 24" "Date y 6 23 < Date y 6 24" "Date y 6 24 < Date y 8 20"
    "Date y 8 20 < Date y 12 24" "Date y 12 24 < Date y 12 25" "Date y 12 25 < Date y 12 26"
    by (simp_all add: less_date_def)
  ultimately show ?thesis
    using easter_days_distinct(1) [of y]
    by (simp only: sorted_wrt2 [OF transp_on_less] sorted_wrt1 simp_thms)
qed

lemma holiday_days_distinct: "distinct (map fst (holidays y))"
proof -
  have "mset (map fst (holidays y)) = mset [Date y 1 1, Date y 2 24, moved (easter_sunday y) (- 2),
      easter_sunday y, Date y 5 1, moved (easter_sunday y) 49, Date y 6 23, Date y 6 24, Date y 8 20,
      Date y 12 24, Date y 12 25, Date y 12 26]"
    by (simp add: holidays_eq fixed_holidays_def easter_holidays_def)
  moreover have "distinct [Date y 1 1, Date y 2 24, moved (easter_sunday y) (- 2),
      easter_sunday y, Date y 5 1, moved (easter_sunday y) 49, Date y 6 23, Date y 6 24, Date y 8 20,
      Date y 12 24, Date y 12 25, Date y 12 26]"
    using day_sequence [of y] strict_sorted_iff by blast
  ultimately show ?thesis by (metis mset_eq_imp_distinct_iff)
qed

lemma year_between: "Date y a b \<le> d \<Longrightarrow> d \<le> Date y a' b' \<Longrightarrow> year_of d = y"
  by (auto simp: date_order)

lemma length_holidays: "length (holidays y) = 12"
  by (simp add: holidays_eq fixed_holidays_def easter_holidays_def)

lemma holiday_dates:
  "fst ` set (holidays y) = {Date y 1 1, Date y 2 24, moved (easter_sunday y) (- 2),
      easter_sunday y, Date y 5 1, moved (easter_sunday y) 49, Date y 6 23, Date y 6 24, Date y 8 20,
      Date y 12 24, Date y 12 25, Date y 12 26}"
  unfolding holidays_eq set_sort by (auto simp: fixed_holidays_def easter_holidays_def)

lemma holidays_of_year: "d \<in> fst ` set (holidays y) \<Longrightarrow> year_of d = y"
  using year_between [OF good_friday] year_between [OF whit_sunday] year_between [OF easter_between]
  by (auto simp: holiday_dates)

end
