(* ===== verification/DateProperties.thy ===== *)
theory DateProperties
  imports Lateness Holidays
begin

text \<open>
  What the date rules promise together: a written date is read back, periods partition the
  calendar, the two readings of lateness and of a review agree, consecutive windows share
  nothing and miss nothing, Easter is where the church's tables put it.
\<close>

section \<open>Writing and reading\<close>



lemma digits_ascii: "list_all is_digit s \<Longrightarrow> is_ascii s"
  by (auto simp: is_ascii_def is_digit_def list_all_iff)

lemma year_from_Some:
  "year_from (Some s) = Inr (Some y) \<longleftrightarrow>
     list_all is_digit (strip s) \<and> strip s \<noteq> [] \<and> length (strip s) \<le> max_str_digits
     \<and> y = int (number (strip s)) \<and> min_year \<le> y \<and> y \<le> max_year"
  by (auto simp: year_from_def int_of_digits_def Let_def digits_ascii split: if_splits)

lemma year_from_raises:
  \<comment> \<open>a number longer than Python converts is not read as absent: the conversion raises\<close>
  "year_from (Some s) = Inl e \<longleftrightarrow>
     e = ValueError \<and> list_all is_digit (strip s) \<and> max_str_digits < length (strip s)"
  by (auto simp: year_from_def int_of_digits_def Let_def digits_ascii max_str_digits_def split: if_splits)

section \<open>Periods\<close>

text \<open>The days a recorded period stands for include its anchor, and every day among them
  anchors exactly the same period: periods of one precision partition the calendar.\<close>

theorem periods_partition:
  assumes "valid_date v" and "period_bounds v p = Inr (s, e)" and "valid_date w"
  shows "s \<le> v \<and> v \<le> e \<and> (s \<le> w \<and> w \<le> e \<longleftrightarrow> period_bounds w p = Inr (s, e))"
  using anchor_in_bounds [OF assms(2,1)] same_period [OF assms(2,1,3)] anchor_in_bounds [of w p s e] assms(3)
  by blast

theorem periods_partition_witness:
  "period_bounds (Date 2026 11 3) QUARTER = Inr (Date 2026 10 1, Date 2026 12 31)
    \<and> period_bounds (Date 2026 12 31) QUARTER = Inr (Date 2026 10 1, Date 2026 12 31)"
proof -
  have v: "valid_date (Date 2026 11 3)" "valid_date (Date 2026 12 31)"
    by (simp_all add: valid_date_def in_month_def monthrange_def)
  have b: "period_bounds (Date 2026 11 3) QUARTER = Inr (Date 2026 10 1, Date 2026 12 31)" by code_simp
  from periods_partition [OF v(1) b v(2)] b show ?thesis by (simp add: date_order)
qed

section \<open>Lateness and reviews, read two ways\<close>

text \<open>C32: on a supported day the condition that selects late rows in SQL selects exactly the rows
  whose reading in Python is late: a task with a deadline whose whole period has ended.\<close>

theorem overdue_readings_agree:
  assumes "valid_date today" and "is_supported_day today" and "row_ok r"
  shows "\<exists>Q. overdue_q today = Inr Q \<and>
    Q r = (row_kind r = DO \<and> row_semantics r = DEADLINE
           \<and> is_past_period (row_date r) (row_precision r) today)"
  using overdue_reads_rule [OF assms(1,2)] assms(3)
  by (auto simp: overdue_q_def overdue_kind_def overdue_semantics_def)

theorem overdue_readings_agree_witness:
  "let r = \<lparr>row_kind = DO, row_semantics = DEADLINE, row_date = Some (Date 2026 9 1), row_precision = MONTH\<rparr>
   in (\<exists>Q. overdue_q (Date 2026 9 30) = Inr Q \<and> \<not> Q r) \<and> (\<exists>Q. overdue_q (Date 2026 10 1) = Inr Q \<and> Q r)"
proof -
  define r where "r = \<lparr>row_kind = DO, row_semantics = DEADLINE, row_date = Some (Date 2026 9 1), row_precision = MONTH\<rparr>"
  have ok: "row_ok r" by (simp add: r_def row_ok_def valid_date_def in_month_def)
  have days: "valid_date (Date 2026 9 30)" "is_supported_day (Date 2026 9 30)"
    "valid_date (Date 2026 10 1)" "is_supported_day (Date 2026 10 1)"
    by code_simp+
  have "\<not> is_past_period (Some (Date 2026 9 1)) MONTH (Date 2026 9 30)"
    "is_past_period (Some (Date 2026 9 1)) MONTH (Date 2026 10 1)" by code_simp+
  then show ?thesis
    using overdue_readings_agree [OF days(1,2) ok] overdue_readings_agree [OF days(3,4) ok]
    unfolding r_def [symmetric] Let_def by (simp add: r_def)
qed

text \<open>On a supported day before the last one, the condition that selects the rows due for a
  look selects exactly the rows the rule for one row answers for, reviews and expectations alike.\<close>

theorem review_readings_agree:
  assumes "valid_date today" and "is_supported_day today" and "today \<noteq> latest_day" and "row_ok r"
  shows "\<exists>Q. review_due_q today = Inr Q \<and>
    Q r = is_review_due (row_kind r) (row_date r) (row_precision r) today (row_semantics r)"
proof -
  obtain R where R: "review_due_date_q today = Inr R"
      "R r = review_has_come_round (row_date r) (row_precision r) today"
    using review_reads_rule [OF assms(1,2)] assms(4) by blast
  obtain E where E: "expectation_due_date_q today = Inr E"
      "E r = expectation_has_come_round (row_date r) (row_precision r) today"
    using expectation_reads_rule [OF assms(1-3)] assms(4) by blast
  show ?thesis
    by (cases "row_date r")
      (auto simp: review_due_q_def R E is_review_due_def review_has_come_round_def
        expectation_has_come_round_def)
qed

theorem review_readings_agree_witness:
  "let r = \<lparr>row_kind = WAIT, row_semantics = EXPECTED_AROUND, row_date = Some (Date 2026 10 1), row_precision = QUARTER\<rparr>
   in \<exists>Q. review_due_q (Date 2026 12 30) = Inr Q \<and> \<not> Q r"
proof -
  define r where "r = \<lparr>row_kind = WAIT, row_semantics = EXPECTED_AROUND, row_date = Some (Date 2026 10 1), row_precision = QUARTER\<rparr>"
  have "row_ok r" by (simp add: r_def row_ok_def valid_date_def in_month_def)
  moreover have "valid_date (Date 2026 12 30)" "is_supported_day (Date 2026 12 30)" "Date 2026 12 30 \<noteq> latest_day"
    by code_simp+
  moreover have "\<not> is_review_due WAIT (Some (Date 2026 10 1)) QUARTER (Date 2026 12 30) EXPECTED_AROUND"
    by code_simp
  ultimately show ?thesis
    using review_readings_agree [of "Date 2026 12 30" r] unfolding r_def [symmetric] Let_def by (simp add: r_def)
qed

section \<open>Consecutive windows\<close>

fun windows :: "date \<Rightarrow> date list \<Rightarrow> (date \<times> date option) list" where
  \<comment> \<open>the windows that begin on a day and end on the given days, and the one after them\<close>
  "windows start [] = [(start, None)]"
| "windows start (e # es) = (start, Some e) # windows (next_day e) es"

fun window_ends :: "date \<Rightarrow> date list \<Rightarrow> bool" where
  "window_ends start [] = True"
| "window_ends start (e # es) = (valid_date e \<and> start \<le> e \<and> window_ends (next_day e) es)"

definition in_windows :: "date option \<Rightarrow> date_precision \<Rightarrow> date \<Rightarrow> (date \<times> date option) list \<Rightarrow> nat" where
  "in_windows v p today ws =
     length (filter (\<lambda>(s, e). period_in_window v p s e today = Inr True) ws)"

lemma day_windows:
  assumes "\<not> is_approximate p" and "in_month v"
  shows "window_ends start es \<Longrightarrow> in_windows (Some v) p today (windows start es) = (if start \<le> v then 1 else 0)"
proof (induction es arbitrary: start)
  case Nil
  then show ?case using assms by (simp add: in_windows_def period_in_window_def)
next
  case (Cons e es)
  have e: "valid_date e" "start \<le> e" "window_ends (next_day e) es" using Cons.prems by simp_all
  have "next_day e \<le> v \<longleftrightarrow> e < v" using less_next_day [of e v] e(1) assms(2) by simp
  moreover have "in_windows (Some v) p today (windows start (e # es)) =
      (if start \<le> v \<and> v \<le> e then 1 else 0) + in_windows (Some v) p today (windows (next_day e) es)"
    using assms(1) by (simp add: in_windows_def period_in_window_def)
  ultimately show ?case using Cons.IH [OF e(3)] e(2) by auto
qed

lemma period_windows:
  assumes "is_approximate p" and "period_bounds v p = Inr (s, f)" and "in_month today"
  shows "window_ends start es \<Longrightarrow> today \<le> start \<Longrightarrow> in_windows (Some v) p today (windows start es) = (if today \<le> f then 1 else 0)"
proof (induction es arbitrary: start)
  case Nil
  then show ?case using assms by (simp add: in_windows_def period_in_window_def min_absorb2)
next
  case (Cons e es)
  have e: "valid_date e" "start \<le> e" "window_ends (next_day e) es" using Cons.prems by simp_all
  have "today \<le> next_day e" using e Cons.prems(2) next_day_greater [of e] by (simp add: order.strict_implies_order order.trans)
  from Cons.IH [OF e(3) this] show ?case
    using assms(1) by (simp add: in_windows_def period_in_window_def)
qed

text \<open>Of consecutive windows beginning today, a date that has not gone by is in exactly one and
  one that has is in none, whether it is a day or a period that is still running.\<close>

theorem one_window:
  assumes "valid_date today" and "valid_date v" and "window_ends today ends"
    and "is_approximate p \<Longrightarrow> min_year \<le> year_of v \<and> year_of v \<le> max_year"
  shows "in_windows (Some v) p today (windows today ends) = (if is_past_period (Some v) p today then 0 else 1)"
proof (cases "is_approximate p")
  case True
  then obtain s f where b: "period_bounds v p = Inr (s, f)"
    using period_bounds_ok [OF assms(2)] assms(4) by blast
  with period_windows [OF True b _ assms(3)] assms(1) show ?thesis
    by (simp add: is_past_period_def period_end_for_def not_less [symmetric])
next
  case False
  then have "period_end_for v p = v" by (cases p) (simp_all add: is_approximate_def period_end_for_def exact_bounds_def)
  with day_windows [OF False _ assms(3)] assms(2) show ?thesis
    by (simp add: is_past_period_def not_less [symmetric])
qed

theorem one_window_witness:
  "in_windows (Some (Date 2026 10 1)) MONTH (Date 2026 10 9)
     (windows (Date 2026 10 9) [Date 2026 10 9, Date 2026 10 11, Date 2026 10 18]) = 1"
proof -
  have "valid_date (Date 2026 10 9)" "valid_date (Date 2026 10 1)"
    "window_ends (Date 2026 10 9) [Date 2026 10 9, Date 2026 10 11, Date 2026 10 18]"
    "\<not> is_past_period (Some (Date 2026 10 1)) MONTH (Date 2026 10 9)" by code_simp+
  then show ?thesis
    using one_window [of "Date 2026 10 9" "Date 2026 10 1" "[Date 2026 10 9, Date 2026 10 11, Date 2026 10 18]" MONTH]
    by (simp add: min_year_def max_year_def)
qed

section \<open>Holidays\<close>

text \<open>In every year the algorithm's Easter is the Sunday the church's rule names, at most a week
  after the paschal full moon and never on or before it, from 22 March to 25 April; and the
  twelve holidays of the year are twelve different days of that year.\<close>

theorem easter_and_holidays:
  "weekday (easter_sunday y) = 6
   \<and> ordinal (march_day y (21 + paschal_moon y)) < ordinal (easter_sunday y)
   \<and> ordinal (easter_sunday y) \<le> ordinal (march_day y (21 + paschal_moon y)) + 7
   \<and> Date y 3 22 \<le> easter_sunday y \<and> easter_sunday y \<le> Date y 4 25
   \<and> length (holidays y) = 12 \<and> distinct (map fst (holidays y))
   \<and> list_all (\<lambda>d. year_of d = y) (map fst (holidays y))"
  using easter_is_sunday [of y] easter_after_moon [of y] easter_between [of y] length_holidays [of y]
    holiday_days_distinct [of y] holidays_of_year [of _ y]
  by (auto simp: list_all_iff)

end
