(* ===== verification/StageFlow.thy ===== *)
theory StageFlow
  imports Prelude
begin

text \<open>
  \<open>src/app/workflow/stage_flow.py\<close> and \<open>src/app/workflow/stage_guidance.py\<close>: which stage of a
  matter ends it, which stages are offered next and in which order, which a closed matter may be
  reopened into, and which are drawn as unusual for the ticked instruments. Stages and
  instruments are their keys; no stage is \<open>None\<close>. A Python set is a list here wherever only
  membership is asked of it.
\<close>

section \<open>The vocabularies\<close>

definition in_force :: string where "in_force = ''in_force''"

definition monitoring_stopped :: string where "monitoring_stopped = ''monitoring_stopped''"

definition awaiting_transposition :: string where "awaiting_transposition = ''awaiting_transposition''"

datatype disposition =
    COMPLETED | SUPERSEDED | INITIATIVE_WITHDRAWN | MONITORING_STOPPED | NO_POSITION_FORMED
  | RESPONSE_COMPLETE | DUPLICATE | OTHER_DISPOSITION

definition terminal_dispositions :: "(string \<times> disposition) list" where
  "terminal_dispositions = [(in_force, COMPLETED), (monitoring_stopped, MONITORING_STOPPED)]"

definition terminal_stage_keys :: "string list" where
  "terminal_stage_keys = map fst terminal_dispositions"

datatype flow = FLOW_DOMESTIC | FLOW_EU

definition domestic_stage_keys :: "string list" where
  "domestic_stage_keys = [''idea'', ''consultation'', ''government'', ''parliament'']"

definition eu_stage_keys :: "string list" where
  "eu_stage_keys = [''estonian_eu_position'', ''eu_procedure'', awaiting_transposition]"

fun flow_chain :: "flow \<Rightarrow> string list" where
  "flow_chain FLOW_DOMESTIC = domestic_stage_keys @ [''awaiting_entry'']"
| "flow_chain FLOW_EU = [''estonian_eu_position'', ''eu_procedure'', ''awaiting_entry'', awaiting_transposition]"

definition eu_to_domestic_bridge :: "string list" where
  "eu_to_domestic_bridge = [''idea'', ''consultation'']"

definition common_tail :: "string list" where
  "common_tail = [in_force, ''other'', monitoring_stopped]"

definition domestic_legal_instrument_keys :: "string list" where
  "domestic_legal_instrument_keys =
     [''vtk'', ''seadus'', ''maarus'', ''koja-ettepanek'', ''strateegia-arengukava-tegevuskava'', ''muu-siseriiklik'']"

definition eu_legal_instrument_keys :: "string list" where
  "eu_legal_instrument_keys = [''eli-konsultatsioon'', ''direktiiv'', ''el-maarus'', ''muu-eli-dokument'']"

section \<open>Which procedure a matter is in\<close>

definition is_terminal :: "string option \<Rightarrow> bool" where
  "is_terminal k = (case k of None \<Rightarrow> False | Some s \<Rightarrow> s \<noteq> [] \<and> s \<in> set terminal_stage_keys)"

definition stage_flow :: "string option \<Rightarrow> flow option" where
  "stage_flow k =
     (case k of
        None \<Rightarrow> None
      | Some s \<Rightarrow> if s \<in> set domestic_stage_keys then Some FLOW_DOMESTIC
                  else if s \<in> set eu_stage_keys then Some FLOW_EU else None)"

fun first_flow :: "string option list \<Rightarrow> flow option" where
  "first_flow [] = None"
| "first_flow (k # ks) = (case stage_flow k of Some f \<Rightarrow> Some f | None \<Rightarrow> first_flow ks)"

definition flow_context :: "string option \<Rightarrow> string list \<Rightarrow> string list \<Rightarrow> flow option" where
  "flow_context current history instruments_ticked =
     (case first_flow (current # map Some history) of
        Some f \<Rightarrow> Some f
      | None \<Rightarrow>
          let instruments = filter (\<lambda>k. k \<noteq> []) instruments_ticked
          in if instruments \<noteq> [] \<and> list_all (\<lambda>k. k \<in> set domestic_legal_instrument_keys) instruments
             then Some FLOW_DOMESTIC
             else if instruments \<noteq> [] \<and> list_all (\<lambda>k. k \<in> set eu_legal_instrument_keys) instruments
             then Some FLOW_EU
             else None)"

section \<open>The stages offered\<close>

fun unique_from :: "string list \<Rightarrow> string list \<Rightarrow> string list" where
  \<comment> \<open>the loop of \<open>_ordered_unique\<close>; the first argument is \<open>seen\<close>\<close>
  "unique_from seen [] = []"
| "unique_from seen (k # ks) =
     (if k \<noteq> [] \<and> k \<notin> set seen then k # unique_from (k # seen) ks else unique_from seen ks)"

definition ordered_unique :: "string list \<Rightarrow> string list" where
  "ordered_unique ks = unique_from [] ks"

fun index_of :: "string \<Rightarrow> string list \<Rightarrow> nat" where
  \<comment> \<open>\<open>chain.index(key)\<close> of a key in the chain\<close>
  "index_of k [] = 0"
| "index_of k (x # xs) = (if x = k then 0 else Suc (index_of k xs))"

definition road :: "flow \<Rightarrow> string option \<Rightarrow> string list \<times> string list" where
  \<comment> \<open>what is ahead of the current stage and what is behind it\<close>
  "road f current =
     (let chain = flow_chain f;
          (forward, backward) =
            (case current of
               None \<Rightarrow> (chain, [])
             | Some k \<Rightarrow> if k \<in> set chain
                 then (drop (Suc (index_of k chain)) chain, take (index_of k chain) chain)
                 else (chain, []))
      in (if current = Some awaiting_transposition then eu_to_domestic_bridge @ forward else forward, backward))"

definition next_stage_keys ::
  "string option \<Rightarrow> string list \<Rightarrow> string list \<Rightarrow> string list \<Rightarrow> string list" where
  "next_stage_keys current history instruments available =
     (let ordered =
        (case flow_context current history instruments of
           None \<Rightarrow> available
         | Some f \<Rightarrow> let (forward, backward) = road f current
                     in forward @ common_tail @ backward @ history)
      in filter (\<lambda>k. k \<in> set available \<and> Some k \<noteq> current) (ordered_unique ordered))"

definition reopening_stage_keys ::
  "string option \<Rightarrow> string list \<Rightarrow> string list \<Rightarrow> string list \<Rightarrow> string list" where
  "reopening_stage_keys current history instruments available =
     (let ordered =
        (case flow_context current history instruments of
           None \<Rightarrow> available
         | Some f \<Rightarrow> flow_chain f @ (if f = FLOW_EU then eu_to_domestic_bridge else []) @ [''other''] @ history)
      in filter (\<lambda>k. k \<in> set available \<and> k \<notin> set terminal_stage_keys) (ordered_unique ordered))"

section \<open>Guidance\<close>

definition always_typical_stage_keys :: "string list" where
  "always_typical_stage_keys = [''other'', ''monitoring_stopped'']"

definition domestic_law_stages :: "string list" where
  "domestic_law_stages =
     [''idea'', ''consultation'', ''government'', ''parliament'', ''awaiting_entry'', ''in_force'']"

definition typical_stages_by_instrument :: "(string \<times> string list) list" where
  "typical_stages_by_instrument =
     [(''vtk'', [''idea'', ''other'']),
      (''seadus'', domestic_law_stages @ [''other'']),
      (''maarus'', filter (\<lambda>k. k \<noteq> ''parliament'') domestic_law_stages @ [''other'']),
      (''koja-ettepanek'', [''idea'', ''other'']),
      (''strateegia-arengukava-tegevuskava'', [''idea'', ''consultation'', ''government'', ''other'']),
      (''muu-siseriiklik'', domestic_law_stages @ [''other'']),
      (''eli-konsultatsioon'', [''estonian_eu_position'', ''eu_procedure'', ''other'']),
      (''direktiiv'', [''estonian_eu_position'', ''eu_procedure'', ''awaiting_entry'', ''awaiting_transposition'', ''other'']),
      (''el-maarus'', [''estonian_eu_position'', ''eu_procedure'', ''awaiting_entry'', ''in_force'', ''other'']),
      (''muu-eli-dokument'', [''estonian_eu_position'', ''eu_procedure'', ''awaiting_entry'', ''in_force'',
         ''awaiting_transposition'', ''other''])]"

definition prefill_stage_by_instrument :: "(string \<times> string) list" where
  "prefill_stage_by_instrument =
     sort_key fst (concat (map (\<lambda>(k, stages).
       case filter (\<lambda>s. s \<notin> set always_typical_stage_keys) stages of [s] \<Rightarrow> [(k, s)] | _ \<Rightarrow> [])
       typical_stages_by_instrument))"

fun typical_union :: "string list \<Rightarrow> string list \<Rightarrow> string list option" where
  \<comment> \<open>the loop of \<open>typical_stage_keys\<close>; an instrument the matrix does not know ends it with \<open>None\<close>\<close>
  "typical_union typical [] = Some typical"
| "typical_union typical (k # ks) =
     (case map_of typical_stages_by_instrument k of
        None \<Rightarrow> None
      | Some row \<Rightarrow> typical_union (typical @ row) ks)"

definition typical_stage_keys :: "string list \<Rightarrow> string list option" where
  "typical_stage_keys instruments =
     (let chosen = filter (\<lambda>k. k \<noteq> []) instruments
      in if chosen = [] then None else typical_union always_typical_stage_keys chosen)"

definition is_stage_dimmed :: "string option \<Rightarrow> string list \<Rightarrow> bool" where
  "is_stage_dimmed stage instruments =
     (case stage of
        None \<Rightarrow> False
      | Some k \<Rightarrow>
          if k = [] \<or> k \<in> set always_typical_stage_keys then False
          else case typical_stage_keys instruments of None \<Rightarrow> False | Some ks \<Rightarrow> k \<notin> set ks)"

section \<open>Facts about the offers\<close>

lemma unique_from_set: "set (unique_from seen ks) = {k \<in> set ks. k \<noteq> [] \<and> k \<notin> set seen}"
  by (induction ks arbitrary: seen) auto

lemma unique_from_distinct: "distinct (unique_from seen ks)"
  by (induction ks arbitrary: seen) (auto simp: unique_from_set)

lemma ordered_unique_facts [simp]:
  "set (ordered_unique ks) = {k \<in> set ks. k \<noteq> []}" "distinct (ordered_unique ks)"
  by (auto simp: ordered_unique_def unique_from_set unique_from_distinct)

lemma first_flow_history:
  "first_flow ks = None \<longleftrightarrow> (\<forall>k \<in> set ks. stage_flow k = None)"
  by (induction ks) (auto split: option.splits)

lemma unique_from_id:
  "distinct ks \<Longrightarrow> [] \<notin> set ks \<Longrightarrow> set ks \<inter> set seen = {} \<Longrightarrow> unique_from seen ks = ks"
  by (induction ks arbitrary: seen) auto

lemma ordered_unique_id: "distinct ks \<Longrightarrow> [] \<notin> set ks \<Longrightarrow> ordered_unique ks = ks"
  by (simp add: ordered_unique_def unique_from_id)

lemma typical_union_dims:
  "typical_union typical ks = Some out \<Longrightarrow>
     k \<in> set out \<longleftrightarrow> k \<in> set typical \<or>
       (\<exists>i \<in> set ks. \<exists>row. map_of typical_stages_by_instrument i = Some row \<and> k \<in> set row)"
  by (induction ks arbitrary: typical) (auto split: option.splits)

section \<open>Properties\<close>

lemma held_stage_offered:
  assumes "k \<in> set history" and "k \<in> set available" and "k \<noteq> []"
  shows "Some k \<noteq> current \<Longrightarrow> k \<in> set (next_stage_keys current history instruments available)"
    and "k \<notin> set terminal_stage_keys \<Longrightarrow> k \<in> set (reopening_stage_keys current history instruments available)"
  using assms
  by (auto simp: next_stage_keys_def reopening_stage_keys_def Let_def case_prod_unfold split: option.splits)

text \<open>The stages offered next are active ones, each once, never the current one; none the matter
  has held before is left out, and ending the matter stays possible from anywhere.\<close>

theorem next_stages_complete:
  "distinct (next_stage_keys current history instruments available)
   \<and> set (next_stage_keys current history instruments available) \<subseteq> set available - {[]}
   \<and> \<not> list_ex (\<lambda>k. Some k = current) (next_stage_keys current history instruments available)
   \<and> {k \<in> set (history @ common_tail). k \<in> set available \<and> k \<noteq> [] \<and> Some k \<noteq> current}
       \<subseteq> set (next_stage_keys current history instruments available)"
proof -
  have "k \<in> set (next_stage_keys current history instruments available)"
    if "k \<in> set common_tail" "k \<in> set available" "Some k \<noteq> current" for k
  proof -
    have "k \<noteq> []" using that(1) by (auto simp: common_tail_def in_force_def monitoring_stopped_def)
    with that show ?thesis by (auto simp: next_stage_keys_def Let_def case_prod_unfold split: option.splits)
  qed
  then show ?thesis
    using held_stage_offered(1) [of _ history available current instruments]
    by (auto simp: list_ex_iff) (auto simp: next_stage_keys_def Let_def)
qed

text \<open>A closed matter is never reopened into a stage that would close it again; every stage
  offered is an active one, and every other stage the matter has held is offered.\<close>

theorem reopening_never_ends:
  "distinct (reopening_stage_keys current history instruments available)
   \<and> set (reopening_stage_keys current history instruments available) \<subseteq> set available - {[]}
   \<and> \<not> list_ex (\<lambda>k. is_terminal (Some k)) (reopening_stage_keys current history instruments available)
   \<and> {k \<in> set history. k \<in> set available \<and> k \<noteq> [] \<and> \<not> is_terminal (Some k)}
       \<subseteq> set (reopening_stage_keys current history instruments available)"
  using held_stage_offered(2) [of _ history available current instruments]
  by (auto simp: list_ex_iff is_terminal_def) (auto simp: reopening_stage_keys_def Let_def)

end
