(* ===== verification/WorkState.thy ===== *)
theory WorkState
  imports Lateness StageFlow Accounts Interfaces
begin

text \<open>
  The tables of the workflow (\<open>app/workflow/models.py\<close>, and the columns of \<open>app/matters/models.py\<close>
  and \<open>app/submissions/models.py\<close> it reads) with their constraints, and the row operations every
  service of it shares.

  A service runs in one transaction, so it answers either what it raised, nothing written, or its
  result with the new state. A statement that breaks a constraint raises \<open>IntegrityError\<close>, which
  \<open>store_actions\<close>, \<open>store_steps\<close> and \<open>store_follow_ups\<close> check. A row lock makes whole transactions
  on one matter take turns, so each service is one step. \<open>updated_at\<close> is kept for plan steps, the
  only rows whose stamp is read. Audit rows carry their payload as the code builds it; the stage
  period and the operation an audit row names are left out.
\<close>

named_theorems work_defs \<open>definitions of the services of the workflow\<close>

section \<open>Rows\<close>

datatype action_status = Open | Planned | Completed | Cancelled | Superseded

datatype follow_up_outcome = RESPONSE_RECEIVED | NO_RESPONSE | MONITORING_ENDED

datatype follow_up_state = Monitoring | ResponseReceived | MonitoringEnded | MonitoringCancelled

datatype step_state = StepSuggested | StepPlanned | StepCompleted | StepSkipped

datatype step_source = FromTemplate | Custom

datatype step_operation = GENERIC | WEBSITE_OVERVIEW | ENGAGEMENT | SUBMISSION

datatype submission_status = SubmissionDraft | SubmissionSent | SubmissionWithdrawn | SubmissionSuperseded

datatype record_mode = FULL | ARCHIVE

datatype overview_status = OverviewPlanned | OverviewPublished | OverviewCancelled

datatype episode_origin = RECORDED | CARRIED_OVER | IMPORTED

record stage_row =
  sv_key :: string
  sv_label :: string

record work_matter =
  mt_id :: row_id
  mt_mode :: record_mode
  mt_open :: bool
  mt_owner :: "row_id option"
  mt_stage :: "stage_row option"
  mt_disposition :: "disposition option"
  mt_disposition_reason :: string
  mt_closed_at :: "instant option"
  mt_closed_by :: "row_id option"
  mt_superseded_by :: "row_id option"
  mt_deleted_at :: "instant option"

record next_action =
  na_id :: row_id
  na_matter :: row_id
  na_text :: string
  na_kind :: action_kind
  na_semantics :: date_semantics
  na_date :: "date option"
  na_precision :: date_precision
  na_source_text :: string
  na_responsible :: "row_id option"
  na_status :: action_status
  na_created_at :: instant
  na_created_by :: "row_id option"
  na_ended_at :: "instant option"
  na_ended_by :: "row_id option"
  na_replaced_by :: "row_id option"
  na_override :: "visibility option"
  na_step :: "row_id option"
  na_follow_up :: "row_id option"
  na_outcome :: "follow_up_outcome option"

record plan_step =
  ps_id :: row_id
  ps_matter :: row_id
  ps_position :: nat
  ps_title :: string
  ps_source :: step_source
  ps_operation :: step_operation
  ps_state :: step_state
  ps_template_key :: string
  ps_template_version :: "nat option"
  ps_template_step_key :: string
  ps_created_by :: "row_id option"
  ps_completed_at :: "instant option"
  ps_completed_by :: "row_id option"
  ps_skipped_at :: "instant option"
  ps_skipped_by :: "row_id option"
  ps_fulfilled_by_operation :: "step_operation option"
  ps_fulfilled_by_record :: "row_id option"
  ps_updated_at :: instant

record follow_up =
  fu_id :: row_id
  fu_submission :: row_id
  fu_sent_on :: date
  fu_first_due_on :: date
  fu_state :: follow_up_state
  fu_ended_at :: "instant option"
  fu_ended_by :: "row_id option"
  fu_end_reason :: string
  fu_created_by :: "row_id option"

record submission =
  sb_id :: row_id
  sb_matter :: row_id
  sb_status :: submission_status
  sb_sent_at :: "instant option"
  sb_override :: "visibility option"
  sb_is_proposal :: bool  \<comment> \<open>its kind is \<open>KODA_PROPOSAL\<close>\<close>
  sb_addressees :: nat  \<comment> \<open>its recipient rows in the role \<open>ADDRESSEE\<close>\<close>

record overview =
  ov_id :: row_id
  ov_matter :: row_id
  ov_status :: overview_status
  ov_removed_at :: "instant option"
  ov_cancelled_at :: "instant option"
  ov_status_changed_at :: "instant option"

record engagement =
  en_id :: row_id
  en_matter :: row_id
  en_title :: string
  en_tracked :: bool
  en_feedback_deadline :: "date option"
  en_feedback_received :: string
  en_closed_at :: "instant option"
  en_closed_by :: "row_id option"
  en_removed_at :: "instant option"

record stage_episode =
  se_id :: row_id
  se_matter :: row_id
  se_stage :: stage_row
  se_sequence :: nat
  se_origin :: episode_origin
  se_started_at :: "instant option"
  se_ended_at :: "instant option"
  se_current :: bool

section \<open>The audit trail\<close>

datatype change_event_type =
    NEXT_ACTION_SET | NEXT_ACTION_COMPLETED | NEXT_ACTION_CANCELLED | NEXT_ACTION_REVIEWED
  | NEXT_ACTION_RESCHEDULED | PLAN_SEEDED | PLAN_STEP_SKIPPED | PLAN_STEP_ACTIVATED
  | PLAN_STEP_COMPLETED | MATTER_CLOSED | MATTER_REOPENED | MATTER_HISTORICAL_CUTOVER_CLOSED
  | MATTER_STAGE_CHANGED | WEBSITE_OVERVIEW_CANCELLED | ENGAGEMENT_FEEDBACK_CLOSED

datatype pvalue =
    PNull | PBool bool | PNat nat | PText string | PId row_id | PDay date | PInstant instant
  | PKind action_kind | PSemantics date_semantics | POutcome follow_up_outcome
  | PFollowUpState follow_up_state | PStepState step_state | POperation step_operation
  | PDisposition disposition | PList "pvalue list" | PDict "(string \<times> pvalue) list"

type_synonym payload = "(string \<times> pvalue) list"

record change_event =
  ce_type :: change_event_type
  ce_matter :: "row_id option"
  ce_actor :: "row_id option"
  ce_object :: "row_id option"
  ce_summary :: string
  ce_payload :: payload
  ce_at :: instant

fun p_day :: "date option \<Rightarrow> pvalue" where
  "p_day None = PNull"
| "p_day (Some d) = PDay d"

fun p_id :: "row_id option \<Rightarrow> pvalue" where
  "p_id None = PNull"
| "p_id (Some i) = PId i"

section \<open>The state\<close>

record work_db =
  w_users :: "user list"
  w_matters :: "work_matter list"
  w_actions :: "next_action list"
  w_steps :: "plan_step list"
  w_follow_ups :: "follow_up list"
  w_submissions :: "submission list"
  w_overviews :: "overview list"
  w_engagements :: "engagement list"
  w_episodes :: "stage_episode list"
  w_events :: "change_event list"
  w_next :: row_id

section \<open>Results\<close>

datatype work_refusal =
    TextRequired | UnknownKind | UnknownSemantics | UnknownDatePrecision | UndatedWithPrecision
  | ClosedMatterTakesNoStep | PlanStepOfAnotherMatter | DepartedOwner | IneligibleResponsible
  | PreparationNeedsDate | OnlyCurrentCompleted | OnlyCurrentCancelled | OnlyCurrentReviewed
  | OnlyReviewKinds | PlannedNeedsDate | PlannedChanged | FollowUpHasItsOwnForm
  | ClosedMatterRefusal | StaleAction
  | FollowUpChanged | FollowUpNeedsDate | FollowUpDateInThePast | FollowUpNeedsOutcome
  | NextCheckNeedsDate | MonitoringEndNeedsReason | FollowUpNotRestartable | OnlySentOpinions
  | StalePlan | ArchiveHasNoPlan | StepNotOnMatter | CurrentActionExists | StepNotOpen
  | StepOpensItsOwnForm | StepIsCurrent | StepWrongOperation
  | UnknownShift | ShiftStale | ShiftNotEligible
  | UnknownDisposition | SupersededNeedsSuccessor | SuccessorOnlyWhenSuperseded | OwnSuccessor
  | SuccessorDeleted | AlreadyClosed | AlreadyOpen | ContinuationCycle | ContinuationTooLong
  | ClosureUnconfirmed | StaleClosureConfirmation | ClosedMatterStage | OnlyArchiveCutover
  | Raised date_error  \<comment> \<open>an error of date arithmetic that nothing catches\<close>

type_synonym 'a result = "work_refusal exn + 'a"

definition refuse :: "work_refusal \<Rightarrow> 'a result" where
  "refuse r = Inl (Refused r)"

definition and_then :: "'a result \<Rightarrow> ('a \<Rightarrow> 'b result) \<Rightarrow> 'b result" where
  "and_then m f = (case m of Inl e \<Rightarrow> Inl e | Inr a \<Rightarrow> f a)"

definition ensure :: "bool \<Rightarrow> work_refusal \<Rightarrow> 'b result \<Rightarrow> 'b result" where
  \<comment> \<open>\<open>if not c: raise DomainError(r)\<close>, then the rest\<close>
  "ensure c r k = (if c then k else refuse r)"

lemma and_then_Inr [simp]: "and_then (Inr a) f = f a"
  by (simp add: and_then_def)

lemma and_then_Inl [simp]: "and_then (Inl e) f = Inl e"
  by (simp add: and_then_def)

lemma and_then_eq_Inr: "and_then m f = Inr b \<longleftrightarrow> (\<exists>a. m = Inr a \<and> f a = Inr b)"
  by (cases m) auto

lemma ensure_eq_Inr [simp]: "ensure c r k = Inr b \<longleftrightarrow> c \<and> k = Inr b"
  by (simp add: ensure_def refuse_def)

lemma refuse_neq_Inr [simp]: "refuse r \<noteq> Inr b"
  by (simp add: refuse_def)

section \<open>Constraints\<close>

definition is_active :: "next_action \<Rightarrow> bool" where
  \<comment> \<open>\<open>status in ACTIVE\<close>\<close>
  "is_active a \<longleftrightarrow> na_status a = Open \<or> na_status a = Planned"

definition listed_precision :: "date_precision \<Rightarrow> bool" where
  "listed_precision p = (case p of Unlisted _ \<Rightarrow> False | _ \<Rightarrow> True)"

definition action_row_ok :: "next_action \<Rightarrow> bool" where
  "action_row_ok a \<longleftrightarrow>
     na_text a \<noteq> [] \<and> listed_precision (na_precision a)
     \<and> (na_date a \<noteq> None \<or> na_precision a = EXACT)
     \<and> (na_status a = Planned \<longrightarrow> na_date a \<noteq> None)
     \<and> (na_follow_up a \<noteq> None \<longrightarrow> na_date a \<noteq> None)
     \<and> (na_outcome a \<noteq> None \<longrightarrow> na_follow_up a \<noteq> None \<and> na_status a = Completed)
     \<and> (na_follow_up a \<noteq> None \<and> na_status a = Completed \<longrightarrow> na_outcome a \<noteq> None)"

definition actions_ok :: "next_action list \<Rightarrow> bool" where
  "actions_ok rows \<longleftrightarrow>
     unique_when (\<lambda>a. na_status a = Open) na_matter rows
     \<and> unique_when (\<lambda>a. is_active a \<and> na_follow_up a \<noteq> None) na_follow_up rows
     \<and> unique_when (\<lambda>a. na_replaced_by a \<noteq> None) na_replaced_by rows
     \<and> list_all action_row_ok rows"

definition step_row_ok :: "plan_step \<Rightarrow> bool" where
  "step_row_ok s \<longleftrightarrow>
     ps_title s \<noteq> []
     \<and> (ps_state s = StepCompleted \<longleftrightarrow> ps_completed_at s \<noteq> None)
     \<and> (ps_state s = StepSkipped \<longleftrightarrow> ps_skipped_at s \<noteq> None)
     \<and> (ps_fulfilled_by_operation s = None \<and> ps_fulfilled_by_record s = None
        \<or> ps_state s = StepCompleted \<and> ps_fulfilled_by_record s \<noteq> None \<and> ps_fulfilled_by_operation s \<noteq> None)
     \<and> (ps_source s = FromTemplate \<and> ps_template_version s \<noteq> None \<and> ps_template_key s \<noteq> []
          \<and> ps_template_step_key s \<noteq> []
        \<or> ps_source s = Custom \<and> ps_template_version s = None \<and> ps_template_key s = []
          \<and> ps_template_step_key s = [])"

definition steps_ok :: "plan_step list \<Rightarrow> bool" where
  "steps_ok rows \<longleftrightarrow>
     unique_when (\<lambda>s. ps_source s = FromTemplate)
       (\<lambda>s. (ps_matter s, ps_template_key s, ps_template_step_key s)) rows
     \<and> list_all step_row_ok rows"

definition follow_up_row_ok :: "follow_up \<Rightarrow> bool" where
  "follow_up_row_ok f \<longleftrightarrow>
     fu_sent_on f \<le> fu_first_due_on f
     \<and> (fu_state f = Monitoring \<longleftrightarrow> fu_ended_at f = None)
     \<and> (fu_state f = MonitoringEnded \<longrightarrow> fu_end_reason f \<noteq> [])"

definition follow_ups_ok :: "follow_up list \<Rightarrow> bool" where
  "follow_ups_ok rows \<longleftrightarrow> unique_on fu_submission rows \<and> list_all follow_up_row_ok rows"

definition matter_row_ok :: "work_matter \<Rightarrow> bool" where
  "matter_row_ok m \<longleftrightarrow>
     (mt_open m \<and> mt_disposition m = None \<and> mt_closed_at m = None
      \<or> \<not> mt_open m \<and> mt_mode m = ARCHIVE
      \<or> \<not> mt_open m \<and> mt_mode m = FULL \<and> mt_closed_at m \<noteq> None \<and> mt_disposition m \<noteq> None)
     \<and> mt_superseded_by m \<noteq> Some (mt_id m)"

definition episode_row_ok :: "stage_episode \<Rightarrow> bool" where
  "episode_row_ok e \<longleftrightarrow>
     (se_current e \<longrightarrow> se_ended_at e = None)
     \<and> (se_origin e = RECORDED \<longleftrightarrow> se_started_at e \<noteq> None)
     \<and> (case (se_started_at e, se_ended_at e) of (Some a, Some b) \<Rightarrow> a \<le> b | _ \<Rightarrow> True)
     \<and> 1 \<le> se_sequence e"

definition episodes_ok :: "stage_episode list \<Rightarrow> bool" where
  "episodes_ok rows \<longleftrightarrow>
     unique_when se_current se_matter rows
     \<and> unique_on (\<lambda>e. (se_matter e, se_sequence e)) rows
     \<and> list_all episode_row_ok rows"

section \<open>Row operations\<close>

definition store_actions :: "next_action list \<Rightarrow> work_db \<Rightarrow> work_db result" where
  "store_actions rows db =
     (if actions_ok rows then Inr (db\<lparr>w_actions := rows\<rparr>) else Inl IntegrityError)"

definition store_steps :: "plan_step list \<Rightarrow> work_db \<Rightarrow> work_db result" where
  "store_steps rows db = (if steps_ok rows then Inr (db\<lparr>w_steps := rows\<rparr>) else Inl IntegrityError)"

definition store_follow_ups :: "follow_up list \<Rightarrow> work_db \<Rightarrow> work_db result" where
  "store_follow_ups rows db =
     (if follow_ups_ok rows then Inr (db\<lparr>w_follow_ups := rows\<rparr>) else Inl IntegrityError)"

definition save_action :: "next_action \<Rightarrow> work_db \<Rightarrow> work_db result" where
  \<comment> \<open>\<open>action.save(update_fields=...)\<close> of a row just read under its lock\<close>
  "save_action a db = store_actions (update_where (\<lambda>r. na_id r = na_id a) (\<lambda>_. a) (w_actions db)) db"

definition create_action :: "next_action \<Rightarrow> work_db \<Rightarrow> (next_action \<times> work_db) result" where
  \<comment> \<open>the new row's key comes from the counter\<close>
  "create_action a db =
     (let row = a\<lparr>na_id := w_next db\<rparr>
      in and_then (store_actions (w_actions db @ [row]) (db\<lparr>w_next := Suc (w_next db)\<rparr>))
           (\<lambda>db. Inr (row, db)))"

definition save_step :: "plan_step \<Rightarrow> work_db \<Rightarrow> work_db result" where
  "save_step s db = store_steps (update_where (\<lambda>r. ps_id r = ps_id s) (\<lambda>_. s) (w_steps db)) db"

definition create_step :: "plan_step \<Rightarrow> work_db \<Rightarrow> (plan_step \<times> work_db) result" where
  "create_step s db =
     (let row = s\<lparr>ps_id := w_next db\<rparr>
      in and_then (store_steps (w_steps db @ [row]) (db\<lparr>w_next := Suc (w_next db)\<rparr>))
           (\<lambda>db. Inr (row, db)))"

definition save_follow_up :: "follow_up \<Rightarrow> work_db \<Rightarrow> work_db result" where
  "save_follow_up f db =
     store_follow_ups (update_where (\<lambda>r. fu_id r = fu_id f) (\<lambda>_. f) (w_follow_ups db)) db"

definition create_follow_up :: "follow_up \<Rightarrow> work_db \<Rightarrow> (follow_up \<times> work_db) result" where
  "create_follow_up f db =
     (let row = f\<lparr>fu_id := w_next db\<rparr>
      in and_then (store_follow_ups (w_follow_ups db @ [row]) (db\<lparr>w_next := Suc (w_next db)\<rparr>))
           (\<lambda>db. Inr (row, db)))"

definition save_matter :: "work_matter \<Rightarrow> work_db \<Rightarrow> work_db result" where
  "save_matter m db =
     (if matter_row_ok m
      then Inr (db\<lparr>w_matters := update_where (\<lambda>r. mt_id r = mt_id m) (\<lambda>_. m) (w_matters db)\<rparr>)
      else Inl IntegrityError)"

definition store_episodes :: "stage_episode list \<Rightarrow> work_db \<Rightarrow> work_db result" where
  "store_episodes rows db =
     (if episodes_ok rows then Inr (db\<lparr>w_episodes := rows\<rparr>) else Inl IntegrityError)"

definition save_episode :: "stage_episode \<Rightarrow> work_db \<Rightarrow> work_db result" where
  "save_episode e db = store_episodes (update_where (\<lambda>r. se_id r = se_id e) (\<lambda>_. e) (w_episodes db)) db"

definition create_episode :: "stage_episode \<Rightarrow> work_db \<Rightarrow> (stage_episode \<times> work_db) result" where
  "create_episode e db =
     (let row = e\<lparr>se_id := w_next db\<rparr>
      in and_then (store_episodes (w_episodes db @ [row]) (db\<lparr>w_next := Suc (w_next db)\<rparr>))
           (\<lambda>db. Inr (row, db)))"

definition record_change_event ::
  "instant \<Rightarrow> change_event_type \<Rightarrow> row_id option \<Rightarrow> row_id option \<Rightarrow> row_id option \<Rightarrow> string \<Rightarrow> payload
     \<Rightarrow> work_db \<Rightarrow> work_db" where
  "record_change_event now t m actor obj summary payload db =
     db\<lparr>w_events := w_events db @
       [\<lparr>ce_type = t, ce_matter = m, ce_actor = actor, ce_object = obj, ce_summary = summary,
         ce_payload = payload, ce_at = now\<rparr>]\<rparr>"

definition lock_matter_for_write :: "row_id \<Rightarrow> work_db \<Rightarrow> work_matter result" where
  \<comment> \<open>\<open>Matter.objects\<close> leaves deleted matters out\<close>
  "lock_matter_for_write i db =
     (case first_where (\<lambda>m. mt_id m = i \<and> mt_deleted_at m = None) (w_matters db) of
        None \<Rightarrow> Inl DoesNotExist
      | Some m \<Rightarrow> Inr m)"

definition lock_open_matter_for_business_write :: "row_id \<Rightarrow> work_db \<Rightarrow> work_matter result" where
  "lock_open_matter_for_business_write i db =
     and_then (lock_matter_for_write i db) (\<lambda>m. ensure (mt_open m) ClosedMatterRefusal (Inr m))"

definition first_action :: "(next_action \<Rightarrow> bool) \<Rightarrow> work_db \<Rightarrow> next_action option" where
  "first_action p db = first_where p (w_actions db)"

definition user_of :: "work_db \<Rightarrow> row_id \<Rightarrow> user option" where
  "user_of db i = first_where (\<lambda>u. u_id u = i) (w_users db)"

definition is_department_worker :: "user option \<Rightarrow> bool" where
  "is_department_worker v =
     (case v of
        None \<Rightarrow> False
      | Some u \<Rightarrow> u_active u \<and> \<not> (u_staff u \<or> u_superuser u) \<and> (u_role u = Specialist \<or> u_role u = DepartmentHead))"

definition is_assignable_business_user :: "user option \<Rightarrow> bool" where
  "is_assignable_business_user v = is_department_worker v"

definition new_action :: "instant \<Rightarrow> row_id \<Rightarrow> string \<Rightarrow> next_action" where
  \<comment> \<open>the model's defaults\<close>
  "new_action now m txt =
     \<lparr>na_id = 0, na_matter = m, na_text = txt, na_kind = DO, na_semantics = DEADLINE, na_date = None,
      na_precision = EXACT, na_source_text = [], na_responsible = None, na_status = Open,
      na_created_at = now, na_created_by = None, na_ended_at = None, na_ended_by = None,
      na_replaced_by = None, na_override = None, na_step = None, na_follow_up = None, na_outcome = None\<rparr>"

end
