(* ===== verification/WorkActions.thy ===== *)
theory WorkActions
  imports WorkState
begin

text \<open>
  \<open>src/app/workflow/services.py\<close>: every use case that changes the next action of a matter, and
  the end of a follow-up whose check is cancelled (\<open>app/workflow/follow_ups.py\<close>), which cancelling
  calls. A form value outside its vocabulary is \<open>None\<close> (or \<open>Unlisted\<close> for a precision).
\<close>

section \<open>Reading\<close>

definition current_next_action :: "row_id \<Rightarrow> work_db \<Rightarrow> next_action option" where
  "current_next_action m db = first_action (\<lambda>a. na_matter a = m \<and> na_status a = Open) db"

definition action_summary :: "next_action \<Rightarrow> string" where
  "action_summary a = take 200 (na_text a)"

definition responsible_for_new_work ::
  "work_matter \<Rightarrow> row_id option \<Rightarrow> work_db \<Rightarrow> row_id option result" where
  "responsible_for_new_work m explicit db =
     (case explicit of
        Some u \<Rightarrow> ensure (is_assignable_business_user (user_of db u)) IneligibleResponsible (Inr (Some u))
      | None \<Rightarrow>
          (case mt_owner m of
             None \<Rightarrow> Inr None
           | Some u \<Rightarrow> ensure (is_assignable_business_user (user_of db u)) DepartedOwner (Inr (Some u))))"

definition refuse_an_unsupported_precision :: "date option \<Rightarrow> date_precision \<Rightarrow> 'a result \<Rightarrow> 'a result" where
  "refuse_an_unsupported_precision d p k =
     ensure (listed_precision p) UnknownDatePrecision
       (ensure (d \<noteq> None \<or> p = EXACT) UndatedWithPrecision k)"

definition follow_up_block :: "next_action \<Rightarrow> work_db \<Rightarrow> pvalue" where
  "follow_up_block a db =
     PDict [(''id'', p_id (na_follow_up a)),
            (''submission'', p_id (map_option fu_submission
               (first_where (\<lambda>f. Some (fu_id f) = na_follow_up a) (w_follow_ups db))))]"

section \<open>Setting the current action\<close>

record step_request =
  rq_text :: string
  rq_kind :: "action_kind option"
  rq_semantics :: "date_semantics option"
  rq_date :: "date option"
  rq_precision :: date_precision
  rq_source_text :: string
  rq_responsible :: "row_id option"
  rq_actor :: "row_id option"
  rq_provenance :: "payload option"
  rq_plan_step :: "plan_step option"
  rq_carry_plan_step :: bool
  rq_carry_override :: bool

definition plain_request :: "string \<Rightarrow> date option \<Rightarrow> row_id option \<Rightarrow> step_request" where
  \<comment> \<open>the keyword defaults\<close>
  "plain_request txt d actor =
     \<lparr>rq_text = txt, rq_kind = Some DO, rq_semantics = Some DEADLINE, rq_date = d, rq_precision = EXACT,
      rq_source_text = [], rq_responsible = None, rq_actor = actor, rq_provenance = None,
      rq_plan_step = None, rq_carry_plan_step = False, rq_carry_override = False\<rparr>"

definition carried_override :: "next_action option \<Rightarrow> visibility option" where
  \<comment> \<open>a blank or normal override carries nothing\<close>
  "carried_override previous =
     (case previous of
        None \<Rightarrow> None
      | Some p \<Rightarrow> if na_override p = Some VNormal then None else na_override p)"

definition put_previous_away ::
  "instant \<Rightarrow> row_id option \<Rightarrow> next_action option \<Rightarrow> work_db
     \<Rightarrow> (next_action option \<times> next_action option \<times> work_db) result" where
  \<comment> \<open>what is superseded, which check goes back to the plan, and the state\<close>
  "put_previous_away now actor previous db =
     (case previous of
        None \<Rightarrow> Inr (None, None, db)
      | Some p \<Rightarrow>
          if na_follow_up p \<noteq> None then
            (let back = p\<lparr>na_status := Planned\<rparr>
             in and_then (save_action back db) (\<lambda>db. Inr (None, Some back, db)))
          else
            (let ended = p\<lparr>na_status := Superseded, na_ended_at := Some now, na_ended_by := actor\<rparr>
             in and_then (save_action ended db) (\<lambda>db. Inr (Some ended, None, db))))"

definition set_next_action ::
  "instant \<Rightarrow> row_id \<Rightarrow> step_request \<Rightarrow> work_db \<Rightarrow> (next_action \<times> work_db) result" where
  "set_next_action now matter rq db =
     (let txt = strip (rq_text rq)
      in ensure (txt \<noteq> []) TextRequired
        (ensure (rq_kind rq \<noteq> None) UnknownKind
        (ensure (rq_semantics rq \<noteq> None) UnknownSemantics
        (refuse_an_unsupported_precision (rq_date rq) (rq_precision rq)
        (and_then (lock_matter_for_write matter db) (\<lambda>m.
         ensure (mt_open m) ClosedMatterTakesNoStep
        (ensure (case rq_plan_step rq of None \<Rightarrow> True | Some s \<Rightarrow> ps_matter s = mt_id m) PlanStepOfAnotherMatter
        (let previous = first_action (\<lambda>a. na_matter a = mt_id m \<and> na_status a = Open) db;
             step_id = (if rq_plan_step rq = None \<and> rq_carry_plan_step rq \<and> previous \<noteq> None
                        then na_step (the previous) else map_option ps_id (rq_plan_step rq));
             override = (if rq_carry_override rq then carried_override previous else None)
         in and_then (put_previous_away now (rq_actor rq) previous db) (\<lambda>(superseded, returned, db).
            and_then (create_action
               ((new_action now (mt_id m) txt)\<lparr>na_kind := the (rq_kind rq),
                  na_semantics := the (rq_semantics rq), na_date := rq_date rq,
                  na_precision := rq_precision rq, na_source_text := rq_source_text rq,
                  na_responsible := (case rq_responsible rq of None \<Rightarrow> mt_owner m | Some u \<Rightarrow> Some u),
                  na_created_by := rq_actor rq, na_step := step_id, na_override := override\<rparr>) db)
            (\<lambda>(action, db).
            and_then (case superseded of
                        None \<Rightarrow> Inr db
                      | Some p \<Rightarrow> save_action (p\<lparr>na_replaced_by := Some (na_id action)\<rparr>) db) (\<lambda>db.
            let body = [(''kind'', PKind (na_kind action)), (''date_semantics'', PSemantics (na_semantics action)),
                        (''target_date'', p_day (rq_date rq)),
                        (''replaced'', p_id (map_option na_id superseded))]
                  @ (case step_id of None \<Rightarrow> [] | Some s \<Rightarrow> [(''plan_step'', PId s)])
                  @ (case rq_provenance rq of None \<Rightarrow> [] | Some [] \<Rightarrow> [] | Some pv \<Rightarrow> [(''provenance'', PDict pv)])
                  @ (case returned of None \<Rightarrow> [] | Some c \<Rightarrow> [(''returned_to_plan'', PId (na_id c))]);
                db = record_change_event now NEXT_ACTION_SET (Some (mt_id m)) (rq_actor rq)
                       (Some (na_id action)) (take 200 txt) body db
            in Inr (action,
                 case returned of
                   None \<Rightarrow> db
                 | Some c \<Rightarrow> record_change_event now NEXT_ACTION_SET (Some (mt_id m)) (rq_actor rq)
                     (Some (na_id c)) (action_summary c)
                     [(''kind'', PKind (na_kind c)), (''date_semantics'', PSemantics (na_semantics c)),
                      (''target_date'', p_day (na_date c)), (''replaced'', PNull), (''planned'', PBool True),
                      (''returned_to_plan'', PBool True), (''follow_up'', follow_up_block c db)] db))))))))))))"

definition set_next_action_for_new_work ::
  "instant \<Rightarrow> row_id \<Rightarrow> step_request \<Rightarrow> work_db \<Rightarrow> (next_action \<times> work_db) result" where
  \<comment> \<open>no provenance: the keyword does not exist here\<close>
  "set_next_action_for_new_work now matter rq db =
     and_then (lock_matter_for_write matter db) (\<lambda>m.
     and_then (responsible_for_new_work m (rq_responsible rq) db) (\<lambda>u.
       set_next_action now (mt_id m) (rq\<lparr>rq_responsible := u, rq_provenance := None\<rparr>) db))"

definition opinion_preparation_text :: string where
  "opinion_preparation_text = ''Koostan arvamuse''"

definition establish_opinion_preparation_action ::
  "instant \<Rightarrow> row_id \<Rightarrow> date option \<Rightarrow> row_id option \<Rightarrow> row_id option \<Rightarrow> work_db
     \<Rightarrow> (next_action \<times> work_db) result" where
  "establish_opinion_preparation_action now matter prepare_by actor responsible db =
     ensure (prepare_by \<noteq> None) PreparationNeedsDate
       (and_then (lock_matter_for_write matter db) (\<lambda>m.
        case first_action (\<lambda>a. na_matter a = mt_id m \<and> na_status a = Open
               \<and> na_text a = opinion_preparation_text \<and> na_date a = prepare_by \<and> na_precision a = EXACT) db of
          Some existing \<Rightarrow> Inr (existing, db)
        | None \<Rightarrow> set_next_action_for_new_work now (mt_id m)
            ((plain_request opinion_preparation_text prepare_by actor)\<lparr>rq_responsible := responsible\<rparr>) db))"

section \<open>Ending an action\<close>

definition lock_for_transition :: "row_id \<Rightarrow> work_refusal \<Rightarrow> work_db \<Rightarrow> (next_action \<times> work_matter) result" where
  \<comment> \<open>a matter or an action that is gone is refused like one already ended\<close>
  "lock_for_transition i refusal db =
     (case first_action (\<lambda>a. na_id a = i) db of
        None \<Rightarrow> refuse refusal
      | Some a \<Rightarrow>
          (case lock_matter_for_write (na_matter a) db of Inl _ \<Rightarrow> refuse refusal | Inr m \<Rightarrow> Inr (a, m)))"

definition complete_plan_step ::
  "instant \<Rightarrow> next_action \<Rightarrow> row_id \<Rightarrow> row_id option \<Rightarrow> work_db \<Rightarrow> work_db result" where
  "complete_plan_step now action step_id actor db =
     (case first_where (\<lambda>s. ps_id s = step_id) (w_steps db) of
        None \<Rightarrow> Inl DoesNotExist
      | Some s \<Rightarrow>
          if ps_state s = StepCompleted then Inr db
          else and_then (save_step (s\<lparr>ps_state := StepCompleted, ps_completed_at := na_ended_at action,
                  ps_completed_by := actor, ps_skipped_at := None, ps_skipped_by := None,
                  ps_updated_at := now\<rparr>) db) (\<lambda>db.
               Inr (record_change_event now PLAN_STEP_COMPLETED (Some (na_matter action)) actor (Some step_id)
                 (take 200 (ps_title s)) [(''action'', PId (na_id action))] db)))"

definition plan_day :: "next_action \<Rightarrow> date" where
  \<comment> \<open>the sort key \<open>target_date\<close>; \<open>NULL\<close> sorts last, and a planned row has a date\<close>
  "plan_day a = (case na_date a of None \<Rightarrow> Date 10000 1 1 | Some d \<Rightarrow> d)"

definition planned_in_order :: "row_id \<Rightarrow> work_db \<Rightarrow> next_action list" where
  \<comment> \<open>\<open>order_by(''target_date'', ''created_at'', ''pk'')\<close> of rows held in the order of creation\<close>
  "planned_in_order m db =
     sort_key plan_day (filter (\<lambda>a. na_matter a = m \<and> na_status a = Planned) (w_actions db))"

definition promote_next_planned_action ::
  "instant \<Rightarrow> row_id \<Rightarrow> row_id option \<Rightarrow> work_db \<Rightarrow> (next_action option \<times> work_db) result" where
  "promote_next_planned_action now matter actor db =
     (if first_action (\<lambda>a. na_matter a = matter \<and> na_status a = Open) db \<noteq> None then Inr (None, db)
      else case planned_in_order matter db of
        [] \<Rightarrow> Inr (None, db)
      | a # _ \<Rightarrow>
          (let a = a\<lparr>na_status := Open\<rparr>
           in and_then (save_action a db) (\<lambda>db.
              Inr (Some a, record_change_event now NEXT_ACTION_SET (Some (na_matter a)) actor (Some (na_id a))
                (action_summary a)
                [(''kind'', PKind (na_kind a)), (''date_semantics'', PSemantics (na_semantics a)),
                 (''target_date'', p_day (na_date a)), (''replaced'', PNull), (''promoted'', PBool True)] db))))"

definition complete_next_action ::
  "instant \<Rightarrow> row_id option \<Rightarrow> bool \<Rightarrow> row_id \<Rightarrow> work_db \<Rightarrow> (next_action \<times> work_db) result" where
  "complete_next_action now actor promote i db =
     and_then (lock_for_transition i OnlyCurrentCompleted db) (\<lambda>(a, m).
     ensure (na_status a = Open) OnlyCurrentCompleted
    (ensure (na_follow_up a = None) FollowUpHasItsOwnForm
    (let a = a\<lparr>na_status := Completed, na_ended_at := Some now, na_ended_by := actor\<rparr>
     in and_then (save_action a db) (\<lambda>db.
        let db = record_change_event now NEXT_ACTION_COMPLETED (Some (mt_id m)) actor (Some (na_id a))
              (action_summary a) [(''kind'', PKind (na_kind a))] db
        in and_then (case na_step a of None \<Rightarrow> Inr db | Some s \<Rightarrow> complete_plan_step now a s actor db) (\<lambda>db.
           if promote then
             and_then (promote_next_planned_action now (mt_id m) actor db) (\<lambda>(_, db). Inr (a, db))
           else Inr (a, db))))))"

definition end_follow_up_for_cancelled_check ::
  "instant \<Rightarrow> next_action \<Rightarrow> row_id option \<Rightarrow> string \<Rightarrow> work_db \<Rightarrow> work_db result" where
  "end_follow_up_for_cancelled_check now action actor reason db =
     (case first_where (\<lambda>f. Some (fu_id f) = na_follow_up action) (w_follow_ups db) of
        None \<Rightarrow> Inl DoesNotExist
      | Some f \<Rightarrow>
          if fu_state f \<noteq> Monitoring then Inr db
          else save_follow_up (f\<lparr>fu_state := MonitoringCancelled,
                 fu_ended_at := (case na_ended_at action of None \<Rightarrow> Some now | Some t \<Rightarrow> Some t),
                 fu_ended_by := actor,
                 fu_end_reason := (if strip reason = [] then ''T'' @ CHR 0xFC # ''histatud'' else strip reason)\<rparr>) db)"

definition cancel_next_action ::
  "instant \<Rightarrow> row_id option \<Rightarrow> string \<Rightarrow> payload option \<Rightarrow> row_id \<Rightarrow> work_db \<Rightarrow> (next_action \<times> work_db) result" where
  "cancel_next_action now actor reason provenance i db =
     and_then (lock_for_transition i OnlyCurrentCancelled db) (\<lambda>(a, m).
     ensure (is_active a) OnlyCurrentCancelled
    (let a = a\<lparr>na_status := Cancelled, na_ended_at := Some now, na_ended_by := actor\<rparr>
     in and_then (save_action a db) (\<lambda>db.
        and_then (if na_follow_up a \<noteq> None then end_follow_up_for_cancelled_check now a actor reason db
                  else Inr db) (\<lambda>db.
        let body = [(''reason'', PText (take 500 reason))]
              @ (case provenance of None \<Rightarrow> [] | Some [] \<Rightarrow> [] | Some pv \<Rightarrow> [(''provenance'', PDict pv)])
              @ (if na_follow_up a \<noteq> None then [(''follow_up'', follow_up_block a db)] else [])
        in Inr (a, record_change_event now NEXT_ACTION_CANCELLED (Some (mt_id m)) actor (Some (na_id a))
             (action_summary a) body db)))))"

definition closed_with_matter :: string where
  "closed_with_matter = ''Teema suleti''"

fun cancel_each ::
  "instant \<Rightarrow> row_id option \<Rightarrow> row_id list \<Rightarrow> work_db \<Rightarrow> work_db result" where
  "cancel_each now actor [] db = Inr db"
| "cancel_each now actor (i # is) db =
     and_then (cancel_next_action now actor closed_with_matter None i db) (\<lambda>(_, db).
       cancel_each now actor is db)"

definition end_open_action_for_closure ::
  "instant \<Rightarrow> row_id \<Rightarrow> row_id option \<Rightarrow> work_db \<Rightarrow> (next_action option \<times> work_db) result" where
  "end_open_action_for_closure now matter actor db =
     and_then (cancel_each now actor (map na_id (planned_in_order matter db)) db) (\<lambda>db.
     case current_next_action matter db of
       None \<Rightarrow> Inr (None, db)
     | Some a \<Rightarrow> and_then (cancel_next_action now actor closed_with_matter None (na_id a) db) (\<lambda>(a, db).
         Inr (Some a, db)))"

section \<open>Reviewing\<close>

definition acknowledge_review ::
  "instant \<Rightarrow> row_id option \<Rightarrow> date option \<Rightarrow> date_precision \<Rightarrow> string \<Rightarrow> row_id \<Rightarrow> work_db
     \<Rightarrow> (next_action \<times> work_db) result" where
  "acknowledge_review now actor next_review p note i db =
     and_then (lock_for_transition i OnlyCurrentReviewed db) (\<lambda>(a, m).
     ensure (na_status a = Open) OnlyCurrentReviewed
    (ensure (na_kind a \<in> set review_kinds) OnlyReviewKinds
    (refuse_an_unsupported_precision next_review p
    (if na_date a = next_review \<and> na_precision a = p then Inr (a, db)
     else let before = na_date a; a = a\<lparr>na_date := next_review, na_precision := p\<rparr>
          in and_then (save_action a db) (\<lambda>db.
             Inr (a, record_change_event now NEXT_ACTION_REVIEWED (Some (mt_id m)) actor (Some (na_id a))
               (if take 200 note = [] then action_summary a else take 200 note)
               [(''from'', p_day before), (''to'', p_day next_review), (''kind'', PKind (na_kind a))] db))))))"

section \<open>Planned actions\<close>

definition locked_planned :: "row_id \<Rightarrow> row_id \<Rightarrow> work_db \<Rightarrow> next_action result" where
  "locked_planned matter i db =
     (case first_action (\<lambda>a. na_matter a = matter \<and> na_id a = i \<and> na_status a = Planned) db of
        None \<Rightarrow> refuse PlannedChanged
      | Some a \<Rightarrow> Inr a)"

definition planned_payload :: "next_action \<Rightarrow> pvalue \<Rightarrow> payload" where
  "planned_payload a replaced =
     [(''kind'', PKind (na_kind a)), (''date_semantics'', PSemantics (na_semantics a)),
      (''target_date'', p_day (na_date a)), (''replaced'', replaced), (''planned'', PBool True)]"

definition add_planned_action ::
  "instant \<Rightarrow> row_id \<Rightarrow> string option \<Rightarrow> date option \<Rightarrow> row_id option \<Rightarrow> row_id option \<Rightarrow> date_precision
     \<Rightarrow> work_db \<Rightarrow> (next_action \<times> work_db) result" where
  "add_planned_action now matter raw target actor responsible p db =
     (let txt = strip (case raw of None \<Rightarrow> [] | Some s \<Rightarrow> s)
      in ensure (txt \<noteq> []) TextRequired
        (ensure (target \<noteq> None) PlannedNeedsDate
        (refuse_an_unsupported_precision target p
        (and_then (lock_matter_for_write matter db) (\<lambda>m.
         ensure (mt_open m) ClosedMatterTakesNoStep
        (case first_action (\<lambda>a. na_matter a = mt_id m \<and> is_active a \<and> na_text a = txt \<and> na_date a = target
                \<and> na_precision a = p \<and> na_follow_up a = None) db of
           Some equivalent \<Rightarrow> Inr (equivalent, db)
         | None \<Rightarrow>
             and_then (responsible_for_new_work m responsible db) (\<lambda>u.
             and_then (create_action ((new_action now (mt_id m) txt)\<lparr>na_date := target, na_precision := p,
                 na_status := Planned, na_responsible := (case u of None \<Rightarrow> mt_owner m | Some v \<Rightarrow> Some v),
                 na_created_by := actor\<rparr>) db) (\<lambda>(a, db).
             Inr (a, record_change_event now NEXT_ACTION_SET (Some (mt_id m)) actor (Some (na_id a))
               (take 200 txt) (planned_payload a PNull) db)))))))))"

definition change_planned_action ::
  "instant \<Rightarrow> row_id \<Rightarrow> row_id \<Rightarrow> string option \<Rightarrow> date option \<Rightarrow> row_id option \<Rightarrow> work_db
     \<Rightarrow> (next_action \<times> work_db) result" where
  "change_planned_action now matter i raw target actor db =
     (let txt = strip (case raw of None \<Rightarrow> [] | Some s \<Rightarrow> s)
      in ensure (txt \<noteq> []) TextRequired
        (ensure (target \<noteq> None) PlannedNeedsDate
        (and_then (lock_matter_for_write matter db) (\<lambda>m.
         ensure (mt_open m) ClosedMatterTakesNoStep
        (and_then (locked_planned (mt_id m) i db) (\<lambda>p.
         ensure (na_follow_up p = None) FollowUpHasItsOwnForm
        (if na_text p = txt \<and> na_date p = target then Inr (p, db)
         else
           and_then (create_action ((new_action now (mt_id m) txt)\<lparr>na_kind := na_kind p,
               na_semantics := na_semantics p, na_date := target,
               na_precision := (if target = na_date p then na_precision p else EXACT),
               na_status := Planned, na_responsible := na_responsible p, na_created_by := actor,
               na_override := na_override p, na_step := na_step p, na_source_text := na_source_text p\<rparr>) db)
           (\<lambda>(a, db).
           and_then (save_action (p\<lparr>na_status := Superseded, na_ended_at := Some now, na_ended_by := actor,
               na_replaced_by := Some (na_id a)\<rparr>) db) (\<lambda>db.
           Inr (a, record_change_event now NEXT_ACTION_SET (Some (mt_id m)) actor (Some (na_id a))
             (take 200 txt) (planned_payload a (PId (na_id p))) db))))))))))"

definition planned_removed :: string where
  "planned_removed = ''Planeeritud tegevus eemaldati''"

definition cancel_planned_action ::
  "instant \<Rightarrow> row_id \<Rightarrow> row_id \<Rightarrow> row_id option \<Rightarrow> work_db \<Rightarrow> (next_action \<times> work_db) result" where
  "cancel_planned_action now matter i actor db =
     and_then (lock_matter_for_write matter db) (\<lambda>m.
     and_then (locked_planned (mt_id m) i db) (\<lambda>a.
     ensure (na_follow_up a = None) FollowUpHasItsOwnForm
       (cancel_next_action now actor planned_removed None (na_id a) db)))"

definition finish_planned_action ::
  "instant \<Rightarrow> row_id option \<Rightarrow> next_action \<Rightarrow> work_db \<Rightarrow> (next_action \<times> work_db) result" where
  \<comment> \<open>of a row read under its matter's lock\<close>
  "finish_planned_action now actor a db =
     ensure (na_status a = Planned) PlannedChanged
    (ensure (na_follow_up a = None) FollowUpHasItsOwnForm
    (let a = a\<lparr>na_status := Completed, na_ended_at := Some now, na_ended_by := actor\<rparr>
     in and_then (save_action a db) (\<lambda>db.
        Inr (a, record_change_event now NEXT_ACTION_COMPLETED (Some (na_matter a)) actor (Some (na_id a))
          (action_summary a) [(''kind'', PKind (na_kind a)), (''planned'', PBool True)] db))))"

end
