(* ===== verification/FollowUps.thy ===== *)
theory FollowUps
  imports WorkActions
begin

text \<open>
  \<open>src/app/workflow/follow_ups.py\<close>: the check of a sent opinion, thirty days after sending, until
  its monitoring ends. \<open>zone\<close> is Django's \<open>timezone.localdate\<close>, the local day of an instant.
\<close>

definition follow_up_days :: int where
  "follow_up_days = 30"

definition follow_up_text_one :: string where
  "follow_up_text_one = ''Kontrolli, kas adressaat on Koja arvamusele vastanud''"

definition follow_up_text_many :: string where
  "follow_up_text_many = ''Kontrolli, kas adressaadid on Koja arvamusele vastanud''"

definition follow_up_proposal_text :: string where
  "follow_up_proposal_text = ''Kontrolli, mis on p'' @ CHR 0xF6 # CHR 0xF6 # ''rdumisest saanud''"

definition automatic_follow_up_texts :: "string list" where
  "automatic_follow_up_texts = [follow_up_text_one, follow_up_text_many, follow_up_proposal_text]"

definition follow_up_text :: "nat \<Rightarrow> bool \<Rightarrow> string" where
  "follow_up_text addressees proposal =
     (if proposal then follow_up_proposal_text
      else if 1 < addressees then follow_up_text_many else follow_up_text_one)"

definition first_check_day :: "date \<Rightarrow> date result" where
  "first_check_day sent_on =
     (case date_plus sent_on follow_up_days of Inl e \<Rightarrow> refuse (Raised e) | Inr d \<Rightarrow> Inr d)"

definition restriction_of :: "submission \<Rightarrow> visibility option" where
  "restriction_of s = (if sb_override s = Some VRestricted then Some VRestricted else None)"

definition completed_checks :: "follow_up \<Rightarrow> work_db \<Rightarrow> nat" where
  "completed_checks f db =
     count_where (\<lambda>a. na_follow_up a = Some (fu_id f) \<and> na_status a = Completed) (w_actions db)"

definition active_check :: "row_id \<Rightarrow> work_db \<Rightarrow> next_action option" where
  \<comment> \<open>at most one (\<open>workflow_one_active_check_per_follow_up\<close>)\<close>
  "active_check f db = first_action (\<lambda>a. na_follow_up a = Some f \<and> is_active a) db"

definition block :: "follow_up \<Rightarrow> payload \<Rightarrow> pvalue" where
  "block f extra = PDict ([(''id'', PId (fu_id f)), (''submission'', PId (fu_submission f))] @ extra)"

definition check_row :: "instant \<Rightarrow> work_matter \<Rightarrow> string \<Rightarrow> date \<Rightarrow> visibility option \<Rightarrow> row_id \<Rightarrow> row_id option \<Rightarrow> next_action" where
  \<comment> \<open>the row every writer of a check creates\<close>
  "check_row now m txt due override f actor =
     (new_action now (mt_id m) txt)\<lparr>na_date := Some due, na_status := Planned, na_responsible := mt_owner m,
       na_created_by := actor, na_override := override, na_follow_up := Some f\<rparr>"

definition lock_submission :: "row_id \<Rightarrow> work_db \<Rightarrow> submission result" where
  "lock_submission i db =
     (case first_where (\<lambda>s. sb_id s = i) (w_submissions db) of None \<Rightarrow> Inl DoesNotExist | Some s \<Rightarrow> Inr s)"

definition schedule_first_check ::
  "(instant \<Rightarrow> date) \<Rightarrow> instant \<Rightarrow> row_id \<Rightarrow> row_id option \<Rightarrow> work_db \<Rightarrow> (next_action option \<times> work_db) result" where
  "schedule_first_check zone now submission_id actor db =
     and_then (lock_submission submission_id db) (\<lambda>s.
     and_then (lock_open_matter_for_business_write (sb_matter s) db) (\<lambda>m.
     ensure (sb_status s = SubmissionSent \<and> sb_sent_at s \<noteq> None) OnlySentOpinions
    (case first_where (\<lambda>f. fu_submission f = sb_id s) (w_follow_ups db) of
       Some existing \<Rightarrow> Inr (active_check (fu_id existing) db, db)
     | None \<Rightarrow>
        (let sent_on = zone (the (sb_sent_at s))
         in and_then (first_check_day sent_on) (\<lambda>due.
            and_then (create_follow_up \<lparr>fu_id = 0, fu_submission = sb_id s, fu_sent_on = sent_on,
                fu_first_due_on = due, fu_state = Monitoring, fu_ended_at = None, fu_ended_by = None,
                fu_end_reason = [], fu_created_by = actor\<rparr> db) (\<lambda>(f, db).
            let txt = follow_up_text (sb_addressees s) (sb_is_proposal s)
            in and_then (create_action (check_row now m txt due (restriction_of s) (fu_id f) actor) db) (\<lambda>(a, db).
               Inr (Some a, record_change_event now NEXT_ACTION_SET (Some (mt_id m)) actor (Some (na_id a))
                 (take 200 txt) (planned_payload a PNull @
                   [(''follow_up'', block f [(''automatic'', PBool True), (''check'', PNat 1),
                      (''sent_on'', PDay sent_on)])]) db))))))))"

definition locked_check :: "row_id \<Rightarrow> row_id \<Rightarrow> work_db \<Rightarrow> next_action result" where
  "locked_check matter i db =
     (case first_action (\<lambda>a. na_matter a = matter \<and> na_id a = i \<and> na_follow_up a \<noteq> None \<and> is_active a) db of
        None \<Rightarrow> refuse FollowUpChanged
      | Some a \<Rightarrow> Inr a)"

definition refuse_a_past_day :: "date \<Rightarrow> date option \<Rightarrow> work_refusal \<Rightarrow> date result" where
  "refuse_a_past_day today day missing =
     (case day of
        None \<Rightarrow> refuse missing
      | Some d \<Rightarrow> ensure (today \<le> d) FollowUpDateInThePast (Inr d))"

definition follow_up_of :: "next_action \<Rightarrow> work_db \<Rightarrow> follow_up result" where
  "follow_up_of a db =
     (case first_where (\<lambda>f. Some (fu_id f) = na_follow_up a) (w_follow_ups db) of
        None \<Rightarrow> Inl DoesNotExist | Some f \<Rightarrow> Inr f)"

definition reschedule_check ::
  "(instant \<Rightarrow> date) \<Rightarrow> instant \<Rightarrow> row_id \<Rightarrow> row_id \<Rightarrow> date option \<Rightarrow> row_id option \<Rightarrow> work_db
     \<Rightarrow> (next_action \<times> work_db) result" where
  "reschedule_check zone now matter i target actor db =
     and_then (refuse_a_past_day (zone now) target FollowUpNeedsDate) (\<lambda>day.
     and_then (lock_open_matter_for_business_write matter db) (\<lambda>m.
     and_then (locked_check (mt_id m) i db) (\<lambda>a.
     if na_date a = Some day then Inr (a, db)
     else let before = na_date a; a = a\<lparr>na_date := Some day\<rparr>
          in and_then (save_action a db) (\<lambda>db.
             and_then (follow_up_of a db) (\<lambda>f.
             Inr (a, record_change_event now NEXT_ACTION_RESCHEDULED (Some (mt_id m)) actor (Some (na_id a))
               (action_summary a)
               [(''from'', p_day before), (''to'', PDay day),
                (''follow_up'', block f [(''first_due_on'', PDay (fu_first_due_on f))])] db))))))"

definition validate_outcome ::
  "date \<Rightarrow> follow_up_outcome option \<Rightarrow> date option \<Rightarrow> string option \<Rightarrow> 'a result \<Rightarrow> 'a result" where
  "validate_outcome today outcome next_check reason k =
     ensure (outcome \<noteq> None) FollowUpNeedsOutcome
       (and_then (if outcome = Some NO_RESPONSE
                  then and_then (refuse_a_past_day today next_check NextCheckNeedsDate) (\<lambda>_. Inr ())
                  else Inr ())
         (\<lambda>_. ensure (outcome \<noteq> Some MONITORING_ENDED
                      \<or> strip (case reason of None \<Rightarrow> [] | Some s \<Rightarrow> s) \<noteq> []) MonitoringEndNeedsReason k))"

definition complete_check ::
  "(instant \<Rightarrow> date) \<Rightarrow> instant \<Rightarrow> next_action \<Rightarrow> follow_up_outcome option \<Rightarrow> row_id option \<Rightarrow> date option
     \<Rightarrow> string option \<Rightarrow> work_db \<Rightarrow> (next_action option \<times> work_db) result" where
  \<comment> \<open>of a check read under its matter's lock\<close>
  "complete_check zone now a outcome actor next_check_on reason db =
     validate_outcome (zone now) outcome next_check_on reason
    (ensure (na_follow_up a \<noteq> None \<and> is_active a) FollowUpChanged
    (and_then (follow_up_of a db) (\<lambda>f.
     let was_current = (na_status a = Open);
         a = a\<lparr>na_status := Completed, na_ended_at := Some now, na_ended_by := actor, na_outcome := outcome\<rparr>
     in and_then (save_action a db) (\<lambda>db.
        let db = record_change_event now NEXT_ACTION_COMPLETED (Some (na_matter a)) actor (Some (na_id a))
              (action_summary a)
              [(''kind'', PKind (na_kind a)), (''planned'', PBool (\<not> was_current)),
               (''follow_up'', block f [(''outcome'', POutcome (the outcome))])] db
        in and_then
             (if outcome = Some NO_RESPONSE then
                (case next_check_on of
                   None \<Rightarrow> refuse NextCheckNeedsDate
                 | Some day \<Rightarrow>
                    (case first_where (\<lambda>m. mt_id m = na_matter a) (w_matters db) of
                       None \<Rightarrow> Inl DoesNotExist
                     | Some m \<Rightarrow>
                        and_then (create_action (check_row now m (na_text a) day (na_override a) (fu_id f) actor) db)
                          (\<lambda>(c, db). Inr (Some c,
                            record_change_event now NEXT_ACTION_SET (Some (na_matter a)) actor (Some (na_id c))
                              (action_summary c) (planned_payload c PNull @
                                [(''follow_up'', block f [(''automatic'', PBool False),
                                   (''check'', PNat (completed_checks f db + 1)), (''after'', PId (na_id a))])]) db))))
              else
                and_then (save_follow_up (f\<lparr>fu_state := (if outcome = Some RESPONSE_RECEIVED
                      then ResponseReceived else MonitoringEnded), fu_ended_at := Some now, fu_ended_by := actor,
                    fu_end_reason := strip (case reason of None \<Rightarrow> [] | Some s \<Rightarrow> s)\<rparr>) db)
                  (\<lambda>db. Inr (None, db)))
             (\<lambda>(next, db).
                if was_current then
                  and_then (promote_next_planned_action now (na_matter a) actor db) (\<lambda>(_, db). Inr (next, db))
                else Inr (next, db))))))"

definition restartable :: "follow_up \<Rightarrow> submission \<Rightarrow> row_id \<Rightarrow> bool" where
  \<comment> \<open>\<open>restartable_follow_ups(matter).filter(pk=...)\<close>\<close>
  "restartable f s m \<longleftrightarrow> sb_matter s = m \<and> sb_status s = SubmissionSent
     \<and> fu_state f = MonitoringCancelled \<and> fu_end_reason f = closed_with_matter"

fun latest_ended :: "next_action list \<Rightarrow> next_action option" where
  \<comment> \<open>\<open>order_by(''-ended_at'', ''-created_at'').first()\<close>; a cancelled row has its end stamped\<close>
  "latest_ended [] = None"
| "latest_ended (a # as) =
     (case latest_ended as of
        None \<Rightarrow> Some a
      | Some b \<Rightarrow> (case (na_ended_at a, na_ended_at b) of
            (Some x, Some y) \<Rightarrow> if y < x then Some a else Some b
          | (None, Some _) \<Rightarrow> Some a
          | (_, None) \<Rightarrow> Some b))"

definition restart_follow_up ::
  "(instant \<Rightarrow> date) \<Rightarrow> instant \<Rightarrow> row_id \<Rightarrow> row_id \<Rightarrow> date option \<Rightarrow> row_id option \<Rightarrow> work_db
     \<Rightarrow> (next_action \<times> work_db) result" where
  "restart_follow_up zone now matter i target actor db =
     and_then (refuse_a_past_day (zone now) target FollowUpNeedsDate) (\<lambda>day.
     and_then (lock_open_matter_for_business_write matter db) (\<lambda>m.
     case first_where (\<lambda>f. fu_id f = i \<and> (\<exists>s \<in> set (w_submissions db). sb_id s = fu_submission f \<and> sb_matter s = mt_id m))
            (w_follow_ups db) of
       None \<Rightarrow> refuse FollowUpNotRestartable
     | Some f \<Rightarrow>
        if fu_state f = Monitoring then
          (case active_check (fu_id f) db of None \<Rightarrow> refuse FollowUpNotRestartable | Some live \<Rightarrow> Inr (live, db))
        else and_then (lock_submission (fu_submission f) db) (\<lambda>s.
          ensure (restartable f s (mt_id m)) FollowUpNotRestartable
         (let cancelled = latest_ended (filter (\<lambda>a. na_follow_up a = Some (fu_id f) \<and> na_status a = Cancelled) (w_actions db));
              before = PDict [(''state'', PFollowUpState (fu_state f)),
                  (''ended_at'', case fu_ended_at f of None \<Rightarrow> PNull | Some t \<Rightarrow> PInstant t),
                  (''ended_by'', p_id (fu_ended_by f)), (''end_reason'', PText (fu_end_reason f))];
              f = f\<lparr>fu_state := Monitoring, fu_ended_at := None, fu_ended_by := None, fu_end_reason := []\<rparr>;
              restricted = (case restriction_of s of
                  Some v \<Rightarrow> Some v
                | None \<Rightarrow> (case cancelled of
                      Some c \<Rightarrow> if na_override c = Some VRestricted then Some VRestricted else None
                    | None \<Rightarrow> None));
              txt = (case cancelled of Some c \<Rightarrow> na_text c | None \<Rightarrow> follow_up_text (sb_addressees s) (sb_is_proposal s))
          in and_then (save_follow_up f db) (\<lambda>db.
             and_then (create_action (check_row now m txt day restricted (fu_id f) actor) db) (\<lambda>(c, db).
             Inr (c, record_change_event now NEXT_ACTION_SET (Some (mt_id m)) actor (Some (na_id c)) (take 200 txt)
               (planned_payload c PNull @
                 [(''follow_up'', block f [(''automatic'', PBool False),
                    (''check'', PNat (completed_checks f db + 1)),
                    (''after'', p_id (map_option na_id cancelled)), (''restarted'', PBool True),
                    (''previous'', before)])]) db)))))))"

fun cancel_checks ::
  "instant \<Rightarrow> row_id option \<Rightarrow> string \<Rightarrow> row_id list \<Rightarrow> work_db \<Rightarrow> work_db result" where
  "cancel_checks now actor reason [] db = Inr db"
| "cancel_checks now actor reason (i # is) db =
     and_then (cancel_next_action now actor reason None i db) (\<lambda>(_, db). cancel_checks now actor reason is db)"

definition cancel_checks_of_submission ::
  "instant \<Rightarrow> submission \<Rightarrow> row_id option \<Rightarrow> string \<Rightarrow> work_db \<Rightarrow> (nat \<times> work_db) result" where
  "cancel_checks_of_submission now s actor reason db =
     (case first_where (\<lambda>f. fu_submission f = sb_id s) (w_follow_ups db) of
        None \<Rightarrow> Inr (0, db)
      | Some f \<Rightarrow>
          if fu_state f \<noteq> Monitoring then Inr (0, db)
          else
            let checks = filter (\<lambda>a. na_follow_up a = Some (fu_id f) \<and> is_active a) (w_actions db);
                was_current = list_ex (\<lambda>a. na_status a = Open) checks
            in and_then (cancel_checks now actor reason (map na_id checks) db) (\<lambda>db.
               if was_current then
                 and_then (promote_next_planned_action now (sb_matter s) actor db) (\<lambda>(_, db). Inr (length checks, db))
               else Inr (length checks, db)))"

fun reword_checks :: "string \<Rightarrow> next_action list \<Rightarrow> work_db \<Rightarrow> (payload list \<times> work_db) result" where
  "reword_checks wanted [] db = Inr ([], db)"
| "reword_checks wanted (a # as) db =
     (if na_text a = wanted \<or> na_text a \<notin> set automatic_follow_up_texts then reword_checks wanted as db
      else and_then (save_action (a\<lparr>na_text := wanted\<rparr>) db) (\<lambda>db.
           and_then (reword_checks wanted as db) (\<lambda>(rest, db).
           Inr ([(''id'', PId (na_id a)), (''from'', PText (na_text a)), (''to'', PText wanted),
                 (''follow_up'', p_id (na_follow_up a))] # rest, db))))"

definition follow_recipient_correction :: "submission \<Rightarrow> work_db \<Rightarrow> (payload list \<times> work_db) result" where
  "follow_recipient_correction s db =
     (case first_where (\<lambda>f. fu_submission f = sb_id s) (w_follow_ups db) of
        None \<Rightarrow> Inr ([], db)
      | Some f \<Rightarrow>
          if fu_state f \<noteq> Monitoring then Inr ([], db)
          else reword_checks (follow_up_text (sb_addressees s) (sb_is_proposal s))
                 (filter (\<lambda>a. na_follow_up a = Some (fu_id f) \<and> is_active a) (w_actions db)) db)"

definition follow_sent_date_correction ::
  "(instant \<Rightarrow> date) \<Rightarrow> instant \<Rightarrow> submission \<Rightarrow> row_id option \<Rightarrow> work_db \<Rightarrow> (next_action option \<times> work_db) result" where
  "follow_sent_date_correction zone now s actor db =
     (case first_where (\<lambda>f. fu_submission f = sb_id s) (w_follow_ups db) of
        None \<Rightarrow> Inr (None, db)
      | Some f \<Rightarrow>
          (case sb_sent_at s of
             None \<Rightarrow> Inr (None, db)
           | Some sent_at \<Rightarrow>
              (let sent_on = zone sent_at
               in if fu_state f \<noteq> Monitoring \<or> sent_on = fu_sent_on f
                    \<or> first_action (\<lambda>a. na_follow_up a = Some (fu_id f) \<and> na_status a = Completed) db \<noteq> None
                  then Inr (None, db)
                  else case active_check (fu_id f) db of
                    None \<Rightarrow> Inr (None, db)
                  | Some c \<Rightarrow>
                      if na_date c \<noteq> Some (fu_first_due_on f) then Inr (None, db)
                      else and_then (first_check_day sent_on) (\<lambda>due.
                        let before = na_date c; c = c\<lparr>na_date := Some due\<rparr>;
                            f = f\<lparr>fu_sent_on := sent_on, fu_first_due_on := due\<rparr>
                        in and_then (save_action c db) (\<lambda>db.
                           and_then (save_follow_up f db) (\<lambda>db.
                           Inr (Some c, record_change_event now NEXT_ACTION_RESCHEDULED (Some (na_matter c)) actor
                             (Some (na_id c)) (action_summary c)
                             [(''from'', p_day before), (''to'', PDay due), (''recalculated'', PBool True),
                              (''follow_up'', block f [(''sent_on'', PDay sent_on)])] db)))))))"

end
