(* ===== verification/Closure.thy ===== *)
theory Closure
  imports FollowUps
begin

text \<open>
  How a matter moves, ends and comes back: the stage periods, the closing and the reopening of
  \<open>src/app/matters/services.py\<close>, with the confirmation of the work a closing ends
  (\<open>src/app/matters/closure_work.py\<close>). \<open>digest\<close> is SHA-256 of the tokens, shortened to sixteen
  hexadecimal digits; \<open>sees\<close> whether the closing person may read a matter.
\<close>

section \<open>The live work of a matter\<close>

datatype work_token = TMatter row_id | TAction row_id | TOverview row_id | TWait row_id | TCheckToCome

record live_work =
  lw_current :: bool
  lw_planned :: nat
  lw_checks :: nat
  lw_overviews :: nat
  lw_waits :: nat
  lw_action_ids :: "row_id list"
  lw_overview_ids :: "row_id list"
  lw_wait_ids :: "row_id list"
  lw_check_to_come :: bool
  lw_matter :: row_id

definition work_tokens :: "live_work \<Rightarrow> work_token list" where
  "work_tokens w =
     TMatter (lw_matter w) # map TAction (lw_action_ids w) @ map TOverview (lw_overview_ids w)
       @ map TWait (lw_wait_ids w) @ (if lw_check_to_come w then [TCheckToCome] else [])"

definition no_live_work :: "live_work \<Rightarrow> bool" where
  "no_live_work w \<longleftrightarrow>
     \<not> (lw_current w \<or> lw_planned w \<noteq> 0 \<or> lw_checks w \<noteq> 0 \<or> lw_overviews w \<noteq> 0 \<or> lw_waits w \<noteq> 0)"

definition planned_overview :: "row_id \<Rightarrow> overview \<Rightarrow> bool" where
  "planned_overview m r \<longleftrightarrow> ov_matter r = m \<and> ov_status r = OverviewPlanned \<and> ov_removed_at r = None"

definition open_wait :: "row_id \<Rightarrow> engagement \<Rightarrow> bool" where
  "open_wait m r \<longleftrightarrow> en_matter r = m \<and> en_removed_at r = None \<and> en_tracked r \<and> en_closed_at r = None"

definition live_work_at_closure :: "row_id \<Rightarrow> row_id option \<Rightarrow> bool \<Rightarrow> work_db \<Rightarrow> live_work" where
  \<comment> \<open>rows in the order of their keys, which is how \<open>sorted(str(pk))\<close> orders time-sortable keys\<close>
  "live_work_at_closure m finishing will_check db =
     (let rows = filter (\<lambda>a. na_matter a = m \<and> is_active a \<and> Some (na_id a) \<noteq> finishing) (w_actions db);
          checks = count_where (\<lambda>a. na_follow_up a \<noteq> None) rows;
          overviews = map ov_id (filter (planned_overview m) (w_overviews db));
          waits = map en_id (filter (open_wait m) (w_engagements db))
      in \<lparr>lw_current = list_ex (\<lambda>a. na_status a = Open \<and> na_follow_up a = None) rows,
          lw_planned = count_where (\<lambda>a. na_status a = Planned \<and> na_follow_up a = None) rows,
          lw_checks = checks + (if will_check \<and> checks = 0 then 1 else 0),
          lw_overviews = length overviews, lw_waits = length waits,
          lw_action_ids = sort (map na_id rows), lw_overview_ids = sort overviews, lw_wait_ids = sort waits,
          lw_check_to_come = will_check, lw_matter = m\<rparr>)"

datatype closure_confirmation = Ticked bool | Warned string

definition confirmation_matches ::
  "(work_token list \<Rightarrow> string) \<Rightarrow> live_work \<Rightarrow> closure_confirmation \<Rightarrow> bool" where
  "confirmation_matches digest w c =
     (case c of Ticked b \<Rightarrow> b | Warned s \<Rightarrow> s \<noteq> [] \<and> strip s = digest (work_tokens w))"

definition is_hex :: "char \<Rightarrow> bool" where
  "is_hex c \<longleftrightarrow> is_digit c \<or> 97 \<le> (of_char c :: nat) \<and> (of_char c :: nat) \<le> 102"

definition is_stale_confirmation :: "closure_confirmation \<Rightarrow> bool" where
  "is_stale_confirmation c = (case c of Ticked _ \<Rightarrow> False | Warned s \<Rightarrow> re_match is_hex 16 16 (strip s))"

definition refuse_unconfirmed_closure ::
  "(work_token list \<Rightarrow> string) \<Rightarrow> row_id \<Rightarrow> closure_confirmation \<Rightarrow> row_id option \<Rightarrow> bool \<Rightarrow> work_db
     \<Rightarrow> bool result" where
  "refuse_unconfirmed_closure digest m c finishing will_check db =
     (let w = live_work_at_closure m finishing will_check db
      in if no_live_work w then Inr False
         else if confirmation_matches digest w c then Inr True
         else refuse (if is_stale_confirmation c then StaleClosureConfirmation else ClosureUnconfirmed))"

section \<open>Ending the live work\<close>

definition cancel_one_overview :: "instant \<Rightarrow> row_id option \<Rightarrow> overview \<Rightarrow> work_db \<Rightarrow> work_db" where
  "cancel_one_overview now actor r db =
     record_change_event now WEBSITE_OVERVIEW_CANCELLED (Some (ov_matter r)) actor (Some (ov_id r)) []
       [(''status'', PText ''CANCELLED''), (''reason'', PText ''matter_closed'')]
       (db\<lparr>w_overviews := update_where (\<lambda>s. ov_id s = ov_id r)
          (\<lambda>s. s\<lparr>ov_status := OverviewCancelled, ov_cancelled_at := Some now, ov_status_changed_at := Some now\<rparr>)
          (w_overviews db)\<rparr>)"

definition cancel_planned_overviews :: "instant \<Rightarrow> row_id \<Rightarrow> row_id option \<Rightarrow> work_db \<Rightarrow> work_db" where
  "cancel_planned_overviews now m actor db =
     fold (cancel_one_overview now actor) (filter (planned_overview m) (w_overviews db)) db"

definition close_one_wait :: "instant \<Rightarrow> row_id \<Rightarrow> row_id option \<Rightarrow> engagement \<Rightarrow> work_db \<Rightarrow> work_db" where
  "close_one_wait now m actor r db =
     record_change_event now ENGAGEMENT_FEEDBACK_CLOSED (Some m) actor (Some (en_id r)) (take 200 (en_title r))
       [(''reason'', PText ''matter_closed''), (''feedback_deadline'', p_day (en_feedback_deadline r)),
        (''closed_at'', PInstant now), (''has_feedback_received'', PBool (en_feedback_received r \<noteq> []))]
       (db\<lparr>w_engagements := update_where (\<lambda>s. en_id s = en_id r)
          (\<lambda>s. s\<lparr>en_closed_at := Some now, en_closed_by := actor\<rparr>) (w_engagements db)\<rparr>)"

definition close_open_waits :: "instant \<Rightarrow> row_id \<Rightarrow> row_id option \<Rightarrow> work_db \<Rightarrow> work_db" where
  "close_open_waits now m actor db =
     fold (close_one_wait now m actor) (filter (open_wait m) (w_engagements db)) db"

definition end_live_work_for_closure :: "instant \<Rightarrow> row_id \<Rightarrow> row_id option \<Rightarrow> work_db \<Rightarrow> work_db result" where
  "end_live_work_for_closure now m actor db =
     and_then (end_open_action_for_closure now m actor db) (\<lambda>(_, db).
       Inr (close_open_waits now m actor (cancel_planned_overviews now m actor db)))"

section \<open>The chain of continuations\<close>

definition cycle_check_hops :: nat where
  "cycle_check_hops = 200"

definition matter_row :: "work_db \<Rightarrow> row_id \<Rightarrow> work_matter option" where
  \<comment> \<open>\<open>Matter.all_objects\<close>, deleted ones too\<close>
  "matter_row db i = first_where (\<lambda>m. mt_id m = i) (w_matters db)"

fun refuse_cycle_from ::
  "work_db \<Rightarrow> row_id \<Rightarrow> row_id list \<Rightarrow> nat \<Rightarrow> work_matter \<Rightarrow> unit result" where
  \<comment> \<open>the loop of \<open>_refuse_continuation_cycle\<close> over the matters locked, with the hops left\<close>
  "refuse_cycle_from db closing seen 0 step = refuse ContinuationTooLong"
| "refuse_cycle_from db closing seen (Suc n) step =
     (case mt_superseded_by step of
        None \<Rightarrow> Inr ()
      | Some following \<Rightarrow>
          if following = closing then refuse ContinuationCycle
          else if following \<in> set seen then Inr ()
          else (case matter_row db following of
              None \<Rightarrow> Inl DoesNotExist
            | Some m \<Rightarrow> refuse_cycle_from db closing (following # seen) n m))"

definition refuse_continuation_cycle :: "work_db \<Rightarrow> row_id \<Rightarrow> work_matter \<Rightarrow> unit result" where
  "refuse_continuation_cycle db closing successor =
     refuse_cycle_from db closing [mt_id successor] cycle_check_hops successor"

section \<open>Closing\<close>

definition close_matter ::
  "(work_token list \<Rightarrow> string) \<Rightarrow> (row_id option \<Rightarrow> row_id \<Rightarrow> bool) \<Rightarrow> instant \<Rightarrow> row_id \<Rightarrow> disposition option
     \<Rightarrow> row_id option \<Rightarrow> string \<Rightarrow> row_id option \<Rightarrow> closure_confirmation \<Rightarrow> work_db
     \<Rightarrow> (work_matter \<times> work_db) result" where
  \<comment> \<open>the successor is the key of a matter; a disposition outside the vocabulary is \<open>None\<close>\<close>
  "close_matter digest sees now i disp actor reason successor c db =
     ensure (disp \<noteq> None) UnknownDisposition
    (ensure (disp = Some SUPERSEDED \<longrightarrow> successor \<noteq> None) SupersededNeedsSuccessor
    (ensure (successor \<noteq> None \<longrightarrow> disp = Some SUPERSEDED) SuccessorOnlyWhenSuperseded
    (ensure (successor \<noteq> Some i) OwnSuccessor
    (and_then
       (case successor of
          None \<Rightarrow> and_then (lock_matter_for_write i db) (\<lambda>m. Inr (m, None))
        | Some j \<Rightarrow>
            (case (matter_row db i, matter_row db j) of
               (Some m, Some s) \<Rightarrow>
                 if mt_deleted_at m \<noteq> None then Inl DoesNotExist
                 else ensure (mt_deleted_at s = None) SuccessorDeleted
                   (ensure (actor \<noteq> None \<longrightarrow> sees actor j) SuccessorDeleted (Inr (m, Some s)))
             | _ \<Rightarrow> Inl DoesNotExist))
       (\<lambda>(m, s).
     ensure (mt_open m) AlreadyClosed
    (and_then (case s of None \<Rightarrow> Inr () | Some s \<Rightarrow> refuse_continuation_cycle db i s) (\<lambda>_.
     and_then (refuse_unconfirmed_closure digest i c None False db) (\<lambda>_.
     let ending = live_work_at_closure i None False db;
         m = m\<lparr>mt_open := False, mt_disposition := disp, mt_disposition_reason := reason,
               mt_closed_at := Some now, mt_closed_by := actor, mt_superseded_by := successor\<rparr>
     in and_then (save_matter m db) (\<lambda>db.
        and_then (end_live_work_for_closure now i actor db) (\<lambda>db.
        Inr (m, record_change_event now MATTER_CLOSED (Some i) actor (Some i) (take 200 reason)
          [(''disposition'', PDisposition (the disp)), (''reason'', PText reason), (''successor'', p_id successor),
           (''ended'', PDict [(''actions'', PList (map PId (lw_action_ids ending))),
              (''overviews'', PList (map PId (lw_overview_ids ending))),
              (''waits'', PList (map PId (lw_wait_ids ending)))])] db)))))))))))"

section \<open>Stage periods\<close>

definition current_stage_episode :: "row_id \<Rightarrow> work_db \<Rightarrow> stage_episode option" where
  "current_stage_episode m db = first_where (\<lambda>e. se_matter e = m \<and> se_current e) (w_episodes db)"

definition last_sequence :: "row_id \<Rightarrow> work_db \<Rightarrow> nat" where
  \<comment> \<open>\<open>last or 0\<close>\<close>
  "last_sequence m db =
     fold (\<lambda>e n. max n (se_sequence e)) (filter (\<lambda>e. se_matter e = m) (w_episodes db)) 0"

definition open_stage_episode ::
  "row_id \<Rightarrow> stage_row \<Rightarrow> episode_origin \<Rightarrow> instant option \<Rightarrow> work_db \<Rightarrow> (stage_episode \<times> work_db) result" where
  "open_stage_episode m stage origin at db =
     create_episode \<lparr>se_id = 0, se_matter = m, se_stage = stage, se_sequence = last_sequence m db + 1,
       se_origin = origin, se_started_at = (if origin = RECORDED then at else None), se_ended_at = None,
       se_current = True\<rparr> db"

definition turn_stage_episode ::
  "instant \<Rightarrow> row_id \<Rightarrow> stage_row option \<Rightarrow> episode_origin \<Rightarrow> work_db \<Rightarrow> work_db result" where
  "turn_stage_episode now m stage origin db =
     and_then (case current_stage_episode m db of
                 None \<Rightarrow> Inr db
               | Some e \<Rightarrow> save_episode (e\<lparr>se_current := False,
                   se_ended_at := (if origin = RECORDED then Some now else None)\<rparr>) db) (\<lambda>db.
     case stage of
       None \<Rightarrow> Inr db
     | Some s \<Rightarrow> and_then (open_stage_episode m s origin (Some now) db) (\<lambda>(_, db). Inr db))"

record stage_move =
  mv_moved :: bool
  mv_closes :: bool

definition move_locked_stage ::
  "instant \<Rightarrow> work_matter \<Rightarrow> stage_row option \<Rightarrow> row_id option \<Rightarrow> episode_origin \<Rightarrow> work_db
     \<Rightarrow> (stage_move \<times> work_db) result" where
  "move_locked_stage now m stage actor origin db =
     (if mt_stage m = stage then Inr (\<lparr>mv_moved = False, mv_closes = False\<rparr>, db)
      else
        and_then (turn_stage_episode now (mt_id m) stage origin db) (\<lambda>db.
        and_then (save_matter (m\<lparr>mt_stage := stage\<rparr>) db) (\<lambda>db.
        let label = (\<lambda>s. case s of None \<Rightarrow> PNull | Some r \<Rightarrow> PText (sv_label r));
            key = (\<lambda>s. case s of None \<Rightarrow> PNull | Some r \<Rightarrow> PText (sv_key r))
        in Inr (\<lparr>mv_moved = True, mv_closes = (mt_open m \<and> is_terminal (map_option sv_key stage))\<rparr>,
             record_change_event now MATTER_STAGE_CHANGED (Some (mt_id m)) actor (Some (mt_id m))
               (case stage of None \<Rightarrow> [] | Some r \<Rightarrow> sv_label r)
               [(''from_label'', label (mt_stage m)), (''to_label'', label stage),
                (''from_key'', key (mt_stage m)), (''to_key'', key stage)] db))))"

definition move_stage ::
  "instant \<Rightarrow> row_id \<Rightarrow> stage_row option \<Rightarrow> row_id option \<Rightarrow> episode_origin \<Rightarrow> work_db
     \<Rightarrow> (stage_move \<times> work_db) result" where
  "move_stage now i stage actor origin db =
     and_then (lock_matter_for_write i db) (\<lambda>m.
     ensure (mt_open m \<or> mt_stage m = stage) ClosedMatterStage (move_locked_stage now m stage actor origin db))"

definition close_matter_for_terminal_stage ::
  "(work_token list \<Rightarrow> string) \<Rightarrow> (row_id option \<Rightarrow> row_id \<Rightarrow> bool) \<Rightarrow> instant \<Rightarrow> work_matter \<Rightarrow> row_id option
     \<Rightarrow> closure_confirmation \<Rightarrow> work_db \<Rightarrow> (bool \<times> work_db) result" where
  "close_matter_for_terminal_stage digest sees now m actor c db =
     (case mt_stage m of
        None \<Rightarrow> Inr (False, db)
      | Some s \<Rightarrow>
          if \<not> is_terminal (Some (sv_key s)) \<or> \<not> mt_open m then Inr (False, db)
          else and_then (close_matter digest sees now (mt_id m) (map_of terminal_dispositions (sv_key s)) actor []
                 None c db) (\<lambda>(_, db). Inr (True, db)))"

definition change_stage ::
  "(work_token list \<Rightarrow> string) \<Rightarrow> (row_id option \<Rightarrow> row_id \<Rightarrow> bool) \<Rightarrow> instant \<Rightarrow> row_id \<Rightarrow> stage_row option
     \<Rightarrow> row_id option \<Rightarrow> episode_origin \<Rightarrow> closure_confirmation \<Rightarrow> work_db \<Rightarrow> work_db result" where
  "change_stage digest sees now i stage actor origin c db =
     and_then (move_stage now i stage actor origin db) (\<lambda>(move, db).
     if mv_closes move then
       and_then (lock_matter_for_write i db) (\<lambda>m.
       and_then (close_matter_for_terminal_stage digest sees now m actor c db) (\<lambda>(_, db). Inr db))
     else Inr db)"

section \<open>Reopening\<close>

definition ensure_current_stage_episode :: "work_matter \<Rightarrow> work_db \<Rightarrow> work_db result" where
  "ensure_current_stage_episode m db =
     (case mt_stage m of
        None \<Rightarrow> Inr db
      | Some s \<Rightarrow>
          (case current_stage_episode (mt_id m) db of
             Some _ \<Rightarrow> Inr db
           | None \<Rightarrow> and_then (open_stage_episode (mt_id m) s CARRIED_OVER None db) (\<lambda>(_, db). Inr db)))"

definition reopen_matter :: "instant \<Rightarrow> row_id \<Rightarrow> row_id option \<Rightarrow> string \<Rightarrow> work_db \<Rightarrow> work_db result" where
  "reopen_matter now i actor reason db =
     and_then (lock_matter_for_write i db) (\<lambda>m.
     ensure (\<not> mt_open m) AlreadyOpen
    (let m = m\<lparr>mt_open := True, mt_disposition := None, mt_disposition_reason := [], mt_closed_at := None,
               mt_closed_by := None, mt_superseded_by := None\<rparr>
     in and_then (save_matter m db) (\<lambda>db.
        and_then (ensure_current_stage_episode m db) (\<lambda>db.
        Inr (record_change_event now MATTER_REOPENED (Some i) actor (Some i) (take 200 reason) [] db)))))"

definition mark_historical_archive_inactive ::
  "instant \<Rightarrow> row_id \<Rightarrow> row_id option \<Rightarrow> payload option \<Rightarrow> work_db \<Rightarrow> work_db result" where
  "mark_historical_archive_inactive now i actor provenance db =
     and_then (lock_matter_for_write i db) (\<lambda>m.
     ensure (mt_mode m = ARCHIVE) OnlyArchiveCutover
    (ensure (mt_open m) AlreadyClosed
    (and_then (save_matter (m\<lparr>mt_open := False\<rparr>) db) (\<lambda>db.
     and_then (end_live_work_for_closure now i actor db) (\<lambda>db.
     Inr (record_change_event now MATTER_HISTORICAL_CUTOVER_CLOSED (Some i) actor (Some i)
       (''Ajalooline kirje: enam mitte jooksev t'' @ CHR 0xF6 # CHR 0xF6 # ''.'')
       ((case provenance of None \<Rightarrow> [] | Some pv \<Rightarrow> pv) @
         [(''from_is_open'', PBool True), (''to_is_open'', PBool False)]) db))))))"

end
