(* ===== verification/WorkPlan.thy ===== *)
theory WorkPlan
  imports WorkActions
begin

text \<open>
  \<open>src/app/workflow/plan.py\<close>: the suggested steps of a matter and how one becomes work. The
  revision a form carries is \<open>digest\<close> of the steps' keys and stamps, SHA-256 in the code.
\<close>

record template_step =
  ts_key :: string
  ts_title :: string
  ts_operation :: step_operation

record plan_template =
  pt_key :: string
  pt_version :: nat
  pt_label :: string
  pt_steps :: "template_step list"

definition standard_plan :: plan_template where
  "standard_plan =
     \<lparr>pt_key = ''standard-legislative'', pt_version = 2, pt_label = ''Tavap'' @ CHR 0xE4 # ''rane t'' @ CHR 0xF6 # CHR 0xF6 # ''plaan'',
      pt_steps =
        [\<lparr>ts_key = ''read-material'', ts_title = ''Tutvu materjaliga'', ts_operation = GENERIC\<rparr>,
         \<lparr>ts_key = ''website-overview'', ts_title = ''Koosta kodulehe '' @ CHR 0xFC # ''levaade'', ts_operation = WEBSITE_OVERVIEW\<rparr>,
         \<lparr>ts_key = ''consult-members'', ts_title = ''Kaasa liikmeid / k'' @ CHR 0xFC # ''si tagasisidet'', ts_operation = ENGAGEMENT\<rparr>,
         \<lparr>ts_key = ''send-opinion'', ts_title = ''Saada Koja arvamus'', ts_operation = SUBMISSION\<rparr>]\<rparr>"

definition structured_operations :: "step_operation list" where
  "structured_operations = [WEBSITE_OVERVIEW, ENGAGEMENT, SUBMISSION]"

definition step_open :: "plan_step \<Rightarrow> bool" where
  "step_open s \<longleftrightarrow> ps_state s = StepSuggested \<or> ps_state s = StepPlanned"

definition plan_steps_of :: "row_id \<Rightarrow> work_db \<Rightarrow> plan_step list" where
  \<comment> \<open>\<open>order_by(''position'', ''created_at'')\<close>\<close>
  "plan_steps_of m db = sort_key ps_position (filter (\<lambda>s. ps_matter s = m) (w_steps db))"

definition plan_revision :: "((row_id \<times> instant) list \<Rightarrow> string) \<Rightarrow> plan_step list \<Rightarrow> string" where
  "plan_revision digest steps = digest (map (\<lambda>s. (ps_id s, ps_updated_at s)) steps)"

definition current_step_id :: "row_id \<Rightarrow> work_db \<Rightarrow> row_id option" where
  "current_step_id m db =
     (case first_action (\<lambda>a. na_matter a = m \<and> na_status a = Open) db of None \<Rightarrow> None | Some a \<Rightarrow> na_step a)"

definition lock_for_new_steps :: "row_id \<Rightarrow> work_db \<Rightarrow> work_matter result" where
  "lock_for_new_steps i db =
     and_then (lock_open_matter_for_business_write i db) (\<lambda>m. ensure (mt_mode m = FULL) ArchiveHasNoPlan (Inr m))"

definition check_revision ::
  "((row_id \<times> instant) list \<Rightarrow> string) \<Rightarrow> plan_step list \<Rightarrow> string option \<Rightarrow> 'a result \<Rightarrow> 'a result" where
  "check_revision digest steps expected k =
     ensure (case expected of None \<Rightarrow> True | Some r \<Rightarrow> plan_revision digest steps = r) StalePlan k"

definition find_step :: "plan_step list \<Rightarrow> row_id \<Rightarrow> plan_step result" where
  "find_step steps i =
     (case first_where (\<lambda>s. ps_id s = i) steps of None \<Rightarrow> refuse StepNotOnMatter | Some s \<Rightarrow> Inr s)"

fun create_template_steps ::
  "instant \<Rightarrow> row_id \<Rightarrow> row_id option \<Rightarrow> plan_template \<Rightarrow> nat \<Rightarrow> template_step list \<Rightarrow> work_db
     \<Rightarrow> (plan_step list \<times> work_db) result" where
  "create_template_steps now m actor t position [] db = Inr ([], db)"
| "create_template_steps now m actor t position (item # items) db =
     and_then (create_step \<lparr>ps_id = 0, ps_matter = m, ps_position = position, ps_title = ts_title item,
         ps_source = FromTemplate, ps_operation = ts_operation item, ps_state = StepSuggested,
         ps_template_key = pt_key t, ps_template_version = Some (pt_version t),
         ps_template_step_key = ts_key item, ps_created_by = actor, ps_completed_at = None,
         ps_completed_by = None, ps_skipped_at = None, ps_skipped_by = None,
         ps_fulfilled_by_operation = None, ps_fulfilled_by_record = None, ps_updated_at = now\<rparr> db) (\<lambda>(s, db).
     and_then (create_template_steps now m actor t (Suc position) items db) (\<lambda>(ss, db). Inr (s # ss, db)))"

definition seed_standard_plan ::
  "((row_id \<times> instant) list \<Rightarrow> string) \<Rightarrow> instant \<Rightarrow> row_id \<Rightarrow> row_id option \<Rightarrow> plan_template \<Rightarrow> string option
     \<Rightarrow> work_db \<Rightarrow> (plan_step list \<times> work_db) result" where
  "seed_standard_plan digest now matter actor t expected db =
     and_then (lock_for_new_steps matter db) (\<lambda>m.
     let steps = plan_steps_of (mt_id m) db
     in check_revision digest steps expected
       (let present = map ps_template_step_key
              (filter (\<lambda>s. ps_source s = FromTemplate \<and> ps_template_key s = pt_key t) steps);
            missing = filter (\<lambda>i. ts_key i \<notin> set present) (pt_steps t)
        in if missing = [] then Inr ([], db)
           else and_then (create_template_steps now (mt_id m) actor t (length steps) missing db) (\<lambda>(created, db).
             Inr (created, record_change_event now PLAN_SEEDED (Some (mt_id m)) actor None (pt_label t)
               [(''template'', PText (pt_key t)), (''version'', PNat (pt_version t)),
                (''steps'', PList (map (\<lambda>i. PText (ts_key i)) missing))] db))))"

definition skip_plan_step ::
  "((row_id \<times> instant) list \<Rightarrow> string) \<Rightarrow> instant \<Rightarrow> plan_step \<Rightarrow> row_id option \<Rightarrow> string option \<Rightarrow> work_db
     \<Rightarrow> (plan_step \<times> work_db) result" where
  "skip_plan_step digest now step actor expected db =
     and_then (lock_open_matter_for_business_write (ps_matter step) db) (\<lambda>m.
     let steps = plan_steps_of (mt_id m) db
     in check_revision digest steps expected
       (and_then (find_step steps (ps_id step)) (\<lambda>s.
        ensure (step_open s) StepNotOpen
       (ensure (current_step_id (mt_id m) db \<noteq> Some (ps_id s)) StepIsCurrent
       (let before = ps_state s;
            s = s\<lparr>ps_state := StepSkipped, ps_skipped_at := Some now, ps_skipped_by := actor, ps_updated_at := now\<rparr>
        in and_then (save_step s db) (\<lambda>db.
           Inr (s, record_change_event now PLAN_STEP_SKIPPED (Some (mt_id m)) actor (Some (ps_id s))
             (take 200 (ps_title s)) [(''from'', PStepState before)] db)))))))"

definition startable_step :: "row_id \<Rightarrow> row_id \<Rightarrow> work_db \<Rightarrow> plan_step result" where
  "startable_step m i db =
     (case first_where (\<lambda>s. ps_matter s = m \<and> ps_id s = i) (w_steps db) of
        None \<Rightarrow> refuse StepNotOnMatter
      | Some s \<Rightarrow> ensure (step_open s) StepNotOpen (Inr s))"

definition start_step ::
  "instant \<Rightarrow> work_matter \<Rightarrow> plan_step \<Rightarrow> row_id option \<Rightarrow> string option \<Rightarrow> date option \<Rightarrow> date_precision
     \<Rightarrow> row_id option \<Rightarrow> work_db \<Rightarrow> (next_action \<times> work_db) result" where
  "start_step now m s actor raw target p responsible db =
     (let txt = strip (case raw of None \<Rightarrow> [] | Some r \<Rightarrow> r)
      in and_then (set_next_action_for_new_work now (mt_id m)
           ((plain_request (if txt = [] then ps_title s else txt) target actor)
              \<lparr>rq_precision := p, rq_responsible := responsible, rq_plan_step := Some s\<rparr>) db) (\<lambda>(a, db).
         let s = s\<lparr>ps_state := (if ps_state s = StepSuggested then StepPlanned else ps_state s), ps_updated_at := now\<rparr>
         in and_then (save_step s db) (\<lambda>db.
            Inr (a, record_change_event now PLAN_STEP_ACTIVATED (Some (mt_id m)) actor (Some (ps_id s))
              (take 200 (ps_title s)) [(''action'', PId (na_id a))] db))))"

definition activate_plan_step ::
  "instant \<Rightarrow> row_id \<Rightarrow> row_id \<Rightarrow> row_id option \<Rightarrow> string option \<Rightarrow> date option \<Rightarrow> date_precision
     \<Rightarrow> row_id option \<Rightarrow> work_db \<Rightarrow> (next_action \<times> work_db) result" where
  "activate_plan_step now matter i actor raw target p responsible db =
     and_then (lock_open_matter_for_business_write matter db) (\<lambda>m.
     and_then (startable_step (mt_id m) i db) (\<lambda>s.
     ensure (ps_operation s \<notin> set structured_operations) StepOpensItsOwnForm
    (ensure (current_next_action (mt_id m) db = None) CurrentActionExists
      (start_step now m s actor raw target p responsible db))))"

definition launched_step ::
  "row_id \<Rightarrow> row_id \<Rightarrow> step_operation \<Rightarrow> work_db \<Rightarrow> (plan_step \<times> next_action option) result" where
  "launched_step m i operation db =
     (case first_where (\<lambda>s. ps_matter s = m \<and> ps_id s = i) (w_steps db) of
        None \<Rightarrow> refuse StepNotOnMatter
      | Some s \<Rightarrow>
          ensure (ps_operation s = operation) StepWrongOperation
            (ensure (step_open s) StepNotOpen
              (Inr (s, first_action (\<lambda>a. na_matter a = m \<and> na_step a = Some (ps_id s) \<and> na_status a = Open) db))))"

definition lock_launched_step ::
  "row_id \<Rightarrow> row_id option \<Rightarrow> step_operation \<Rightarrow> work_db \<Rightarrow> (plan_step \<times> next_action option) option result" where
  "lock_launched_step matter step operation db =
     (case step of
        None \<Rightarrow> Inr None
      | Some i \<Rightarrow>
          and_then (lock_open_matter_for_business_write matter db) (\<lambda>m.
          and_then (launched_step (mt_id m) i operation db) (\<lambda>l. Inr (Some l))))"

definition fulfil_launched_step ::
  "instant \<Rightarrow> plan_step \<times> next_action option \<Rightarrow> row_id \<Rightarrow> row_id option \<Rightarrow> work_db
     \<Rightarrow> (plan_step \<times> work_db) result" where
  "fulfil_launched_step now launched record_id actor db =
     (case first_where (\<lambda>s. ps_id s = ps_id (fst launched)) (w_steps db) of
        None \<Rightarrow> Inl DoesNotExist
      | Some s \<Rightarrow>
          (let finished_here = (ps_state s \<noteq> StepCompleted);
               s = (if finished_here
                    then s\<lparr>ps_state := StepCompleted, ps_completed_at := Some now, ps_completed_by := actor,
                           ps_skipped_at := None, ps_skipped_by := None\<rparr> else s);
               s = s\<lparr>ps_fulfilled_by_operation := Some (ps_operation s), ps_fulfilled_by_record := Some record_id,
                     ps_updated_at := now\<rparr>
           in and_then (save_step s db) (\<lambda>db.
              let db = (if finished_here
                    then record_change_event now PLAN_STEP_COMPLETED (Some (ps_matter s)) actor (Some (ps_id s))
                      (take 200 (ps_title s)) [(''record'', PId record_id), (''operation'', POperation (ps_operation s))] db
                    else db)
              in case snd launched of
                   None \<Rightarrow> Inr (s, db)
                 | Some a \<Rightarrow>
                     (case first_action (\<lambda>r. na_id r = na_id a) db of
                        None \<Rightarrow> Inr (s, db)
                      | Some r \<Rightarrow>
                          if na_status r = Open
                          then and_then (complete_next_action now actor True (na_id r) db) (\<lambda>(_, db). Inr (s, db))
                          else Inr (s, db)))))"

end
