(* ===== verification/DateShift.thy ===== *)
theory DateShift
  imports WorkActions
begin

text \<open>
  \<open>src/app/matters/date_shift.py\<close>, moving a task's day by a day, a week or a month, with the two
  acts of \<open>src/app/matters/workspace.py\<close> on a matter's step that write nothing but the step; and
  \<open>src/app/matters/date_order.py\<close>.
\<close>

section \<open>Acts on the current step\<close>

definition named_open_action :: "row_id \<Rightarrow> row_id \<Rightarrow> work_db \<Rightarrow> next_action result" where
  "named_open_action matter i db =
     (case current_next_action matter db of
        None \<Rightarrow> refuse StaleAction
      | Some a \<Rightarrow> ensure (na_id a = i) StaleAction (ensure (na_follow_up a = None) FollowUpHasItsOwnForm (Inr a)))"

definition change_current_action ::
  "instant \<Rightarrow> row_id \<Rightarrow> row_id \<Rightarrow> step_request \<Rightarrow> work_db \<Rightarrow> (next_action \<times> work_db) result" where
  "change_current_action now matter i step db =
     and_then (lock_open_matter_for_business_write matter db) (\<lambda>m.
     and_then (named_open_action (mt_id m) i db) (\<lambda>_.
       set_next_action_for_new_work now (mt_id m)
         (step\<lparr>rq_carry_plan_step := True, rq_carry_override := True\<rparr>) db))"

definition add_unnamed_step ::
  "instant \<Rightarrow> row_id \<Rightarrow> row_id option \<Rightarrow> string \<Rightarrow> date option \<Rightarrow> date_precision \<Rightarrow> row_id option \<Rightarrow> work_db
     \<Rightarrow> (next_action \<times> work_db) result" where
  "add_unnamed_step now matter actor txt target p responsible db =
     and_then (lock_open_matter_for_business_write matter db) (\<lambda>m.
     if current_next_action (mt_id m) db = None then
       set_next_action_for_new_work now (mt_id m)
         ((plain_request txt target actor)\<lparr>rq_precision := p, rq_responsible := responsible\<rparr>) db
     else ensure (target \<noteq> None) StaleAction
       (add_planned_action now (mt_id m) (Some txt) target actor responsible p db))"

section \<open>Moving a day\<close>

datatype shift = Paev | Nadal | Kuu

definition shift_keys :: "string list" where
  "shift_keys = [''paev'', ''nadal'', ''kuu'']"

definition move_of :: "string \<Rightarrow> shift option" where
  \<comment> \<open>the table \<open>SHIFTS\<close>\<close>
  "move_of key = map_of (zip shift_keys [Paev, Nadal, Kuu]) key"

fun move :: "shift \<Rightarrow> date \<Rightarrow> date_error + date" where
  "move Paev d = date_plus d 1"
| "move Nadal d = date_plus d 7"
| "move Kuu d = add_months d 1"

definition shifted :: "date \<Rightarrow> string \<Rightarrow> date result" where
  "shifted d key =
     (case move_of key of
        None \<Rightarrow> refuse UnknownShift
      | Some s \<Rightarrow> (case move s d of Inl e \<Rightarrow> refuse (Raised e) | Inr e \<Rightarrow> Inr e))"

definition is_shiftable :: "next_action \<Rightarrow> work_db \<Rightarrow> bool" where
  "is_shiftable a db \<longleftrightarrow>
     is_active a \<and> na_kind a = DO \<and> na_semantics a = DEADLINE \<and> na_precision a = EXACT \<and> na_date a \<noteq> None
     \<and> na_follow_up a = None
     \<and> is_assignable_business_user (case na_responsible a of None \<Rightarrow> None | Some u \<Rightarrow> user_of db u)
     \<and> (case first_where (\<lambda>m. mt_id m = na_matter a) (w_matters db) of None \<Rightarrow> False | Some m \<Rightarrow> mt_open m)"

fun choices_from :: "string list \<Rightarrow> date \<Rightarrow> (string \<times> date) list result" where
  "choices_from [] d = Inr []"
| "choices_from (key # keys) d =
     and_then (shifted d key) (\<lambda>e. and_then (choices_from keys d) (\<lambda>rest. Inr ((key, e) # rest)))"

definition choices :: "date \<Rightarrow> (string \<times> date) list result" where
  "choices d = choices_from shift_keys d"

record shift_result =
  sr_old_date :: date
  sr_new_date :: date
  sr_action :: next_action

definition shift_action_date ::
  "instant \<Rightarrow> row_id \<Rightarrow> row_id \<Rightarrow> row_id option \<Rightarrow> string \<Rightarrow> date \<Rightarrow> date option \<Rightarrow> work_db
     \<Rightarrow> (shift_result \<times> work_db) result" where
  "shift_action_date now matter i actor key source proposed db =
     ensure (key \<in> set shift_keys) UnknownShift
    (case lock_open_matter_for_business_write matter db of
       Inl (Refused _) \<Rightarrow> refuse ShiftStale
     | Inl e \<Rightarrow> Inl e
     | Inr m \<Rightarrow>
        (case first_action (\<lambda>a. na_matter a = mt_id m \<and> na_id a = i) db of
           None \<Rightarrow> refuse ShiftStale
         | Some a \<Rightarrow>
            ensure (is_active a) ShiftStale
           (ensure (na_date a = Some source) ShiftStale
           (ensure (is_shiftable a db) ShiftNotEligible
           (and_then (shifted source key) (\<lambda>new.
            ensure (case proposed of None \<Rightarrow> True | Some d \<Rightarrow> d = new) ShiftStale
           (and_then
             (if na_status a = Open then
                change_current_action now (mt_id m) (na_id a)
                  ((plain_request (na_text a) (Some new) actor)
                    \<lparr>rq_kind := Some (na_kind a), rq_semantics := Some (na_semantics a),
                     rq_source_text := na_source_text a, rq_responsible := na_responsible a\<rparr>) db
              else change_planned_action now (mt_id m) (na_id a) (Some (na_text a)) (Some new) actor db)
             (\<lambda>(r, db). Inr (\<lparr>sr_old_date = source, sr_new_date = new, sr_action = r\<rparr>, db)))))))))"

section \<open>Two dates against each other\<close>

definition deadline_precedes_received :: "date option \<Rightarrow> date option \<Rightarrow> bool" where
  "deadline_precedes_received received deadline =
     (case (received, deadline) of (Some r, Some d) \<Rightarrow> d < r | _ \<Rightarrow> False)"

definition confirm_field :: string where
  "confirm_field = ''kinnita_kuupaevad''"

definition confirmed :: "(string \<Rightarrow> string) \<Rightarrow> (string \<rightharpoonup> string) option \<Rightarrow> bool" where
  \<comment> \<open>the first argument is \<open>str.lower\<close>\<close>
  "confirmed lower data =
     (let v = (case data of None \<Rightarrow> None | Some m \<Rightarrow> m confirm_field)
      in lower (strip (case v of None \<Rightarrow> [] | Some s \<Rightarrow> s)) \<in> {''1'', ''on'', ''true'', ''jah''})"

end
