(* ===== verification/WorkInvariant.thy ===== *)
theory WorkInvariant
  imports Closure WorkPlan DateShift
begin

text \<open>
  The invariant of the workflow: a closed matter carries no live action, and the monitoring of an
  opinion goes on exactly while a check of it is live. Inside a transaction both may be broken for
  one matter or one follow-up; \<open>work_inv X F\<close> is the invariant with the matters \<open>X\<close> and the
  follow-ups \<open>F\<close> excepted, so that each statement has one lemma and a service composes them.
\<close>

section \<open>The invariant\<close>

definition live_matters :: "work_db \<Rightarrow> row_id set" where
  "live_matters db = na_matter ` {a \<in> set (w_actions db). is_active a}"

definition open_matters :: "work_db \<Rightarrow> row_id set" where
  "open_matters db = mt_id ` {m \<in> set (w_matters db). mt_open m}"

definition live_checks :: "work_db \<Rightarrow> row_id option set" where
  "live_checks db = na_follow_up ` {a \<in> set (w_actions db). is_active a} - {None}"

definition monitored :: "work_db \<Rightarrow> row_id option set" where
  "monitored db = (\<lambda>f. Some (fu_id f)) ` {f \<in> set (w_follow_ups db). fu_state f = Monitoring}"

definition tables_ok :: "work_db \<Rightarrow> bool" where
  "tables_ok db \<longleftrightarrow>
     actions_ok (w_actions db) \<and> follow_ups_ok (w_follow_ups db)
     \<and> unique_on na_id (w_actions db) \<and> unique_on fu_id (w_follow_ups db) \<and> unique_on mt_id (w_matters db)
     \<and> list_all (\<lambda>a. na_id a < w_next db) (w_actions db) \<and> list_all (\<lambda>f. fu_id f < w_next db) (w_follow_ups db)"

definition work_inv :: "row_id set \<Rightarrow> row_id option set \<Rightarrow> work_db \<Rightarrow> bool" where
  "work_inv X F db \<longleftrightarrow>
     tables_ok db \<and> live_matters db - X \<subseteq> open_matters db \<and> live_checks db - F = monitored db - F"

abbreviation workflow_inv :: "work_db \<Rightarrow> bool" where
  "workflow_inv db \<equiv> work_inv {} {} db"

lemma work_inv_mono: "work_inv X F db \<Longrightarrow> X \<subseteq> X' \<Longrightarrow> F \<subseteq> F' \<Longrightarrow> work_inv X' F' db"
  unfolding work_inv_def by blast

lemma in_image_where: "c \<in> f ` {a \<in> S. P a} \<longleftrightarrow> (\<exists>a \<in> S. P a \<and> f a = c)"
  by auto

lemma in_live_checks:
  "c \<in> live_checks db \<longleftrightarrow> c \<noteq> None \<and> (\<exists>a \<in> set (w_actions db). is_active a \<and> na_follow_up a = c)"
  unfolding live_checks_def Diff_iff in_image_where singleton_iff by (rule conj_commute)

lemma in_live_matters: "m \<in> live_matters db \<longleftrightarrow> (\<exists>a \<in> set (w_actions db). is_active a \<and> na_matter a = m)"
  unfolding live_matters_def by (rule in_image_where)

lemma in_monitored: "c \<in> monitored db \<longleftrightarrow> (\<exists>f \<in> set (w_follow_ups db). fu_state f = Monitoring \<and> Some (fu_id f) = c)"
  unfolding monitored_def by (rule in_image_where)

lemma tables_fresh: "tables_ok db \<Longrightarrow> a \<in> set (w_actions db) \<Longrightarrow> na_id a < w_next db"
  "tables_ok db \<Longrightarrow> f \<in> set (w_follow_ups db) \<Longrightarrow> fu_id f < w_next db"
  by (auto simp: tables_ok_def list_all_iff)

section \<open>Statements\<close>

lemma first_action_Some: "first_action p db = Some a \<Longrightarrow> a \<in> set (w_actions db) \<and> p a"
  by (auto simp: first_action_def)

lemma record_change_event_tables [simp]:
  "w_users (record_change_event now t m actor obj s pl db) = w_users db"
  "w_matters (record_change_event now t m actor obj s pl db) = w_matters db"
  "w_actions (record_change_event now t m actor obj s pl db) = w_actions db"
  "w_steps (record_change_event now t m actor obj s pl db) = w_steps db"
  "w_follow_ups (record_change_event now t m actor obj s pl db) = w_follow_ups db"
  "w_submissions (record_change_event now t m actor obj s pl db) = w_submissions db"
  "w_overviews (record_change_event now t m actor obj s pl db) = w_overviews db"
  "w_engagements (record_change_event now t m actor obj s pl db) = w_engagements db"
  "w_episodes (record_change_event now t m actor obj s pl db) = w_episodes db"
  "w_next (record_change_event now t m actor obj s pl db) = w_next db"
  by (simp_all add: record_change_event_def)

lemma work_inv_cong:
  "w_matters db' = w_matters db \<Longrightarrow> w_actions db' = w_actions db \<Longrightarrow> w_follow_ups db' = w_follow_ups db
     \<Longrightarrow> w_next db \<le> w_next db' \<Longrightarrow> work_inv X F db \<Longrightarrow> work_inv X F db'"
  by (auto simp: work_inv_def tables_ok_def live_matters_def open_matters_def live_checks_def monitored_def
    list_all_iff)

lemma record_change_event_inv [simp]:
  "work_inv X F (record_change_event now t m actor obj s pl db) = work_inv X F db"
  by (auto intro: work_inv_cong [rotated 4])

lemma store_actions_Inr: "store_actions rows db = Inr db' \<longleftrightarrow> actions_ok rows \<and> db' = db\<lparr>w_actions := rows\<rparr>"
  by (auto simp: store_actions_def)

lemma store_follow_ups_Inr:
  "store_follow_ups rows db = Inr db' \<longleftrightarrow> follow_ups_ok rows \<and> db' = db\<lparr>w_follow_ups := rows\<rparr>"
  by (auto simp: store_follow_ups_def)

lemma store_steps_Inr: "store_steps rows db = Inr db' \<longleftrightarrow> steps_ok rows \<and> db' = db\<lparr>w_steps := rows\<rparr>"
  by (auto simp: store_steps_def)

lemma store_episodes_Inr:
  "store_episodes rows db = Inr db' \<longleftrightarrow> episodes_ok rows \<and> db' = db\<lparr>w_episodes := rows\<rparr>"
  by (auto simp: store_episodes_def)

lemma in_saved:
  "unique_on k rows \<Longrightarrow> old \<in> set rows \<Longrightarrow> k old = k new \<Longrightarrow>
     set (update_where (\<lambda>r. k r = k new) (\<lambda>_. new) rows) = insert new (set rows - {old})"
  for k :: "'a \<Rightarrow> 'k"
proof -
  assume u: "unique_on k rows" and old: "old \<in> set rows" "k old = k new"
  have same: "r = old" if "r \<in> set rows" "k r = k new" for r
    using unique_onD [OF u that(1) old(1)] that(2) old(2) by simp
  show ?thesis
  proof (intro set_eqI iffI)
    fix r assume "r \<in> set (update_where (\<lambda>r. k r = k new) (\<lambda>_. new) rows)"
    then obtain s where "s \<in> set rows" "r = (if k s = k new then new else s)" by (auto simp: in_update_where)
    then show "r \<in> insert new (set rows - {old})" using old(2) by (auto split: if_splits)
  next
    fix r assume "r \<in> insert new (set rows - {old})"
    then have "r = new \<or> r \<in> set rows \<and> k r \<noteq> k new" using same by blast
    then show "r \<in> set (update_where (\<lambda>r. k r = k new) (\<lambda>_. new) rows)"
      using old by (auto simp: in_update_where)
  qed
qed

lemma save_action_rows:
  assumes "save_action a db = Inr db'" and "tables_ok db" and "old \<in> set (w_actions db)" and "na_id old = na_id a"
  shows "set (w_actions db') = insert a (set (w_actions db) - {old})" and "tables_ok db'"
    and "w_matters db' = w_matters db" and "w_follow_ups db' = w_follow_ups db" and "w_next db' = w_next db"
    and "w_users db' = w_users db" and "w_submissions db' = w_submissions db" and "w_steps db' = w_steps db"
    and "w_overviews db' = w_overviews db" and "w_engagements db' = w_engagements db"
proof -
  let ?rows = "update_where (\<lambda>r. na_id r = na_id a) (\<lambda>_. a) (w_actions db)"
  have db': "actions_ok ?rows" "db' = db\<lparr>w_actions := ?rows\<rparr>"
    using assms(1) by (simp_all add: save_action_def store_actions_Inr)
  have u: "unique_on na_id (w_actions db)" using assms(2) by (simp add: tables_ok_def)
  have rows: "set ?rows = insert a (set (w_actions db) - {old})" by (rule in_saved [OF u assms(3,4)])
  then show "set (w_actions db') = insert a (set (w_actions db) - {old})" by (simp add: db'(2))
  have "unique_on na_id ?rows" using u by (subst unique_on_update) simp_all
  moreover have "list_all (\<lambda>a. na_id a < w_next db) ?rows"
    using assms(2-4) by (auto simp: list_all_iff rows tables_ok_def)
  ultimately show "tables_ok db'" using assms(2) db' by (simp add: tables_ok_def)
qed (use assms(1) in \<open>auto simp: save_action_def store_actions_Inr\<close>)

lemma create_action_rows:
  assumes "create_action a db = Inr (row, db')" and "tables_ok db"
  shows "row = a\<lparr>na_id := w_next db\<rparr>" and "set (w_actions db') = insert row (set (w_actions db))"
    and "tables_ok db'" and "w_matters db' = w_matters db" and "w_follow_ups db' = w_follow_ups db"
    and "w_users db' = w_users db" and "w_submissions db' = w_submissions db" and "w_steps db' = w_steps db"
    and "w_overviews db' = w_overviews db" and "w_engagements db' = w_engagements db"
proof -
  let ?row = "a\<lparr>na_id := w_next db\<rparr>"
  have ok: "actions_ok (w_actions db @ [?row])" and "row = ?row"
      and db': "db' = db\<lparr>w_next := Suc (w_next db), w_actions := w_actions db @ [?row]\<rparr>"
    using assms(1) by (auto simp: create_action_def Let_def and_then_eq_Inr store_actions_Inr)
  then show "row = ?row" and "set (w_actions db') = insert row (set (w_actions db))" by auto
  show "tables_ok db'"
    using assms(2) ok tables_fresh [OF assms(2)]
    by (fastforce simp: db' tables_ok_def list_all_iff row_simps less_Suc_eq)
qed (use assms(1) in \<open>auto simp: create_action_def Let_def and_then_eq_Inr store_actions_Inr\<close>)

lemma save_follow_up_rows:
  assumes "save_follow_up f db = Inr db'" and "tables_ok db" and "old \<in> set (w_follow_ups db)" and "fu_id old = fu_id f"
  shows "set (w_follow_ups db') = insert f (set (w_follow_ups db) - {old})" and "tables_ok db'"
    and "w_matters db' = w_matters db" and "w_actions db' = w_actions db" and "w_next db' = w_next db"
    and "w_users db' = w_users db" and "w_submissions db' = w_submissions db"
    and "w_overviews db' = w_overviews db" and "w_engagements db' = w_engagements db"
proof -
  let ?rows = "update_where (\<lambda>r. fu_id r = fu_id f) (\<lambda>_. f) (w_follow_ups db)"
  have db': "follow_ups_ok ?rows" "db' = db\<lparr>w_follow_ups := ?rows\<rparr>"
    using assms(1) by (simp_all add: save_follow_up_def store_follow_ups_Inr)
  have u: "unique_on fu_id (w_follow_ups db)" using assms(2) by (simp add: tables_ok_def)
  have rows: "set ?rows = insert f (set (w_follow_ups db) - {old})" by (rule in_saved [OF u assms(3,4)])
  then show "set (w_follow_ups db') = insert f (set (w_follow_ups db) - {old})" by (simp add: db'(2))
  have "unique_on fu_id ?rows" using u by (subst unique_on_update) simp_all
  moreover have "list_all (\<lambda>a. fu_id a < w_next db) ?rows"
    using assms(2-4) by (auto simp: list_all_iff rows tables_ok_def)
  ultimately show "tables_ok db'" using assms(2) db' by (simp add: tables_ok_def)
qed (use assms(1) in \<open>auto simp: save_follow_up_def store_follow_ups_Inr\<close>)

lemma create_follow_up_rows:
  assumes "create_follow_up f db = Inr (row, db')" and "tables_ok db"
  shows "row = f\<lparr>fu_id := w_next db\<rparr>" and "set (w_follow_ups db') = insert row (set (w_follow_ups db))"
    and "tables_ok db'" and "w_matters db' = w_matters db" and "w_actions db' = w_actions db"
    and "w_submissions db' = w_submissions db" and "w_users db' = w_users db"
proof -
  let ?row = "f\<lparr>fu_id := w_next db\<rparr>"
  have ok: "follow_ups_ok (w_follow_ups db @ [?row])" and "row = ?row"
      and db': "db' = db\<lparr>w_next := Suc (w_next db), w_follow_ups := w_follow_ups db @ [?row]\<rparr>"
    using assms(1) by (auto simp: create_follow_up_def Let_def and_then_eq_Inr store_follow_ups_Inr)
  then show "row = ?row" and "set (w_follow_ups db') = insert row (set (w_follow_ups db))" by auto
  show "tables_ok db'"
    using assms(2) ok tables_fresh [OF assms(2)]
    by (fastforce simp: db' tables_ok_def list_all_iff row_simps less_Suc_eq)
qed (use assms(1) in \<open>auto simp: create_follow_up_def Let_def and_then_eq_Inr store_follow_ups_Inr\<close>)

text \<open>A row saved in place: it stays at its matter and its follow-up, and never becomes live.\<close>

lemma live_matters_saved:
  assumes rows: "set (w_actions db') = insert a (set (w_actions db) - {old})" and old: "old \<in> set (w_actions db)"
    and same: "na_matter a = na_matter old" and live: "is_active a \<Longrightarrow> is_active old"
  shows "live_matters db' \<subseteq> live_matters db"
proof
  fix m assume "m \<in> live_matters db'"
  then obtain b where b: "b = a \<or> b \<in> set (w_actions db)" "is_active b" "na_matter b = m"
    by (auto simp: in_live_matters rows)
  then have "\<exists>r \<in> set (w_actions db). is_active r \<and> na_matter r = m"
    using old same live by metis
  then show "m \<in> live_matters db" by (simp add: in_live_matters)
qed

lemma save_action_inv:
  assumes "save_action a db = Inr db'" and inv: "work_inv X F db" and old: "old \<in> set (w_actions db)" "na_id old = na_id a"
    and same: "na_matter a = na_matter old" "na_follow_up a = na_follow_up old"
    and live: "is_active a \<Longrightarrow> is_active old"
    and check: "is_active a = is_active old \<or> na_follow_up a = None \<or> na_follow_up a \<in> F"
  shows "work_inv X F db'"
proof -
  have t: "tables_ok db" using inv by (simp add: work_inv_def)
  note rows = save_action_rows [OF assms(1) t old]
  have "live_matters db' \<subseteq> live_matters db"
    by (rule live_matters_saved [OF rows(1) old(1) same(1) live])
  moreover have "c \<in> live_checks db' \<longleftrightarrow> c \<in> live_checks db" if "c \<notin> F" for c
  proof -
    have "(is_active a \<and> na_follow_up a = c) = (is_active old \<and> na_follow_up old = c)" if "c \<noteq> None"
      using check same(2) that \<open>c \<notin> F\<close> by auto
    then show ?thesis using old(1) unfolding in_live_checks rows(1) by blast
  qed
  then have "live_checks db' - F = live_checks db - F" by blast
  ultimately show ?thesis
    using inv rows(2-5) by (auto simp: work_inv_def open_matters_def monitored_def)
qed

lemma create_action_inv:
  assumes "create_action a db = Inr (row, db')" and inv: "work_inv X F db"
    and "is_active a \<Longrightarrow> na_matter a \<in> open_matters db \<union> X"
    and "is_active a \<Longrightarrow> na_follow_up a \<noteq> None \<Longrightarrow> na_follow_up a \<in> F"
  shows "work_inv X F db'"
proof -
  have t: "tables_ok db" using inv by (simp add: work_inv_def)
  note rows = create_action_rows [OF assms(1) t]
  have row: "na_matter row = na_matter a" "na_follow_up row = na_follow_up a" "is_active row = is_active a"
    by (simp_all add: rows(1) is_active_def)
  have "live_matters db' - X \<subseteq> live_matters db \<union> open_matters db - X \<union> open_matters db"
    using assms(3) row by (auto simp: in_live_matters rows(2))
  moreover have "live_checks db' - F = live_checks db - F"
    using assms(4) row unfolding set_eq_iff Diff_iff in_live_checks rows(2) by (metis insert_iff)
  moreover have "open_matters db' = open_matters db" by (simp add: open_matters_def rows(4))
  moreover have "monitored db' = monitored db" by (simp add: monitored_def rows(5))
  moreover have "live_matters db - X \<subseteq> open_matters db" using inv by (simp add: work_inv_def)
  moreover have "live_checks db - F = monitored db - F" using inv by (simp add: work_inv_def)
  ultimately show ?thesis using rows(3) by (auto simp: work_inv_def)
qed

end
