(* ===== verification/WorkServices.thy ===== *)
theory WorkServices
  imports WorkInvariant
begin

text \<open>
  Every service of the workflow keeps its invariant. \<open>yields m P\<close> says that \<open>m\<close> answers only what
  satisfies \<open>P\<close>; its rules follow the shape of a service, one per way of composing statements.
  \<open>keeps X F db db'\<close> is the invariant after a service, with the tables it never touches.
\<close>

section \<open>Results\<close>

definition yields :: "'a result \<Rightarrow> ('a \<Rightarrow> bool) \<Rightarrow> bool" where
  "yields m P \<longleftrightarrow> (\<forall>a. m = Inr a \<longrightarrow> P a)"

lemma yieldsI: "(\<And>a. m = Inr a \<Longrightarrow> P a) \<Longrightarrow> yields m P"
  by (simp add: yields_def)

lemma yieldsD: "yields m P \<Longrightarrow> m = Inr a \<Longrightarrow> P a"
  by (simp add: yields_def)

lemma yields_simps [simp]:
  "yields (refuse r) P" "yields (Inl e) P" "yields (Inr a) P \<longleftrightarrow> P a"
  by (simp_all add: yields_def refuse_def)

lemma yields_ensure [intro]: "(c \<Longrightarrow> yields k P) \<Longrightarrow> yields (ensure c r k) P"
  by (simp add: ensure_def)

lemma yields_then:
  "yields m Q \<Longrightarrow> (\<And>a. m = Inr a \<Longrightarrow> Q a \<Longrightarrow> yields (f a) P) \<Longrightarrow> yields (and_then m f) P"
  by (auto simp: yields_def and_then_eq_Inr)

lemma yields_then2:
  assumes "yields m (\<lambda>(a, s). Q a s)" and "\<And>a s. m = Inr (a, s) \<Longrightarrow> Q a s \<Longrightarrow> yields (f a s) P"
  shows "yields (and_then m (\<lambda>(a, s). f a s)) P"
  using assms by (force simp: yields_def and_then_eq_Inr)

lemma yields_then3:
  assumes "yields m (\<lambda>(a, b, s). Q a b s)" and "\<And>a b s. m = Inr (a, b, s) \<Longrightarrow> Q a b s \<Longrightarrow> yields (f a b s) P"
  shows "yields (and_then m (\<lambda>(a, b, s). f a b s)) P"
  using assms by (force simp: yields_def and_then_eq_Inr)

lemma yields_seq: "(\<And>a. m = Inr a \<Longrightarrow> yields (f a) P) \<Longrightarrow> yields (and_then m f) P"
  by (auto simp: yields_def and_then_eq_Inr)

lemma yields_mono: "yields m Q \<Longrightarrow> (\<And>a. Q a \<Longrightarrow> P a) \<Longrightarrow> yields m P"
  by (simp add: yields_def)

lemma yields_if: "(c \<Longrightarrow> yields a P) \<Longrightarrow> (\<not> c \<Longrightarrow> yields b P) \<Longrightarrow> yields (if c then a else b) P"
  by simp

lemma yields_option:
  "(x = None \<Longrightarrow> yields n P) \<Longrightarrow> (\<And>y. x = Some y \<Longrightarrow> yields (s y) P) \<Longrightarrow>
     yields (case x of None \<Rightarrow> n | Some y \<Rightarrow> s y) P"
  by (cases x) simp_all

lemma yields_pair: "(\<And>a b. p = (a, b) \<Longrightarrow> yields (f a b) P) \<Longrightarrow> yields (case p of (a, b) \<Rightarrow> f a b) P"
  by (cases p) simp

section \<open>What a service leaves alone\<close>

definition ended_rows :: "work_db \<Rightarrow> next_action set" where
  "ended_rows db = {r \<in> set (w_actions db). \<not> is_active r}"

definition beside :: "work_db \<Rightarrow> work_db \<Rightarrow> bool" where
  "beside db db' \<longleftrightarrow>
     w_matters db' = w_matters db \<and> w_users db' = w_users db \<and> w_submissions db' = w_submissions db
     \<and> w_overviews db' = w_overviews db \<and> w_engagements db' = w_engagements db
     \<and> w_episodes db' = w_episodes db \<and> w_next db \<le> w_next db'
     \<and> ended_rows db \<subseteq> set (w_actions db')"

lemma beside_refl [simp]: "beside db db"
  by (auto simp: beside_def ended_rows_def)

lemma beside_trans: "beside db db1 \<Longrightarrow> beside db1 db2 \<Longrightarrow> beside db db2"
  by (auto simp: beside_def ended_rows_def)

lemma beside_event [simp]:
  "beside db (record_change_event now t m actor obj s pl db') = beside db db'"
  "beside (record_change_event now t m actor obj s pl db) db' = beside db db'"
  by (simp_all add: beside_def ended_rows_def)

definition keeps :: "row_id set \<Rightarrow> row_id option set \<Rightarrow> work_db \<Rightarrow> work_db \<Rightarrow> bool" where
  "keeps X F db db' \<longleftrightarrow> work_inv X F db' \<and> beside db db'"

lemma keeps_refl [simp]: "keeps X F db db = work_inv X F db"
  by (simp add: keeps_def)

lemma keeps_inv [dest]: "keeps X F db db' \<Longrightarrow> work_inv X F db'"
  by (simp add: keeps_def)

lemma keeps_trans: "beside db db1 \<Longrightarrow> keeps X F db1 db2 \<Longrightarrow> keeps X F db db2"
  by (auto simp: keeps_def intro: beside_trans)

lemma keeps_beside: "keeps X F db db' \<Longrightarrow> beside db db'"
  by (simp add: keeps_def)

lemma keeps_event [simp]:
  "keeps X F db (record_change_event now t m actor obj s pl db') = keeps X F db db'"
  by (simp add: keeps_def)

lemma keeps_after_event [simp]:
  "keeps X F (record_change_event now t m actor obj s pl db) db' = keeps X F db db'"
  by (simp add: keeps_def)

lemma event_sets [simp]:
  "open_matters (record_change_event now t m actor obj s pl db) = open_matters db"
  "monitored (record_change_event now t m actor obj s pl db) = monitored db"
  "live_checks (record_change_event now t m actor obj s pl db) = live_checks db"
  "live_matters (record_change_event now t m actor obj s pl db) = live_matters db"
  by (simp_all add: open_matters_def monitored_def live_checks_def live_matters_def)

lemma beside_open: "beside db db' \<Longrightarrow> open_matters db' = open_matters db"
  by (simp add: beside_def open_matters_def)

lemma work_inv_None [simp]: "work_inv X (insert None F) db = work_inv X F db"
proof -
  have "live_checks db - insert None F = live_checks db - F" "monitored db - insert None F = monitored db - F"
    by (auto simp: live_checks_def monitored_def)
  then show ?thesis by (simp add: work_inv_def)
qed

lemma work_inv_settled:
  assumes "work_inv X (insert c F) db" and "c \<in> live_checks db \<longleftrightarrow> c \<in> monitored db"
  shows "work_inv X F db"
  using assms unfolding work_inv_def by blast

lemma one_live_check:
  assumes "tables_ok db" and "a \<in> set (w_actions db)" "b \<in> set (w_actions db)" and "is_active a" "is_active b"
    and "na_follow_up a = na_follow_up b" "na_follow_up b \<noteq> None"
  shows "a = b"
proof (rule unique_whenD)
  show "unique_when (\<lambda>a. is_active a \<and> na_follow_up a \<noteq> None) na_follow_up (w_actions db)"
    using assms(1) by (simp add: tables_ok_def actions_ok_def)
qed (use assms in simp_all)

lemma one_open:
  assumes "tables_ok db" and "a \<in> set (w_actions db)" "b \<in> set (w_actions db)"
    and "na_status a = Open" "na_status b = Open" and "na_matter a = na_matter b"
  shows "a = b"
proof (rule unique_whenD)
  show "unique_when (\<lambda>a. na_status a = Open) na_matter (w_actions db)"
    using assms(1) by (simp add: tables_ok_def actions_ok_def)
qed (use assms in simp_all)

lemma same_action: "tables_ok db \<Longrightarrow> a \<in> set (w_actions db) \<Longrightarrow> b \<in> set (w_actions db) \<Longrightarrow> na_id a = na_id b \<Longrightarrow> a = b"
  by (rule unique_onD [of na_id "w_actions db"]) (simp_all add: tables_ok_def)

lemma inv_tables: "work_inv X F db \<Longrightarrow> tables_ok db"
  by (simp add: work_inv_def)

section \<open>Statements\<close>

lemma save_action_keeps:
  assumes "work_inv X F db" and old: "old \<in> set (w_actions db)" "na_id old = na_id a"
    and "na_matter a = na_matter old" "na_follow_up a = na_follow_up old"
    and "is_active old" and "is_active a = is_active old \<or> na_follow_up a = None \<or> na_follow_up a \<in> F"
  shows "yields (save_action a db) (keeps X F db)"
proof (rule yieldsI)
  fix db' assume s: "save_action a db = Inr db'"
  then have "w_episodes db' = w_episodes db \<and> w_next db' = w_next db" by (auto simp: save_action_def store_actions_Inr)
  moreover note rows = save_action_rows [OF s inv_tables [OF assms(1)] old]
  moreover have "ended_rows db \<subseteq> set (w_actions db')" using assms(6) unfolding rows(1) by (auto simp: ended_rows_def)
  ultimately show "keeps X F db db'"
    using save_action_inv [OF s assms(1-5) _ assms(7)] assms(6) by (simp add: keeps_def beside_def)
qed

lemma save_ended_keeps:
  assumes inv: "work_inv X F db" and old: "old \<in> set (w_actions db)" "is_active old"
    and a: "na_id old = na_id a" "na_matter a = na_matter old" "na_follow_up a = na_follow_up old" "\<not> is_active a"
  shows "yields (save_action a db) (\<lambda>db'. keeps X (insert (na_follow_up old) F) db db' \<and> na_follow_up old \<notin> live_checks db'
           \<and> w_follow_ups db' = w_follow_ups db)"
proof (rule yieldsI)
  fix db' assume s: "save_action a db = Inr db'"
  have inv': "work_inv X (insert (na_follow_up old) F) db" by (rule work_inv_mono [OF inv]) auto
  have t: "tables_ok db" using inv by (simp add: work_inv_def)
  have "yields (save_action a db) (keeps X (insert (na_follow_up old) F) db)"
    by (rule save_action_keeps [OF inv' old(1) a(1-3) old(2)]) (simp add: a(3))
  then have "keeps X (insert (na_follow_up old) F) db db'" using s by (rule yieldsD)
  moreover have "na_follow_up old \<notin> live_checks db'"
  proof
    assume "na_follow_up old \<in> live_checks db'"
    then obtain b where b: "b \<in> set (w_actions db')" "is_active b" "na_follow_up b = na_follow_up old" "na_follow_up old \<noteq> None"
      by (auto simp: in_live_checks)
    with a(4) have "b \<in> set (w_actions db)" "b \<noteq> old" using save_action_rows(1) [OF s t old(1) a(1)] by auto
    then show False using one_live_check [OF t _ old(1) b(2) old(2) b(3,4)] by blast
  qed
  ultimately show "keeps X (insert (na_follow_up old) F) db db' \<and> na_follow_up old \<notin> live_checks db'
      \<and> w_follow_ups db' = w_follow_ups db"
    using save_action_rows(4) [OF s t old(1) a(1)] by simp
qed

lemma create_action_keeps:
  assumes "work_inv X F db" and "is_active a \<Longrightarrow> na_matter a \<in> open_matters db \<union> X"
    and "is_active a \<Longrightarrow> na_follow_up a \<noteq> None \<Longrightarrow> na_follow_up a \<in> F"
  shows "yields (create_action a db) (\<lambda>(row, db'). keeps X F db db' \<and> row \<in> set (w_actions db')
           \<and> set (w_actions db) \<subseteq> set (w_actions db') \<and> row = a\<lparr>na_id := w_next db\<rparr>
           \<and> w_follow_ups db' = w_follow_ups db)"
proof (rule yieldsI)
  fix r assume s: "create_action a db = Inr r"
  obtain row db' where r: "r = (row, db')" by (cases r)
  have s: "create_action a db = Inr (row, db')" using s r by simp
  have t: "tables_ok db" using assms(1) by (simp add: work_inv_def)
  have "w_episodes db' = w_episodes db \<and> w_next db' = Suc (w_next db)"
    using s by (auto simp: create_action_def Let_def and_then_eq_Inr store_actions_Inr)
  then show "case r of (row, db') \<Rightarrow> keeps X F db db' \<and> row \<in> set (w_actions db')
      \<and> set (w_actions db) \<subseteq> set (w_actions db') \<and> row = a\<lparr>na_id := w_next db\<rparr>
      \<and> w_follow_ups db' = w_follow_ups db"
    using create_action_inv [OF s assms] create_action_rows [OF s t] by (auto simp: r keeps_def beside_def ended_rows_def)
qed


lemma save_follow_up_keeps:
  assumes "work_inv X F db" and "old \<in> set (w_follow_ups db)" "fu_id old = fu_id f"
    and "fu_state f = fu_state old \<or> Some (fu_id f) \<in> F"
  shows "yields (save_follow_up f db) (\<lambda>db'. keeps X F db db' \<and> w_actions db' = w_actions db
           \<and> (Some (fu_id f) \<in> monitored db' \<longleftrightarrow> fu_state f = Monitoring))"
proof (rule yieldsI)
  fix db' assume s: "save_follow_up f db = Inr db'"
  have t: "tables_ok db" using assms(1) by (rule inv_tables)
  note rows = save_follow_up_rows [OF s t assms(2,3)]
  have u: "unique_on fu_id (w_follow_ups db)" using t by (simp add: tables_ok_def)
  have only: "g = old" if "g \<in> set (w_follow_ups db)" "fu_id g = fu_id f" for g
    using unique_onD [OF u that(1) assms(2)] that(2) assms(3) by simp
  have at_f: "Some (fu_id f) \<in> monitored db' \<longleftrightarrow> fu_state f = Monitoring"
    unfolding in_monitored rows(1) option.inject using only by blast
  have "c \<in> monitored db' \<longleftrightarrow> c \<in> monitored db" if "c \<notin> F" for c
  proof (cases "c = Some (fu_id f)")
    case True
    then have "fu_state f = fu_state old" using assms(4) that by blast
    moreover have "c \<in> monitored db \<longleftrightarrow> fu_state old = Monitoring"
      unfolding in_monitored True option.inject using only assms(2,3) by metis
    ultimately show ?thesis using at_f True by simp
  next
    case False
    then have "Some (fu_id f) \<noteq> c" "Some (fu_id old) \<noteq> c" using assms(3) by auto
    then show ?thesis unfolding in_monitored rows(1) by blast
  qed
  then have "monitored db' - F = monitored db - F" by blast
  moreover have "live_checks db' = live_checks db" "live_matters db' = live_matters db" "open_matters db' = open_matters db"
    by (simp_all add: live_checks_def live_matters_def open_matters_def rows)
  ultimately have "work_inv X F db'" using assms(1) rows(2) by (simp add: work_inv_def)
  moreover have "beside db db'"
    using s rows by (auto simp: beside_def ended_rows_def save_follow_up_def store_follow_ups_Inr)
  ultimately show "keeps X F db db' \<and> w_actions db' = w_actions db \<and> (Some (fu_id f) \<in> monitored db' \<longleftrightarrow> fu_state f = Monitoring)"
    using at_f rows(4) by (simp add: keeps_def)
qed

lemma create_follow_up_keeps:
  assumes inv: "work_inv X F db"
  shows "yields (create_follow_up f db) (\<lambda>(row, db'). keeps X (insert (Some (fu_id row)) F) db db'
           \<and> w_actions db' = w_actions db \<and> fu_state row = fu_state f \<and> row \<in> set (w_follow_ups db'))"
proof (rule yieldsI)
  fix r assume s: "create_follow_up f db = Inr r"
  obtain row db' where r: "r = (row, db')" by (cases r)
  have s: "create_follow_up f db = Inr (row, db')" using s r by simp
  note rows = create_follow_up_rows [OF s inv_tables [OF inv]]
  have "monitored db' - insert (Some (fu_id row)) F = monitored db - insert (Some (fu_id row)) F"
    by (auto simp: in_monitored rows(2))
  moreover have "live_checks db' = live_checks db" "live_matters db' = live_matters db" "open_matters db' = open_matters db"
    by (simp_all add: live_checks_def live_matters_def open_matters_def rows)
  ultimately have "work_inv X (insert (Some (fu_id row)) F) db'" using inv rows(3) unfolding work_inv_def by auto
  moreover have "beside db db'"
    using s by (auto simp: beside_def ended_rows_def create_follow_up_def Let_def and_then_eq_Inr store_follow_ups_Inr)
  ultimately show "case r of (row, db') \<Rightarrow> keeps X (insert (Some (fu_id row)) F) db db'
      \<and> w_actions db' = w_actions db \<and> fu_state row = fu_state f \<and> row \<in> set (w_follow_ups db')"
    using rows by (simp add: r keeps_def)
qed

lemma save_step_keeps: "work_inv X F db \<Longrightarrow> yields (save_step s db) (keeps X F db)"
  by (rule yieldsI) (auto simp: save_step_def store_steps_Inr keeps_def beside_def ended_rows_def intro: work_inv_cong [rotated 4])

lemma create_step_keeps: "work_inv X F db \<Longrightarrow> yields (create_step s db) (\<lambda>(_, db'). keeps X F db db')"
  by (rule yieldsI) (auto simp: create_step_def Let_def and_then_eq_Inr store_steps_Inr keeps_def beside_def ended_rows_def
    intro: work_inv_cong [rotated 4])

lemma lock_matter_Inr:
  "lock_matter_for_write i db = Inr m \<Longrightarrow> m \<in> set (w_matters db) \<and> mt_id m = i \<and> mt_deleted_at m = None"
  by (auto simp: lock_matter_for_write_def split: option.splits)

lemma lock_open_Inr:
  "lock_open_matter_for_business_write i db = Inr m \<Longrightarrow>
     m \<in> set (w_matters db) \<and> mt_id m = i \<and> mt_deleted_at m = None \<and> mt_open m"
  by (auto simp: lock_open_matter_for_business_write_def and_then_eq_Inr dest: lock_matter_Inr)

lemma open_mattersI: "m \<in> set (w_matters db) \<Longrightarrow> mt_open m \<Longrightarrow> mt_id m \<in> open_matters db"
  by (auto simp: open_matters_def)

lemma new_action_simps [simp]:
  "na_matter (new_action now m txt) = m" "na_follow_up (new_action now m txt) = None"
  "na_status (new_action now m txt) = Open" "na_id (new_action now m txt) = 0"
  by (simp_all add: new_action_def)

section \<open>The current action\<close>

lemma put_previous_away_keeps:
  assumes inv: "work_inv X F db" and prev: "\<And>p. previous = Some p \<Longrightarrow> p \<in> set (w_actions db) \<and> na_status p = Open"
  shows "yields (put_previous_away now actor previous db) (\<lambda>(s, r, db'). keeps X F db db'
           \<and> (\<forall>e. s = Some e \<longrightarrow> e \<in> set (w_actions db') \<and> na_status e = Superseded \<and> na_follow_up e = None
              \<and> (\<exists>p \<in> set (w_actions db). is_active p \<and> na_id p = na_id e)))"
proof (cases previous)
  case (Some p)
  then have p: "p \<in> set (w_actions db)" "na_status p = Open" using prev by auto
  let ?again = "p\<lparr>na_status := Planned\<rparr>" and ?ended = "p\<lparr>na_status := Superseded, na_ended_at := Some now, na_ended_by := actor\<rparr>"
  have "yields (save_action ?again db) (keeps X F db)"
    by (rule save_action_keeps [OF inv p(1)]) (use p in \<open>auto simp: is_active_def\<close>)
  moreover have "yields (save_action ?ended db) (keeps X F db)" if "na_follow_up p = None"
    by (rule save_action_keeps [OF inv p(1)]) (use p that in \<open>auto simp: is_active_def\<close>)
  moreover have "?ended \<in> set (w_actions db')" if "save_action ?ended db = Inr db'" for db'
    using save_action_rows(1) [OF that inv_tables [OF inv] p(1)] by simp
  ultimately show ?thesis
    using Some p by (auto simp: put_previous_away_def Let_def yields_def and_then_eq_Inr is_active_def split: if_splits)
qed (simp add: put_previous_away_def inv)

lemma set_next_action_keeps:
  assumes inv: "work_inv X F db"
  shows "yields (set_next_action now matter rq db) (\<lambda>(a, db'). keeps X F db db')"
  unfolding set_next_action_def Let_def refuse_an_unsupported_precision_def
proof (intro yields_ensure yields_seq [where m = "lock_matter_for_write matter db"], rule yields_then3 [OF put_previous_away_keeps [OF inv]], goal_cases)
  case (1 m p)
  then show ?case by (auto dest: first_action_Some)
next
  case (2 m s r db1)
  then have m: "mt_id m \<in> open_matters db" by (auto dest: lock_matter_Inr intro: open_mattersI)
  have s: "keeps X F db db1 \<and> (\<forall>e. s = Some e \<longrightarrow> e \<in> set (w_actions db1) \<and> na_status e = Superseded \<and> na_follow_up e = None
      \<and> (\<exists>p \<in> set (w_actions db). is_active p \<and> na_id p = na_id e))"
    using 2 by simp
  then have inv1: "work_inv X F db1" and db1: "beside db db1" by (auto simp: keeps_def)
  have open1: "mt_id m \<in> open_matters db1" using m by (simp add: beside_open [OF db1])
  have end_old: "yields (case s of None \<Rightarrow> Inr db2 | Some p \<Rightarrow> save_action (p\<lparr>na_replaced_by := j\<rparr>) db2) (keeps X F db)"
    if k: "keeps X F db1 db2" and sub: "set (w_actions db1) \<subseteq> set (w_actions db2)" for db2 j
  proof (cases s)
    case (Some e)
    then have e: "e \<in> set (w_actions db2)" "na_status e = Superseded" "na_follow_up e = None"
      and p: "\<exists>p \<in> set (w_actions db). is_active p \<and> na_id p = na_id e" using s sub by auto
    have b: "beside db db2" using beside_trans [OF db1 keeps_beside [OF k]] .
    show ?thesis unfolding Some option.case
    proof (rule yieldsI)
      fix db3 assume sv: "save_action (e\<lparr>na_replaced_by := j\<rparr>) db2 = Inr db3"
      note rows = save_action_rows [OF sv inv_tables [OF keeps_inv [OF k]] e(1), simplified]
      have "work_inv X F db3"
        by (rule save_action_inv [OF sv keeps_inv [OF k] e(1)]) (use e in \<open>simp_all add: is_active_def\<close>)
      moreover have "r \<in> set (w_actions db3)" if "r \<in> ended_rows db" for r
      proof -
        have r: "r \<in> set (w_actions db)" "\<not> is_active r" using that by (simp_all add: ended_rows_def)
        then have "r \<noteq> e" using p same_action [OF inv_tables [OF inv]] by metis
        moreover have "r \<in> set (w_actions db2)" using b that by (auto simp: beside_def)
        ultimately show ?thesis unfolding rows(1) by simp
      qed
      moreover have "w_episodes db3 = w_episodes db2" using sv by (auto simp: save_action_def store_actions_Inr)
      ultimately show "keeps X F db db3" using b rows by (auto simp: keeps_def beside_def)
    qed
  qed (use keeps_trans [OF db1 k] in simp)
  show ?case
  proof (rule yields_then2 [OF create_action_keeps [OF inv1]], goal_cases)
    case 1 then show ?case using open1 by simp
  next
    case 2 then show ?case by simp
  next
    case (3 a db2)
    show ?case
    proof (rule yields_then [OF end_old], goal_cases)
      case (3 db3) then show ?case by (simp split: option.splits)
    qed (use 3 in auto)
  qed
qed

lemma set_next_action_for_new_work_keeps:
  assumes "work_inv X F db"
  shows "yields (set_next_action_for_new_work now matter rq db) (\<lambda>(a, db'). keeps X F db db')"
  unfolding set_next_action_for_new_work_def
  by (intro yields_seq set_next_action_keeps [OF assms])

lemma establish_opinion_preparation_action_keeps:
  assumes "work_inv X F db"
  shows "yields (establish_opinion_preparation_action now matter d actor u db) (\<lambda>(a, db'). keeps X F db db')"
  unfolding establish_opinion_preparation_action_def
  by (intro yields_ensure yields_seq yields_option set_next_action_for_new_work_keeps [OF assms])
    (simp add: assms)

lemma lock_for_transition_Inr:
  assumes "lock_for_transition i r db = Inr (a, m)"
  shows "a \<in> set (w_actions db)" and "na_id a = i" and "m \<in> set (w_matters db)" and "mt_id m = na_matter a"
  using assms by (auto simp: lock_for_transition_def split: option.splits sum.splits dest!: first_action_Some lock_matter_Inr)

lemma complete_plan_step_keeps:
  assumes "work_inv X F db"
  shows "yields (complete_plan_step now a s actor db) (keeps X F db)"
  unfolding complete_plan_step_def
  by (intro yields_option yields_if yields_then [OF save_step_keeps [OF assms]]) (simp_all add: assms)

lemma planned_in_order_set:
  "a \<in> set (planned_in_order m db) \<longleftrightarrow> a \<in> set (w_actions db) \<and> na_matter a = m \<and> na_status a = Planned"
  by (auto simp: planned_in_order_def)

lemma promote_next_planned_action_keeps:
  assumes inv: "work_inv X F db"
  shows "yields (promote_next_planned_action now m actor db) (\<lambda>(a, db'). keeps X F db db')"
  unfolding promote_next_planned_action_def Let_def
proof (intro yields_if, goal_cases)
  case 2
  show ?case
  proof (cases "planned_in_order m db")
    case (Cons a as)
    then have "a \<in> set (w_actions db)" "na_status a = Planned"
      using planned_in_order_set [of a m db] by auto
    then have save: "yields (save_action (a\<lparr>na_status := Open\<rparr>) db) (keeps X F db)"
      using inv by (intro save_action_keeps [of X F db a]) (auto simp: is_active_def)
    show ?thesis unfolding Cons list.case by (rule yields_then [OF save]) simp
  qed (simp add: inv)
qed (simp add: inv)

lemma complete_next_action_keeps:
  assumes inv: "work_inv X F db"
  shows "yields (complete_next_action now actor promote i db) (\<lambda>(a, db'). keeps X F db db')"
  unfolding complete_next_action_def Let_def
proof (rule yields_seq, intro yields_pair yields_ensure, goal_cases)
  case (1 p a m)
  let ?a = "a\<lparr>na_status := Completed, na_ended_at := Some now, na_ended_by := actor\<rparr>"
  have a: "a \<in> set (w_actions db)" using 1 by (auto dest: lock_for_transition_Inr)
  have save: "yields (save_action ?a db) (keeps X F db)"
    by (rule save_action_keeps [OF inv a]) (use 1 in \<open>simp_all add: is_active_def\<close>)
  show ?case
  proof (rule yields_then [OF save], rule yields_then [where Q = "keeps X F db"], goal_cases)
    case (1 db1)
    then show ?case
      by (auto intro!: yields_option yields_mono [OF complete_plan_step_keeps] elim: keeps_trans [OF keeps_beside])
  next
    case (2 db1 db2)
    then show ?case
      by (auto intro!: yields_then2 [OF promote_next_planned_action_keeps] elim: keeps_trans [OF keeps_beside])
  qed
qed

lemma end_follow_up_for_cancelled_check_keeps:
  assumes inv: "work_inv X F db" and "na_follow_up a \<in> F"
  shows "yields (end_follow_up_for_cancelled_check now a actor reason db)
           (\<lambda>db'. keeps X F db db' \<and> w_actions db' = w_actions db \<and> na_follow_up a \<notin> monitored db')"
  unfolding end_follow_up_for_cancelled_check_def
proof (rule yields_option, simp, rule yields_if, goal_cases)
  case (1 f)
  then have f: "f \<in> set (w_follow_ups db)" "Some (fu_id f) = na_follow_up a" by auto
  have "unique_on fu_id (w_follow_ups db)" using inv by (simp add: work_inv_def tables_ok_def)
  then have "g = f" if "g \<in> set (w_follow_ups db)" "fu_id g = fu_id f" for g
    using unique_onD that f(1) by metis
  then have "na_follow_up a \<notin> monitored db" using 1(2) f(2) [symmetric] by (auto simp: in_monitored)
  then show ?case using inv by simp
next
  case (2 f)
  then have f: "f \<in> set (w_follow_ups db)" "Some (fu_id f) = na_follow_up a" by auto
  show ?case
    by (rule yields_mono [OF save_follow_up_keeps [OF inv f(1)]]) (use f(2) assms(2) in auto)
qed


lemma cancel_next_action_keeps:
  assumes inv: "work_inv X F db"
  shows "yields (cancel_next_action now actor reason pv i db)
           (\<lambda>(a, db'). keeps X F db db' \<and> (\<exists>old \<in> set (w_actions db). na_id old = i \<and> is_active old
              \<and> set (w_actions db') = insert a (set (w_actions db) - {old}) \<and> \<not> is_active a))"
  unfolding cancel_next_action_def Let_def
proof (rule yields_seq, intro yields_pair yields_ensure, goal_cases)
  case (1 p a m)
  let ?a = "a\<lparr>na_status := Cancelled, na_ended_at := Some now, na_ended_by := actor\<rparr>"
  have a: "a \<in> set (w_actions db)" "na_id a = i" using 1 by (auto dest: lock_for_transition_Inr)
  have ended: "\<not> is_active ?a" by (simp add: is_active_def)
  have save: "yields (save_action ?a db) (\<lambda>db'. keeps X (insert (na_follow_up a) F) db db'
      \<and> na_follow_up a \<notin> live_checks db' \<and> w_follow_ups db' = w_follow_ups db)"
    by (rule save_ended_keeps [OF inv a(1)]) (use 1 ended in simp_all)
  show ?case
  proof (rule yields_then [OF save], rule yields_then [where Q = "\<lambda>db'. keeps X F db db' \<and> set (w_actions db') = insert ?a (set (w_actions db) - {a})"], goal_cases)
    case (1 db1)
    then have inv1: "work_inv X (insert (na_follow_up a) F) db1" and b: "beside db db1" by (auto dest: keeps_beside)
    have dead1: "na_follow_up a \<notin> live_checks db1" using 1 by simp
    have rows: "set (w_actions db1) = insert ?a (set (w_actions db) - {a})"
      by (rule save_action_rows(1) [OF 1(1) inv_tables [OF inv] a(1)]) simp
    show ?case
    proof (rule yields_if, goal_cases)
      case 1
      have "yields (end_follow_up_for_cancelled_check now ?a actor reason db1)
              (\<lambda>db'. keeps X (insert (na_follow_up a) F) db1 db' \<and> w_actions db' = w_actions db1 \<and> na_follow_up a \<notin> monitored db')"
        using end_follow_up_for_cancelled_check_keeps [OF inv1, of ?a] by simp
      then show ?case
      proof (rule yields_mono, goal_cases)
        case (1 db2)
        have dead: "na_follow_up a \<notin> live_checks db2"
          using dead1 1 by (simp add: live_checks_def)
        have "work_inv X F db2"
          by (rule work_inv_settled [where c = "na_follow_up a"]) (use 1 dead in \<open>simp_all add: keeps_def\<close>)
        then have "keeps X F db1 db2" using 1 by (simp add: keeps_def)
        then show ?case using keeps_trans [OF b] 1 rows by simp
      qed
    next
      case 2
      then show ?case using inv1 b rows by (simp add: keeps_def)
    qed
  next
    case (2 db1 db2)
    show ?case using a 1(3) 2(4) ended by simp (rule bexI [of _ a], simp_all)
  qed
qed

definition only_ended :: "(next_action \<Rightarrow> bool) \<Rightarrow> work_db \<Rightarrow> work_db \<Rightarrow> bool" where
  \<comment> \<open>what is live was live before, and is none of \<open>gone\<close>\<close>
  "only_ended gone db db' \<longleftrightarrow>
     (\<forall>r \<in> set (w_actions db'). is_active r \<longrightarrow> r \<in> set (w_actions db) \<and> \<not> gone r)"

lemma cancel_next_action_ends:
  assumes inv: "work_inv X F db"
  shows "yields (cancel_next_action now actor reason pv i db)
           (\<lambda>(a, db'). keeps X F db db' \<and> only_ended (\<lambda>r. na_id r = i) db db')"
proof (rule yields_mono [OF cancel_next_action_keeps [OF inv]], clarsimp)
  fix a old and db' :: work_db
  assume old: "old \<in> set (w_actions db)" "i = na_id old" and rows: "set (w_actions db') = insert a (set (w_actions db) - {old})"
    and a: "\<not> is_active a"
  then show "only_ended (\<lambda>r. na_id r = na_id old) db db'"
    using same_action [OF inv_tables [OF inv] _ old(1)] unfolding only_ended_def by auto
qed

lemma cancel_each_ends:
  assumes "work_inv X F db"
  shows "yields (cancel_each now actor is db) (\<lambda>db'. keeps X F db db' \<and> only_ended (\<lambda>r. na_id r \<in> set is) db db')"
  using assms
proof (induction "is" arbitrary: db)
  case Nil
  then show ?case by (simp add: only_ended_def)
next
  case (Cons i "is")
  show ?case unfolding cancel_each.simps
  proof (rule yields_then2 [OF cancel_next_action_ends [OF Cons.prems]], goal_cases)
    case (1 a db1)
    then have "work_inv X F db1" and b: "beside db db1" by (auto dest: keeps_beside)
    from Cons.IH [OF this(1)] show ?case
      by (rule yields_mono) (use 1 keeps_trans [OF b] in \<open>auto simp: only_ended_def\<close>)
  qed
qed

lemma end_open_action_for_closure_ends:
  assumes inv: "work_inv X F db"
  shows "yields (end_open_action_for_closure now m actor db)
           (\<lambda>(a, db'). keeps X F db db' \<and> only_ended (\<lambda>r. na_matter r = m) db db')"
  unfolding end_open_action_for_closure_def
proof (rule yields_then [OF cancel_each_ends [OF inv]], rule yields_option, goal_cases)
  case (1 db1)
  then have "\<not> is_active r" if "r \<in> set (w_actions db1)" "na_matter r = m" for r
    using that planned_in_order_set [of r m db]
    by (auto simp: only_ended_def is_active_def current_next_action_def first_action_def first_where_None)
  then show ?case using 1 by (auto simp: only_ended_def)
next
  case (2 db1 c)
  then have inv1: "work_inv X F db1" and b: "beside db db1" by (auto dest: keeps_beside)
  have c: "c \<in> set (w_actions db1)" "na_matter c = m" "na_status c = Open"
    using 2(3) by (auto simp: current_next_action_def dest: first_action_Some)
  have only: "na_id r = na_id c" if "r \<in> set (w_actions db1)" "is_active r" "na_matter r = m" for r
  proof -
    have "na_status r \<noteq> Planned" using 2(2) that planned_in_order_set [of r m db] by (auto simp: only_ended_def)
    then have "na_status r = Open" using that(2) by (simp add: is_active_def)
    then show ?thesis using one_open [OF inv_tables [OF inv1] that(1) c(1)] c that(3) by simp
  qed
  show ?case
  proof (rule yields_then2 [OF cancel_next_action_ends [OF inv1]], goal_cases)
    case (1 a db2)
    then show ?case using 2(2) only keeps_trans [OF b] unfolding only_ended_def by auto
  qed
qed

lemma only_ended_matter: "only_ended (\<lambda>r. na_matter r = m) db db' \<Longrightarrow> m \<notin> live_matters db'"
  by (auto simp: only_ended_def in_live_matters)

section \<open>Planned actions and reviews\<close>

lemma acknowledge_review_keeps:
  assumes inv: "work_inv X F db"
  shows "yields (acknowledge_review now actor d p note i db) (\<lambda>(a, db'). keeps X F db db')"
  unfolding acknowledge_review_def Let_def refuse_an_unsupported_precision_def
proof (rule yields_seq, intro yields_pair yields_ensure yields_if, goal_cases)
  case (2 q a m)
  have a: "a \<in> set (w_actions db)" using 2 by (auto dest: lock_for_transition_Inr)
  have "yields (save_action (a\<lparr>na_date := d, na_precision := p\<rparr>) db) (keeps X F db)"
    by (rule save_action_keeps [OF inv a]) (use 2 in \<open>simp_all add: is_active_def\<close>)
  then show ?case by (rule yields_then) simp
qed (simp add: inv)

lemma locked_planned_Inr:
  "locked_planned m i db = Inr a \<Longrightarrow> a \<in> set (w_actions db) \<and> na_matter a = m \<and> na_id a = i \<and> na_status a = Planned"
  by (auto simp: locked_planned_def split: option.splits dest: first_action_Some)

lemma add_planned_action_keeps:
  assumes inv: "work_inv X F db"
  shows "yields (add_planned_action now m raw d actor u p db) (\<lambda>(a, db'). keeps X F db db')"
  unfolding add_planned_action_def Let_def refuse_an_unsupported_precision_def
proof (intro yields_ensure, rule yields_seq, intro yields_ensure yields_option, goal_cases)
  case (1 row)
  then have "mt_id row \<in> open_matters db" by (auto dest: lock_matter_Inr intro: open_mattersI)
  then show ?case
    by (intro yields_seq yields_then2 [OF create_action_keeps [OF inv]]) auto
qed (simp add: inv)

lemma change_planned_action_keeps:
  assumes inv: "work_inv X F db"
  shows "yields (change_planned_action now m i raw d actor db) (\<lambda>(a, db'). keeps X F db db')"
  unfolding change_planned_action_def Let_def
proof (intro yields_ensure, rule yields_seq, rule yields_ensure, rule yields_seq, intro yields_ensure yields_if, goal_cases)
  case (2 row p)
  then have m: "mt_id row \<in> open_matters db" by (auto dest: lock_matter_Inr intro: open_mattersI)
  have p: "p \<in> set (w_actions db)" "na_status p = Planned" using 2 by (auto dest: locked_planned_Inr)
  show ?case
  proof (rule yields_then2 [OF create_action_keeps [OF inv]], goal_cases)
    case (3 a db1)
    then have inv1: "work_inv X F db1" and b: "beside db db1" and p1: "p \<in> set (w_actions db1)" using p by (auto dest: keeps_beside)
    have "yields (save_action (p\<lparr>na_status := Superseded, na_ended_at := Some now, na_ended_by := actor,
        na_replaced_by := Some (na_id a)\<rparr>) db1) (keeps X F db1)"
      by (rule save_action_keeps [OF inv1 p1]) (use 2 p(2) in \<open>simp_all add: is_active_def\<close>)
    then show ?case by (rule yields_then) (simp add: keeps_trans [OF b])
  qed (use m in simp_all)
qed (simp add: inv)

lemma cancel_planned_action_keeps:
  assumes inv: "work_inv X F db"
  shows "yields (cancel_planned_action now m i actor db) (\<lambda>(a, db'). keeps X F db db')"
  unfolding cancel_planned_action_def
  by (intro yields_seq yields_ensure yields_mono [OF cancel_next_action_keeps [OF inv]]) auto

lemma finish_planned_action_keeps:
  assumes inv: "work_inv X F db" and a: "a \<in> set (w_actions db)"
  shows "yields (finish_planned_action now actor a db) (\<lambda>(a, db'). keeps X F db db')"
  unfolding finish_planned_action_def Let_def
proof (intro yields_ensure, goal_cases)
  case 1
  have "yields (save_action (a\<lparr>na_status := Completed, na_ended_at := Some now, na_ended_by := actor\<rparr>) db) (keeps X F db)"
    by (rule save_action_keeps [OF inv a]) (use 1 in \<open>simp_all add: is_active_def\<close>)
  then show ?case by (rule yields_then) simp
qed

section \<open>Monitoring\<close>

lemma keeps_then:
  "keeps X F db db1 \<Longrightarrow> yields m (keeps X F db1) \<Longrightarrow> yields m (keeps X F db)"
  "keeps X F db db1 \<Longrightarrow> yields m' (\<lambda>(a, d). keeps X F db1 d) \<Longrightarrow> yields m' (\<lambda>(a, d). keeps X F db d)"
  by (auto simp: yields_def dest: keeps_beside intro: keeps_trans)

lemma check_row_simps [simp]:
  "na_follow_up (check_row now m txt due o' f actor) = Some f" "na_matter (check_row now m txt due o' f actor) = mt_id m"
  "na_status (check_row now m txt due o' f actor) = Planned" "is_active (check_row now m txt due o' f actor)"
  by (simp_all add: check_row_def is_active_def)

lemma monitoredI: "f \<in> set (w_follow_ups db) \<Longrightarrow> fu_state f = Monitoring \<Longrightarrow> Some (fu_id f) \<in> monitored db"
  by (auto simp: in_monitored)

text \<open>A check opened for a follow-up that is monitored and has none settles it.\<close>

lemma create_check_keeps:
  assumes inv: "work_inv X (insert (Some f) F) db" and m: "mt_id m \<in> open_matters db" and mon: "Some f \<in> monitored db"
  shows "yields (create_action (check_row now m txt due o' f actor) db) (\<lambda>(a, db'). keeps X F db db')"
proof -
  have step: "keeps X F db db'"
    if k: "keeps X (insert (Some f) F) db db'" and row: "row \<in> set (w_actions db')" "row = check_row now m txt due o' f actor\<lparr>na_id := i\<rparr>"
      and same: "w_follow_ups db' = w_follow_ups db" for row i and db' :: work_db
  proof -
    have "is_active row" "na_follow_up row = Some f" by (simp_all add: row(2) is_active_def)
    then have live: "Some f \<in> live_checks db'" using row(1) by (auto simp: in_live_checks)
    have mon': "Some f \<in> monitored db'" using mon by (simp add: monitored_def same)
    have "work_inv X F db'"
      by (rule work_inv_settled [where c = "Some f"]) (use k live mon' in \<open>simp_all add: keeps_def\<close>)
    then show ?thesis using k by (simp add: keeps_def)
  qed
  show ?thesis
    by (rule yields_mono [OF create_action_keeps [OF inv]]) (use m in \<open>auto intro: step\<close>)
qed

lemma follow_up_of_Inr: "follow_up_of a db = Inr f \<Longrightarrow> f \<in> set (w_follow_ups db) \<and> Some (fu_id f) = na_follow_up a"
  by (auto simp: follow_up_of_def split: option.splits)

lemma schedule_first_check_keeps:
  assumes inv: "work_inv X F db"
  shows "yields (schedule_first_check zone now s actor db) (\<lambda>(a, db'). keeps X F db db')"
  unfolding schedule_first_check_def Let_def
proof (rule yields_seq, rule yields_seq, rule yields_ensure, rule yields_option, rule yields_seq, goal_cases)
  case (1 s m due)
  then have m: "mt_id m \<in> open_matters db" by (auto dest: lock_open_Inr intro: open_mattersI)
  show ?case
  proof (rule yields_then2 [OF create_follow_up_keeps [OF inv]], goal_cases)
    case (1 f db1)
    then have inv1: "work_inv X (insert (Some (fu_id f)) F) db1" and b: "beside db db1" by (auto dest: keeps_beside)
    have m1: "mt_id m \<in> open_matters db1" using m by (simp add: beside_open [OF b])
    have "Some (fu_id f) \<in> monitored db1" by (rule monitoredI) (use 1 in simp_all)
    from create_check_keeps [OF inv1 m1 this] show ?case
      by (rule yields_then2) (simp add: keeps_trans [OF b])
  qed
qed (simp add: inv)

lemma locked_check_Inr:
  "locked_check m i db = Inr a \<Longrightarrow>
     a \<in> set (w_actions db) \<and> na_matter a = m \<and> na_id a = i \<and> na_follow_up a \<noteq> None \<and> is_active a"
  by (auto simp: locked_check_def split: option.splits dest: first_action_Some)

lemma reschedule_check_keeps:
  assumes inv: "work_inv X F db"
  shows "yields (reschedule_check zone now m i d actor db) (\<lambda>(a, db'). keeps X F db db')"
  unfolding reschedule_check_def Let_def
proof (rule yields_seq, rule yields_seq, rule yields_seq, rule yields_if, goal_cases)
  case (2 day row a)
  then have a: "a \<in> set (w_actions db)" "is_active a" by (auto dest: locked_check_Inr)
  have "yields (save_action (a\<lparr>na_date := Some day\<rparr>) db) (keeps X F db)"
    by (rule save_action_keeps [OF inv a(1)]) (use a(2) in \<open>simp_all add: is_active_def\<close>)
  then show ?case by (rule yields_then) (intro yields_seq, simp)
qed (simp add: inv)


lemma complete_check_keeps:
  assumes inv: "workflow_inv db" and a: "a \<in> set (w_actions db)"
  shows "yields (complete_check zone now a outcome actor next_on reason db) (\<lambda>(c, db'). keeps {} {} db db')"
  unfolding complete_check_def validate_outcome_def Let_def
proof (rule yields_ensure, rule yields_seq, rule yields_ensure, rule yields_ensure, rule yields_seq, goal_cases)
  case (1 u f)
  let ?a = "a\<lparr>na_status := Completed, na_ended_at := Some now, na_ended_by := actor, na_outcome := outcome\<rparr>"
  have act: "is_active a" "na_follow_up a \<noteq> None" using 1 by auto
  have f: "f \<in> set (w_follow_ups db)" "na_follow_up a = Some (fu_id f)" using follow_up_of_Inr [OF 1(5)] by auto
  have live: "na_follow_up a \<in> live_checks db" "na_matter a \<in> live_matters db"
    using a act by (auto simp: in_live_checks in_live_matters)
  then have mon: "na_follow_up a \<in> monitored db" and m: "na_matter a \<in> open_matters db"
    using inv by (auto simp: work_inv_def)
  have save: "yields (save_action ?a db) (\<lambda>db'. keeps {} (insert (na_follow_up a) {}) db db'
      \<and> na_follow_up a \<notin> live_checks db' \<and> w_follow_ups db' = w_follow_ups db)"
    by (rule save_ended_keeps [OF inv a act(1)]) (simp_all add: is_active_def)
  show ?case
  proof (rule yields_then [OF save], rule yields_then2 [where Q = "\<lambda>_. keeps {} {} db"], goal_cases)
    case (1 db1)
    then have inv1: "work_inv {} {Some (fu_id f)} db1" and b: "beside db db1" by (auto simp: f(2) dest: keeps_beside)
    have f1: "f \<in> set (w_follow_ups db1)" and mon1: "Some (fu_id f) \<in> monitored db1" and dead1: "Some (fu_id f) \<notin> live_checks db1"
      using 1 f mon by (simp_all add: monitored_def)
    show ?case
    proof (rule yields_if, rule yields_option, goal_cases)
      case (2 day)
      show ?case
      proof (rule yields_option, goal_cases)
        case (2 m)
        then have "mt_id m = na_matter a" by auto
        then have "mt_id m \<in> open_matters db1" using m by (simp add: beside_open [OF b])
        then show ?case
          by (intro yields_then2 [OF create_check_keeps [where X = "{}" and F = "{}"]]) (simp_all add: inv1 mon1 keeps_trans [OF b])
      qed simp
    next
      case 3
      show ?case
      proof (rule yields_then [OF save_follow_up_keeps [where X = "{}" and F = "{Some (fu_id f)}" and old = f]], goal_cases)
        case (5 db2)
        have "work_inv {} {} db2"
          by (rule work_inv_settled [where c = "Some (fu_id f)"]) (use 5 dead1 in \<open>simp_all add: keeps_def live_checks_def\<close>)
        then have "keeps {} {} db1 db2" using 5 by (simp add: keeps_def)
        then show ?case by (simp add: keeps_trans [OF b])
      qed (use inv1 f1 in simp_all)
    qed simp
  next
    case (2 db1 c db2)
    then show ?case
      by (intro yields_if yields_then2 [OF promote_next_planned_action_keeps])
        (auto elim: keeps_trans [OF keeps_beside])
  qed
qed


lemma restart_follow_up_keeps:
  assumes inv: "workflow_inv db"
  shows "yields (restart_follow_up zone now m i d actor db) (\<lambda>(c, db'). keeps {} {} db db')"
  unfolding restart_follow_up_def Let_def
proof (rule yields_seq, rule yields_seq, rule yields_option, simp, rule yields_if, goal_cases)
  case (1 day m f)
  show ?case by (rule yields_option) (simp_all add: inv)
next
  case (2 day m f)
  then have m: "mt_id m \<in> open_matters db" by (auto dest: lock_open_Inr intro: open_mattersI)
  have f: "f \<in> set (w_follow_ups db)" using 2(3) by auto
  have inv': "work_inv {} {Some (fu_id f)} db" by (rule work_inv_mono [OF inv]) auto
  show ?case
  proof (rule yields_seq, rule yields_ensure, rule yields_then [OF save_follow_up_keeps [where X = "{}" and F = "{Some (fu_id f)}" and old = f]], goal_cases)
    case (5 s db1)
    then have inv1: "work_inv {} {Some (fu_id f)} db1" and b: "beside db db1" and mon: "Some (fu_id f) \<in> monitored db1"
      by (auto dest: keeps_beside)
    have "mt_id m \<in> open_matters db1" using m by (simp add: beside_open [OF b])
    then show ?case
      by (intro yields_then2 [OF create_check_keeps [where X = "{}" and F = "{}"]])
        (simp_all add: inv1 mon keeps_trans [OF b])
  qed (use inv' f in simp_all)
qed

lemma cancel_checks_keeps:
  assumes "work_inv X F db"
  shows "yields (cancel_checks now actor reason is db) (keeps X F db)"
  using assms
proof (induction "is" arbitrary: db)
  case (Cons i "is")
  show ?case unfolding cancel_checks.simps
  proof (rule yields_then2 [OF cancel_next_action_ends [OF Cons.prems]], goal_cases)
    case (1 a db1)
    then show ?case using Cons.IH [of db1] by (auto intro: keeps_then(1) dest: keeps_inv)
  qed
qed simp

lemma cancel_checks_of_submission_keeps:
  assumes inv: "work_inv X F db"
  shows "yields (cancel_checks_of_submission now s actor reason db) (\<lambda>(n, db'). keeps X F db db')"
  unfolding cancel_checks_of_submission_def Let_def
proof (rule yields_option, simp add: inv, rule yields_if, simp add: inv, rule yields_then [OF cancel_checks_keeps [OF inv]], goal_cases)
  case (1 f db1)
  then show ?case
    by (intro yields_if yields_then2 [OF promote_next_planned_action_keeps])
      (auto elim: keeps_trans [OF keeps_beside])
qed

lemma reword_checks_keeps:
  assumes "work_inv X F db" and "set as \<subseteq> {a \<in> set (w_actions db). is_active a}" and "distinct (map na_id as)"
  shows "yields (reword_checks wanted as db) (\<lambda>(pl, db'). keeps X F db db')"
  using assms
proof (induction "as" arbitrary: db)
  case (Cons a "as")
  show ?case unfolding reword_checks.simps
  proof (rule yields_if, goal_cases)
    case 1
    show ?case using Cons by simp
  next
    case 2
    have a: "a \<in> set (w_actions db)" using Cons.prems by simp
    have save: "yields (save_action (a\<lparr>na_text := wanted\<rparr>) db) (keeps X F db)"
      by (rule save_action_keeps [OF Cons.prems(1) a]) (use Cons.prems(2) in \<open>simp_all add: is_active_def\<close>)
    show ?case
    proof (rule yields_then [OF save], rule yields_then2 [OF Cons.IH], goal_cases)
      case (2 db1)
      then have "set (w_actions db1) = insert (a\<lparr>na_text := wanted\<rparr>) (set (w_actions db) - {a})"
        by (intro save_action_rows(1) [OF _ inv_tables [OF Cons.prems(1)] a]) simp_all
      then show ?case using Cons.prems(2,3) by auto
    qed (use Cons.prems in \<open>auto elim: keeps_trans [OF keeps_beside]\<close>)
  qed
qed simp

lemma follow_recipient_correction_keeps:
  assumes inv: "work_inv X F db"
  shows "yields (follow_recipient_correction s db) (\<lambda>(pl, db'). keeps X F db db')"
  unfolding follow_recipient_correction_def
proof (rule yields_option, simp add: inv, rule yields_if, simp add: inv, rule reword_checks_keeps [OF inv], goal_cases)
  case (2 f)
  have "distinct (map na_id (w_actions db))" using inv_tables [OF inv] by (simp add: tables_ok_def unique_on_def)
  then show ?case by (rule distinct_map_filter)
qed auto

lemma follow_sent_date_correction_keeps:
  assumes inv: "work_inv X F db"
  shows "yields (follow_sent_date_correction zone now s actor db) (\<lambda>(a, db'). keeps X F db db')"
  unfolding follow_sent_date_correction_def Let_def
proof (rule yields_option, simp add: inv, rule yields_option, simp add: inv, rule yields_if, simp add: inv,
    rule yields_option, simp add: inv, rule yields_if, simp add: inv, rule yields_seq, goal_cases)
  case (1 f at c due)
  have c: "c \<in> set (w_actions db)" "is_active c" using 1(4) by (auto simp: active_check_def dest: first_action_Some)
  have f: "f \<in> set (w_follow_ups db)" using 1(1) by auto
  have save: "yields (save_action (c\<lparr>na_date := Some due\<rparr>) db) (keeps X F db)"
    by (rule save_action_keeps [OF inv c(1)]) (use c(2) in \<open>simp_all add: is_active_def\<close>)
  show ?case
  proof (rule yields_then [OF save], rule yields_then [OF save_follow_up_keeps [where X = X and F = F and old = f]], goal_cases)
    case (2 db1)
    then show ?case using f save_action_rows(4) [OF _ inv_tables [OF inv] c(1), of "c\<lparr>na_date := Some due\<rparr>" db1] by simp
  next
    case (5 db1 db2)
    then show ?case using keeps_trans [of db db1] by (auto dest: keeps_beside)
  qed (auto)
qed

section \<open>The plan and moving a day\<close>

lemma create_template_steps_keeps:
  assumes "work_inv X F db"
  shows "yields (create_template_steps now m actor t n items db) (\<lambda>(ss, db'). keeps X F db db')"
  using assms
proof (induction items arbitrary: db n)
  case (Cons item items)
  show ?case unfolding create_template_steps.simps
  proof (rule yields_then2 [OF create_step_keeps [OF Cons.prems]], rule yields_then2 [OF Cons.IH], goal_cases)
    case (2 s db1 ss db2)
    then show ?case using keeps_trans [of db db1] by (auto dest: keeps_beside)
  qed (auto dest: keeps_inv)
qed simp

lemma seed_standard_plan_keeps:
  assumes "work_inv X F db"
  shows "yields (seed_standard_plan digest now m actor t expected db) (\<lambda>(ss, db'). keeps X F db db')"
  unfolding seed_standard_plan_def check_revision_def Let_def
  by (rule yields_seq, intro yields_ensure yields_if yields_then2 [OF create_template_steps_keeps [OF assms]])
    (simp_all add: assms)

lemma skip_plan_step_keeps:
  assumes "work_inv X F db"
  shows "yields (skip_plan_step digest now s actor expected db) (\<lambda>(s, db'). keeps X F db db')"
  unfolding skip_plan_step_def check_revision_def Let_def
  by (rule yields_seq, rule yields_ensure, rule yields_seq, intro yields_ensure yields_then [OF save_step_keeps [OF assms]])
    simp

lemma activate_plan_step_keeps:
  assumes "work_inv X F db"
  shows "yields (activate_plan_step now m i actor raw d p u db) (\<lambda>(a, db'). keeps X F db db')"
  unfolding activate_plan_step_def start_step_def Let_def
proof (rule yields_seq, rule yields_seq, intro yields_ensure, rule yields_then2 [OF set_next_action_for_new_work_keeps [OF assms]], goal_cases)
  case (1 m s a db1)
  then show ?case
    by (intro yields_then [OF save_step_keeps [where X = X and F = F]]) (auto elim: keeps_trans [OF keeps_beside])
qed

lemma fulfil_launched_step_keeps:
  assumes "work_inv X F db"
  shows "yields (fulfil_launched_step now l r actor db) (\<lambda>(s, db'). keeps X F db db')"
  unfolding fulfil_launched_step_def Let_def
proof (rule yields_option, simp, rule yields_then [OF save_step_keeps [OF assms]], goal_cases)
  case (1 s db1)
  have fin: "yields (case snd l of None \<Rightarrow> Inr (v, db2) | Some a \<Rightarrow>
       (case first_action (\<lambda>r. na_id r = na_id a) db2 of None \<Rightarrow> Inr (v, db2)
        | Some r \<Rightarrow> if na_status r = Open then and_then (complete_next_action now actor True (na_id r) db2) (\<lambda>(_, db). Inr (v, db))
                    else Inr (v, db2))) (\<lambda>(s, db'). keeps X F db db')"
    if k: "keeps X F db db2" for db2 v
    using k
    by (intro yields_option yields_if yields_then2 [OF complete_next_action_keeps [where X = X and F = F]])
      (auto elim: keeps_trans [OF keeps_beside])
  show ?case by (rule fin) (use 1 in simp)
qed

lemma change_current_action_keeps:
  assumes "work_inv X F db"
  shows "yields (change_current_action now m i rq db) (\<lambda>(a, db'). keeps X F db db')"
  unfolding change_current_action_def
  by (intro yields_seq set_next_action_for_new_work_keeps [OF assms])

lemma add_unnamed_step_keeps:
  assumes "work_inv X F db"
  shows "yields (add_unnamed_step now m actor txt d p u db) (\<lambda>(a, db'). keeps X F db db')"
  unfolding add_unnamed_step_def
  by (intro yields_seq yields_if yields_ensure set_next_action_for_new_work_keeps [OF assms] add_planned_action_keeps [OF assms])

lemma shift_action_date_keeps:
  assumes "work_inv X F db"
  shows "yields (shift_action_date now m i actor key source proposed db) (\<lambda>(r, db'). keeps X F db db')"
  unfolding shift_action_date_def
proof (rule yields_ensure, cases "lock_open_matter_for_business_write m db", goal_cases)
  case (1 e)
  then show ?case by (cases e) (simp_all)
next
  case (2 row)
  show ?case unfolding 2 sum.case
  proof (rule yields_option, simp, intro yields_ensure, rule yields_seq, rule yields_ensure, rule yields_then2 [where Q = "\<lambda>_. keeps X F db"], goal_cases)
    case (1 a new)
    show ?case by (intro yields_if change_current_action_keeps [OF assms] change_planned_action_keeps [OF assms])
  qed simp
qed

end
