(* ===== verification/ClosureServices.thy ===== *)
theory ClosureServices
  imports WorkServices
begin

text \<open>
  Closing, reopening and moving a matter between stages keep the invariant of the workflow; a
  closing leaves nothing owed on the matter.
\<close>

section \<open>Rows of a matter\<close>

lemma ended_rows_sub [simp]: "ended_rows db \<subseteq> set (w_actions db)"
  by (auto simp: ended_rows_def)

lemma ended_rows_kept:
  "ended_rows db \<subseteq> set (w_actions db1) \<Longrightarrow> ended_rows db1 \<subseteq> set (w_actions db2) \<Longrightarrow> ended_rows db \<subseteq> set (w_actions db2)"
  by (auto simp: ended_rows_def)

lemma save_matter_rows:
  assumes "save_matter m db = Inr db'" and "tables_ok db" and "old \<in> set (w_matters db)" and "mt_id old = mt_id m"
  shows "set (w_matters db') = insert m (set (w_matters db) - {old})" and "tables_ok db'"
    and "w_actions db' = w_actions db" and "w_follow_ups db' = w_follow_ups db"
    and "w_overviews db' = w_overviews db" and "w_engagements db' = w_engagements db"
    and "w_episodes db' = w_episodes db" and "w_next db' = w_next db"
proof -
  let ?rows = "update_where (\<lambda>r. mt_id r = mt_id m) (\<lambda>_. m) (w_matters db)"
  have db': "db' = db\<lparr>w_matters := ?rows\<rparr>" using assms(1) by (simp add: save_matter_def split: if_splits)
  have u: "unique_on mt_id (w_matters db)" using assms(2) by (simp add: tables_ok_def)
  show "set (w_matters db') = insert m (set (w_matters db) - {old})" using in_saved [OF u assms(3,4)] by (simp add: db')
  have "unique_on mt_id ?rows" using u by (subst unique_on_update) simp_all
  then show "tables_ok db'" using assms(2) by (simp add: tables_ok_def db')
qed (use assms(1) in \<open>auto simp: save_matter_def split: if_splits\<close>)

lemma save_matter_inv:
  assumes "save_matter m db = Inr db'" and inv: "work_inv X F db" and old: "old \<in> set (w_matters db)" "mt_id old = mt_id m"
    and opened: "mt_open old \<Longrightarrow> mt_open m \<or> mt_id m \<in> X"
  shows "work_inv X F db'"
proof -
  note rows = save_matter_rows [OF assms(1) inv_tables [OF inv] old]
  have "open_matters db - X \<subseteq> open_matters db'"
  proof
    fix j assume "j \<in> open_matters db - X"
    then obtain r where r: "r \<in> set (w_matters db)" "mt_open r" "mt_id r = j" "j \<notin> X" by (auto simp: open_matters_def)
    have "r \<in> set (w_matters db') \<or> m \<in> set (w_matters db') \<and> mt_open m \<and> mt_id m = j"
      using r old opened unfolding rows(1) by (cases "r = old") auto
    then show "j \<in> open_matters db'" using r(2,3) open_mattersI by blast
  qed
  moreover have "live_matters db' = live_matters db" "live_checks db' = live_checks db" "monitored db' = monitored db"
    by (simp_all add: live_matters_def live_checks_def monitored_def rows)
  ultimately show ?thesis using inv rows(2) by (auto simp: work_inv_def)
qed

lemma matter_dead:
  "work_inv (insert i X) F db \<Longrightarrow> i \<notin> live_matters db \<Longrightarrow> work_inv X F db"
  by (auto simp: work_inv_def)

lemma only_matter: "tables_ok db \<Longrightarrow> m \<in> set (w_matters db) \<Longrightarrow> r \<in> set (w_matters db) \<Longrightarrow> mt_id m = mt_id r \<Longrightarrow> m = r"
  by (rule unique_onD [of mt_id "w_matters db"]) (simp_all add: tables_ok_def)

section \<open>Ending the live work\<close>

definition nothing_owed :: "row_id \<Rightarrow> work_db \<Rightarrow> bool" where
  "nothing_owed m db \<longleftrightarrow>
     \<not> list_ex (\<lambda>a. na_matter a = m \<and> is_active a) (w_actions db)
     \<and> \<not> list_ex (planned_overview m) (w_overviews db) \<and> \<not> list_ex (open_wait m) (w_engagements db)"

lemma nothing_owed_iff:
  "nothing_owed m db \<longleftrightarrow> m \<notin> live_matters db
     \<and> \<not> list_ex (planned_overview m) (w_overviews db) \<and> \<not> list_ex (open_wait m) (w_engagements db)"
  by (auto simp: nothing_owed_def in_live_matters list_ex_iff)

lemma cancel_one_overview_tables [simp]:
  "w_matters (cancel_one_overview now actor r db) = w_matters db" "w_actions (cancel_one_overview now actor r db) = w_actions db"
  "w_follow_ups (cancel_one_overview now actor r db) = w_follow_ups db" "w_next (cancel_one_overview now actor r db) = w_next db"
  "w_engagements (cancel_one_overview now actor r db) = w_engagements db" "w_episodes (cancel_one_overview now actor r db) = w_episodes db"
  by (simp_all add: cancel_one_overview_def)

lemma close_one_wait_tables [simp]:
  "w_matters (close_one_wait now m actor r db) = w_matters db" "w_actions (close_one_wait now m actor r db) = w_actions db"
  "w_follow_ups (close_one_wait now m actor r db) = w_follow_ups db" "w_next (close_one_wait now m actor r db) = w_next db"
  "w_overviews (close_one_wait now m actor r db) = w_overviews db" "w_episodes (close_one_wait now m actor r db) = w_episodes db"
  by (simp_all add: close_one_wait_def)

lemma cancel_overviews_tables:
  "w_matters (fold (cancel_one_overview now actor) rs db) = w_matters db
   \<and> w_actions (fold (cancel_one_overview now actor) rs db) = w_actions db
   \<and> w_follow_ups (fold (cancel_one_overview now actor) rs db) = w_follow_ups db
   \<and> w_next (fold (cancel_one_overview now actor) rs db) = w_next db
   \<and> w_engagements (fold (cancel_one_overview now actor) rs db) = w_engagements db
   \<and> w_episodes (fold (cancel_one_overview now actor) rs db) = w_episodes db"
  by (induction rs arbitrary: db) simp_all

lemma close_waits_tables:
  "w_matters (fold (close_one_wait now m actor) rs db) = w_matters db
   \<and> w_actions (fold (close_one_wait now m actor) rs db) = w_actions db
   \<and> w_follow_ups (fold (close_one_wait now m actor) rs db) = w_follow_ups db
   \<and> w_next (fold (close_one_wait now m actor) rs db) = w_next db
   \<and> w_overviews (fold (close_one_wait now m actor) rs db) = w_overviews db
   \<and> w_episodes (fold (close_one_wait now m actor) rs db) = w_episodes db"
  by (induction rs arbitrary: db) simp_all

lemma update_each:
  assumes "\<And>r. f (f r) = f r" and "\<And>r. k (f r) = k r"
  shows "fold (\<lambda>i. update_where (\<lambda>s. k s = i) f) is rows = update_where (\<lambda>s. k s \<in> set is) f rows"
  by (induction "is" arbitrary: rows) (auto simp: update_where_def assms)

lemma cancel_planned_overviews_rows:
  "w_overviews (cancel_planned_overviews now m actor db) =
     update_where (\<lambda>s. ov_id s \<in> ov_id ` set (filter (planned_overview m) (w_overviews db)))
       (\<lambda>s. s\<lparr>ov_status := OverviewCancelled, ov_cancelled_at := Some now, ov_status_changed_at := Some now\<rparr>) (w_overviews db)"
proof -
  have "w_overviews (fold (cancel_one_overview now actor) rs db) =
     fold (\<lambda>i. update_where (\<lambda>s. ov_id s = i)
       (\<lambda>s. s\<lparr>ov_status := OverviewCancelled, ov_cancelled_at := Some now, ov_status_changed_at := Some now\<rparr>)) (map ov_id rs) (w_overviews db)" for rs
    by (induction rs arbitrary: db) (simp_all add: cancel_one_overview_def)
  then show ?thesis by (simp add: cancel_planned_overviews_def update_each)
qed

lemma close_open_waits_rows:
  "w_engagements (close_open_waits now m actor db) =
     update_where (\<lambda>s. en_id s \<in> en_id ` set (filter (open_wait m) (w_engagements db)))
       (\<lambda>s. s\<lparr>en_closed_at := Some now, en_closed_by := actor\<rparr>) (w_engagements db)"
proof -
  have "w_engagements (fold (close_one_wait now m actor) rs db) =
     fold (\<lambda>i. update_where (\<lambda>s. en_id s = i) (\<lambda>s. s\<lparr>en_closed_at := Some now, en_closed_by := actor\<rparr>)) (map en_id rs) (w_engagements db)" for rs
    by (induction rs arbitrary: db) (simp_all add: close_one_wait_def)
  then show ?thesis by (simp add: close_open_waits_def update_each)
qed

lemma none_left:
  assumes "\<And>s. \<not> p (f s)"
  shows "\<not> list_ex p (update_where (\<lambda>s. k s \<in> k ` set (filter p rows)) f rows)"
proof
  assume "list_ex p (update_where (\<lambda>s. k s \<in> k ` set (filter p rows)) f rows)"
  then obtain s where s: "s \<in> set rows" "p (if k s \<in> k ` set (filter p rows) then f s else s)"
    unfolding list_ex_iff bex_update_where by blast
  then have "k s \<notin> k ` set (filter p rows)" "p s" using assms by (auto split: if_splits)
  with s(1) show False by simp
qed

lemma ended_overviews: "\<not> list_ex (planned_overview m) (w_overviews (cancel_planned_overviews now m actor db))"
  unfolding cancel_planned_overviews_rows by (rule none_left) (simp add: planned_overview_def)

lemma ended_waits: "\<not> list_ex (open_wait m) (w_engagements (close_open_waits now m actor db))"
  unfolding close_open_waits_rows by (rule none_left) (simp add: open_wait_def)

lemma end_live_work_for_closure_ends:
  assumes inv: "work_inv X F db"
  shows "yields (end_live_work_for_closure now m actor db)
           (\<lambda>db'. work_inv X F db' \<and> nothing_owed m db' \<and> w_matters db' = w_matters db \<and> w_episodes db' = w_episodes db
             \<and> w_next db \<le> w_next db' \<and> ended_rows db \<subseteq> set (w_actions db'))"
  unfolding end_live_work_for_closure_def
proof (rule yields_then2 [OF end_open_action_for_closure_ends [OF inv]], goal_cases)
  case (1 a db1)
  let ?db2 = "cancel_planned_overviews now m actor db1"
  let ?db3 = "close_open_waits now m actor ?db2"
  have t2: "w_matters ?db2 = w_matters db1" "w_actions ?db2 = w_actions db1" "w_follow_ups ?db2 = w_follow_ups db1"
      "w_next ?db2 = w_next db1" "w_episodes ?db2 = w_episodes db1"
    using cancel_overviews_tables [of now actor _ db1] by (simp_all add: cancel_planned_overviews_def)
  have t3: "w_matters ?db3 = w_matters db1" "w_actions ?db3 = w_actions db1" "w_follow_ups ?db3 = w_follow_ups db1"
      "w_next ?db3 = w_next db1" "w_overviews ?db3 = w_overviews ?db2" "w_episodes ?db3 = w_episodes db1"
    using close_waits_tables [of now m actor _ ?db2] by (simp_all add: close_open_waits_def t2)
  have "work_inv X F ?db3" by (rule work_inv_cong [of _ db1]) (use 1 t3 in auto)
  moreover have "live_matters ?db3 = live_matters db1" by (simp add: live_matters_def t3)
  then have "nothing_owed m ?db3"
    using 1 only_ended_matter [of m db db1] ended_overviews ended_waits by (simp add: nothing_owed_iff t3)
  moreover have "w_matters db1 = w_matters db" "w_episodes db1 = w_episodes db" "w_next db \<le> w_next db1"
      "ended_rows db \<subseteq> set (w_actions db1)" using 1 by (auto simp: keeps_def beside_def)
  ultimately show ?case by (simp add: t3)
qed


section \<open>Closing and reopening\<close>

text \<open>The current period of a matter is of the stage the matter holds.\<close>

definition stage_inv :: "work_db \<Rightarrow> bool" where
  "stage_inv db \<longleftrightarrow> episodes_ok (w_episodes db) \<and> unique_on se_id (w_episodes db)
     \<and> list_all (\<lambda>e. se_id e < w_next db) (w_episodes db)
     \<and> (\<forall>e \<in> set (w_episodes db). se_current e \<longrightarrow>
          (\<exists>m \<in> set (w_matters db). mt_id m = se_matter e \<and> mt_stage m = Some (se_stage e)))"

lemma matter_row_Some: "matter_row db i = Some m \<Longrightarrow> m \<in> set (w_matters db) \<and> mt_id m = i"
  by (auto simp: matter_row_def)

text \<open>Which matter continues under which.\<close>

definition continuations :: "work_db \<Rightarrow> (row_id \<times> row_id) set" where
  "continuations db = {(i, j). \<exists>m \<in> set (w_matters db). mt_id m = i \<and> mt_superseded_by m = Some j}"

lemma continuations_saved:
  assumes "set (w_matters db') = insert m (set (w_matters db) - {old})"
  shows "continuations db' \<subseteq> continuations db \<union> {(i, j). i = mt_id m \<and> mt_superseded_by m = Some j}"
  unfolding continuations_def assms by blast

text \<open>What a save of a matter and the end of its live work leave behind.\<close>

definition closed_now :: "row_id \<Rightarrow> row_id option \<Rightarrow> work_db \<Rightarrow> work_db \<Rightarrow> bool" where
  "closed_now i successor db db' \<longleftrightarrow> workflow_inv db' \<and> nothing_owed i db' \<and> w_episodes db' = w_episodes db \<and> w_next db \<le> w_next db'
     \<and> ended_rows db \<subseteq> set (w_actions db')
     \<and> (\<exists>old \<in> set (w_matters db). \<exists>m. mt_id old = i \<and> mt_id m = i \<and> \<not> mt_open m \<and> mt_stage m = mt_stage old
          \<and> mt_superseded_by m = successor \<and> set (w_matters db') = insert m (set (w_matters db) - {old}))"

lemma save_and_end:
  assumes inv: "workflow_inv db" and old: "old \<in> set (w_matters db)" "mt_id old = i"
    and m: "mt_id m = i" "\<not> mt_open m" "mt_stage m = mt_stage old" "mt_superseded_by m = successor"
  shows "yields (and_then (save_matter m db) (\<lambda>db. end_live_work_for_closure now i actor db)) (closed_now i successor db)"
proof (rule yields_seq)
  fix db1 assume s: "save_matter m db = Inr db1"
  have old': "mt_id old = mt_id m" using old m by simp
  note rows = save_matter_rows [OF s inv_tables [OF inv] old(1) old']
  have "work_inv {i} {} db1"
    by (rule save_matter_inv [OF s _ old(1) old']) (use inv m in \<open>auto intro: work_inv_mono\<close>)
  then show "yields (end_live_work_for_closure now i actor db1) (closed_now i successor db)"
  proof (rule yields_mono [OF end_live_work_for_closure_ends], goal_cases)
    case (1 db2)
    then have ended: "work_inv {i} {} db2" "nothing_owed i db2" "w_matters db2 = w_matters db1" "w_episodes db2 = w_episodes db1"
        "w_next db1 \<le> w_next db2" "ended_rows db1 \<subseteq> set (w_actions db2)"
      by auto
    have "i \<notin> live_matters db2" using ended(2) unfolding nothing_owed_iff by blast
    with ended(1) have "workflow_inv db2" by (rule matter_dead)
    moreover have "set (w_matters db2) = insert m (set (w_matters db) - {old})" "w_episodes db2 = w_episodes db"
        "w_next db \<le> w_next db2" "ended_rows db \<subseteq> set (w_actions db2)"
      using ended(3-6) rows(1,3,7,8) by (simp_all add: ended_rows_def)
    ultimately show ?case unfolding closed_now_def using ended(2) old m by blast
  qed
qed

lemma closed_now_event [simp]:
  "closed_now i su db (record_change_event now t j actor obj s pl db') = closed_now i su db db'"
  by (simp add: closed_now_def nothing_owed_def)

lemma then_end: "and_then (and_then m f) g = and_then m (\<lambda>x. and_then (f x) g)"
  by (cases m) simp_all

lemma close_matter_closes:
  assumes inv: "workflow_inv db"
  shows "yields (close_matter digest sees now i disp actor reason successor c db) (\<lambda>(m, db'). closed_now i successor db db')"
  unfolding close_matter_def Let_def
proof (rule yields_ensure, rule yields_ensure, rule yields_ensure, rule yields_ensure,
    rule yields_then2 [where Q = "\<lambda>m _. m \<in> set (w_matters db) \<and> mt_id m = i"], goal_cases)
  case 1
  show ?case
    by (auto simp: yields_def and_then_eq_Inr split: option.splits if_splits dest!: lock_matter_Inr matter_row_Some)
next
  case (2 m s)
  then have m: "m \<in> set (w_matters db)" "mt_id m = i" by auto
  show ?case
  proof (rule yields_ensure, rule yields_seq, rule yields_seq, goal_cases)
    case 1
    have "yields (and_then (save_matter (m\<lparr>mt_open := False, mt_disposition := disp, mt_disposition_reason := reason,
               mt_closed_at := Some now, mt_closed_by := actor, mt_superseded_by := successor\<rparr>) db)
             (\<lambda>db. end_live_work_for_closure now i actor db)) (closed_now i successor db)"
      by (rule save_and_end [OF inv m]) (use m in simp_all)
    then show ?case unfolding then_end [symmetric] by (rule yields_then) simp
  qed
qed

lemma mark_historical_archive_inactive_closes:
  assumes inv: "workflow_inv db"
  shows "yields (mark_historical_archive_inactive now i actor pv db) (\<lambda>db'. \<exists>su. closed_now i su db db' \<and> (\<exists>m \<in> set (w_matters db). mt_id m = i \<and> mt_superseded_by m = su))"
  unfolding mark_historical_archive_inactive_def
proof (rule yields_seq, rule yields_ensure, rule yields_ensure, goal_cases)
  case (1 m)
  then have m: "m \<in> set (w_matters db)" "mt_id m = i" by (auto dest: lock_matter_Inr)
  have "yields (and_then (save_matter (m\<lparr>mt_open := False\<rparr>) db) (\<lambda>db. end_live_work_for_closure now i actor db)) (closed_now i (mt_superseded_by m) db)"
    by (rule save_and_end [OF inv m]) (use m in simp_all)
  then show ?case unfolding then_end [symmetric] by (rule yields_then) (use m in auto)
qed


section \<open>Stage periods\<close>

lemma stage_inv_cong:
  assumes "stage_inv db" and "w_episodes db' = w_episodes db" and "w_next db \<le> w_next db'"
    and "\<And>m. m \<in> set (w_matters db) \<Longrightarrow> \<exists>r \<in> set (w_matters db'). mt_id r = mt_id m \<and> mt_stage r = mt_stage m"
  shows "stage_inv db'"
proof -
  have "\<exists>m \<in> set (w_matters db'). mt_id m = se_matter e \<and> mt_stage m = Some (se_stage e)"
    if "e \<in> set (w_episodes db)" "se_current e" for e
    using assms(1,4) that unfolding stage_inv_def by metis
  moreover have "list_all (\<lambda>e. se_id e < w_next db') (w_episodes db)"
    using assms(1,3) by (fastforce simp: stage_inv_def list_all_iff)
  ultimately show ?thesis using assms(1,2) by (simp add: stage_inv_def)
qed

lemma keeps_stage: "beside db db' \<Longrightarrow> stage_inv db \<Longrightarrow> stage_inv db'"
  by (rule stage_inv_cong) (auto simp: beside_def)

lemma closed_now_stage:
  assumes "closed_now i su db db'" and "stage_inv db"
  shows "stage_inv db'"
proof (rule stage_inv_cong [OF assms(2)])
  fix m assume "m \<in> set (w_matters db)"
  then show "\<exists>r \<in> set (w_matters db'). mt_id r = mt_id m \<and> mt_stage r = mt_stage m"
    using assms(1) unfolding closed_now_def by (cases "mt_id m = i") (metis insertCI DiffI singletonD)+
qed (use assms(1) in \<open>simp_all add: closed_now_def\<close>)

text \<open>What a change of the periods of matter \<open>m\<close> to \<open>stage\<close> leaves behind.\<close>

definition turned :: "row_id \<Rightarrow> stage_row option \<Rightarrow> work_db \<Rightarrow> work_db \<Rightarrow> bool" where
  "turned m stage db db' \<longleftrightarrow>
     episodes_ok (w_episodes db') \<and> unique_on se_id (w_episodes db') \<and> list_all (\<lambda>e. se_id e < w_next db') (w_episodes db')
     \<and> w_next db \<le> w_next db' \<and> w_matters db' = w_matters db \<and> w_actions db' = w_actions db
     \<and> w_follow_ups db' = w_follow_ups db
     \<and> {e \<in> set (w_episodes db). se_matter e \<noteq> m \<or> \<not> se_current e} \<subseteq> set (w_episodes db')
     \<and> {e \<in> set (w_episodes db'). se_current e}
         \<subseteq> {e \<in> set (w_episodes db). se_matter e \<noteq> m} \<union> {e. se_matter e = m \<and> Some (se_stage e) = stage}"

lemma save_episode_rows:
  assumes "save_episode e db = Inr db'" and "stage_inv db" and "old \<in> set (w_episodes db)" and "se_id old = se_id e"
  shows "set (w_episodes db') = insert e (set (w_episodes db) - {old})" and "episodes_ok (w_episodes db')"
    and "unique_on se_id (w_episodes db')" and "list_all (\<lambda>e. se_id e < w_next db') (w_episodes db')"
    and "w_next db' = w_next db" and "w_matters db' = w_matters db" and "w_actions db' = w_actions db"
    and "w_follow_ups db' = w_follow_ups db"
proof -
  let ?rows = "update_where (\<lambda>r. se_id r = se_id e) (\<lambda>_. e) (w_episodes db)"
  have db': "episodes_ok ?rows" "db' = db\<lparr>w_episodes := ?rows\<rparr>"
    using assms(1) by (simp_all add: save_episode_def store_episodes_Inr)
  have u: "unique_on se_id (w_episodes db)" using assms(2) by (simp add: stage_inv_def)
  have rows: "set ?rows = insert e (set (w_episodes db) - {old})" by (rule in_saved [OF u assms(3,4)])
  then show "set (w_episodes db') = insert e (set (w_episodes db) - {old})" "episodes_ok (w_episodes db')"
    using db' by simp_all
  show "unique_on se_id (w_episodes db')" using u by (simp add: db'(2)) (subst unique_on_update, simp_all)
  show "list_all (\<lambda>e. se_id e < w_next db') (w_episodes db')"
    using assms(2-4) rows by (auto simp: db'(2) list_all_iff stage_inv_def)
qed (use assms(1) in \<open>auto simp: save_episode_def store_episodes_Inr\<close>)

lemma open_stage_episode_turns:
  assumes t: "turned m None db db1"
  shows "yields (open_stage_episode m s origin at db1) (\<lambda>(e, db2). turned m (Some s) db db2)"
proof (rule yieldsI, clarify)
  fix e db2 assume "open_stage_episode m s origin at db1 = Inr (e, db2)"
  then have e: "se_id e = w_next db1" "se_matter e = m" "se_stage e = s" and ok: "episodes_ok (w_episodes db1 @ [e])"
      and db2: "db2 = db1\<lparr>w_next := Suc (w_next db1), w_episodes := w_episodes db1 @ [e]\<rparr>"
    by (auto simp: open_stage_episode_def create_episode_def Let_def and_then_eq_Inr store_episodes_Inr)
  have u: "unique_on se_id (w_episodes db1)" and less: "\<And>r. r \<in> set (w_episodes db1) \<Longrightarrow> se_id r < w_next db1"
    using t by (simp_all add: turned_def list_all_iff)
  have "w_next db1 \<notin> se_id ` set (w_episodes db1)"
  proof
    assume "w_next db1 \<in> se_id ` set (w_episodes db1)"
    then obtain r where "r \<in> set (w_episodes db1)" "se_id r = w_next db1" by auto
    then show False using less [of r] by simp
  qed
  then have "unique_on se_id (w_episodes db1 @ [e])" using u by (simp add: unique_on_snoc e(1))
  moreover have "list_all (\<lambda>r. se_id r < Suc (w_next db1)) (w_episodes db1 @ [e])"
    using less by (simp add: e(1) list_all_iff less_SucI)
  moreover have "{r \<in> set (w_episodes db1 @ [e]). se_current r}
      \<subseteq> {r \<in> set (w_episodes db). se_matter r \<noteq> m} \<union> {r. se_matter r = m \<and> Some (se_stage r) = Some s}"
    using t e(2,3) unfolding turned_def by auto
  moreover have "{r \<in> set (w_episodes db). se_matter r \<noteq> m \<or> \<not> se_current r} \<subseteq> set (w_episodes db1 @ [e])"
    using t unfolding turned_def by auto
  ultimately show "turned m (Some s) db db2" using t ok unfolding turned_def db2 by simp
qed

lemma turn_stage_episode_turns:
  assumes inv: "stage_inv db"
  shows "yields (turn_stage_episode now m stage origin db) (turned m stage db)"
  unfolding turn_stage_episode_def
proof (rule yields_then [where Q = "turned m None db"], goal_cases)
  case 1
  show ?case
  proof (rule yields_option, goal_cases)
    case 1
    then show ?case using inv by (auto simp: turned_def stage_inv_def current_stage_episode_def first_where_None)
  next
    case (2 e)
    then have e: "e \<in> set (w_episodes db)" "se_matter e = m" "se_current e" by (auto simp: current_stage_episode_def)
    have "unique_when se_current se_matter (w_episodes db)" using inv by (simp add: stage_inv_def episodes_ok_def)
    then have only: "r = e" if "r \<in> set (w_episodes db)" "se_current r" "se_matter r = m" for r
      using unique_whenD that e by metis
    show ?case
    proof (rule yieldsI)
      fix db1 assume s: "save_episode (e\<lparr>se_current := False, se_ended_at := if origin = RECORDED then Some now else None\<rparr>) db = Inr db1"
      note rows = save_episode_rows [OF s inv e(1), simplified]
      have "{r \<in> set (w_episodes db). se_matter r \<noteq> m \<or> \<not> se_current r} \<subseteq> set (w_episodes db1)"
        unfolding rows(1) using e by blast
      moreover have "r \<in> set (w_episodes db) \<and> se_matter r \<noteq> m" if "r \<in> set (w_episodes db1)" "se_current r" for r
      proof -
        have "r \<noteq> e\<lparr>se_current := False, se_ended_at := if origin = RECORDED then Some now else None\<rparr>"
          using that(2) by auto
        then have "r \<in> set (w_episodes db)" "r \<noteq> e" using that(1) unfolding rows(1) by blast+
        then show ?thesis using only that(2) by blast
      qed
      then have "{r \<in> set (w_episodes db1). se_current r}
          \<subseteq> {r \<in> set (w_episodes db). se_matter r \<noteq> m} \<union> {r. se_matter r = m \<and> Some (se_stage r) = None}"
        by blast
      ultimately show "turned m None db db1" unfolding turned_def using rows(2-8) by simp
    qed
  qed
next
  case (2 db1)
  show ?case
  proof (rule yields_option, use 2 in simp, goal_cases)
    case (1 s)
    show ?case unfolding 1 by (rule yields_then2 [OF open_stage_episode_turns [OF 2(2)]]) (simp add: 1)
  qed
qed

text \<open>A change of the stage: the invariant, and every earlier period as it was.\<close>

lemma closed_now_continues:
  assumes "closed_now i su db db'"
  shows "continuations db' \<subseteq> continuations db \<union> {(k, j). k = i \<and> su = Some j}"
proof -
  obtain old m where "mt_id m = i" "mt_superseded_by m = su" "set (w_matters db') = insert m (set (w_matters db) - {old})"
    using assms unfolding closed_now_def by blast
  then show ?thesis using continuations_saved [of db' m db old] by simp
qed

lemma continuations_event [simp]:
  "continuations (record_change_event now t j actor obj s pl db) = continuations db"
  by (simp add: continuations_def)

definition stage_kept :: "row_id \<Rightarrow> work_db \<Rightarrow> work_db \<Rightarrow> bool" where
  "stage_kept i db db' \<longleftrightarrow> workflow_inv db' \<and> stage_inv db' \<and> ended_rows db \<subseteq> set (w_actions db')
     \<and> continuations db' \<subseteq> continuations db
     \<and> {e \<in> set (w_episodes db). se_matter e \<noteq> i \<or> \<not> se_current e} \<subseteq> set (w_episodes db')"

lemma stage_inv_event [simp]: "stage_inv (record_change_event now t j actor obj s pl db) = stage_inv db"
  by (simp add: stage_inv_def)

lemma turned_continues: "turned m stage db db' \<Longrightarrow> continuations db' = continuations db"
  by (simp add: turned_def continuations_def)

lemma in_continuations: "m \<in> set (w_matters db) \<Longrightarrow> mt_superseded_by m = Some j \<Longrightarrow> (mt_id m, j) \<in> continuations db"
  by (auto simp: continuations_def)

lemma turned_inv: "turned m stage db db' \<Longrightarrow> work_inv X F db \<Longrightarrow> work_inv X F db'"
  by (rule work_inv_cong [of _ db]) (auto simp: turned_def)

lemma turned_stage:
  assumes t: "turned i stage db db1" and st: "stage_inv db" and m: "m \<in> set (w_matters db2)" "mt_id m = i" "mt_stage m = stage"
    and rest: "\<And>r. r \<in> set (w_matters db) \<Longrightarrow> mt_id r \<noteq> i \<Longrightarrow> r \<in> set (w_matters db2)"
    and same: "w_episodes db2 = w_episodes db1" "w_next db2 = w_next db1"
  shows "stage_inv db2"
proof -
  have "\<exists>r \<in> set (w_matters db2). mt_id r = se_matter e \<and> mt_stage r = Some (se_stage e)"
    if e: "e \<in> set (w_episodes db1)" "se_current e" for e
  proof -
    have "e \<in> set (w_episodes db) \<and> se_matter e \<noteq> i \<or> se_matter e = i \<and> Some (se_stage e) = stage"
      using t e unfolding turned_def by blast
    then show ?thesis
    proof
      assume "e \<in> set (w_episodes db) \<and> se_matter e \<noteq> i"
      then obtain r where "r \<in> set (w_matters db)" "mt_id r = se_matter e" "mt_stage r = Some (se_stage e)" "mt_id r \<noteq> i"
        using st e(2) unfolding stage_inv_def by metis
      then show ?thesis using rest by blast
    next
      assume "se_matter e = i \<and> Some (se_stage e) = stage"
      then show ?thesis using m by auto
    qed
  qed
  then show ?thesis using t same by (simp add: stage_inv_def turned_def)
qed

lemma move_locked_stage_keeps:
  assumes inv: "workflow_inv db" "stage_inv db" and m: "m \<in> set (w_matters db)"
  shows "yields (move_locked_stage now m stage actor origin db) (\<lambda>(mv, db'). stage_kept (mt_id m) db db')"
  unfolding move_locked_stage_def Let_def
proof (rule yields_if, goal_cases)
  case 1
  then show ?case using inv by (auto simp: stage_kept_def)
next
  case 2
  show ?case
  proof (rule yields_then [OF turn_stage_episode_turns [OF inv(2)]], rule yields_seq, goal_cases)
    case (1 db1 db2)
    let ?m = "m\<lparr>mt_stage := stage\<rparr>"
    have t: "turned (mt_id m) stage db db1" by (rule 1(2))
    have inv1: "workflow_inv db1" using turned_inv [OF t inv(1)] .
    have m1: "m \<in> set (w_matters db1)" using t m by (simp add: turned_def)
    note rows = save_matter_rows [OF 1(3) inv_tables [OF inv1] m1, simplified]
    have inv2: "workflow_inv db2" by (rule save_matter_inv [OF 1(3) inv1 m1]) simp_all
    have "r \<noteq> m" if "mt_id r \<noteq> mt_id m" for r using that by auto
    then have "stage_inv db2"
      using t by (intro turned_stage [OF t inv(2), of ?m]) (auto simp: rows turned_def)
    moreover have "continuations db2 \<subseteq> continuations db"
      using continuations_saved [OF rows(1)] in_continuations [OF m] turned_continues [OF t] by auto
    ultimately show ?case using inv2 t by (simp add: stage_kept_def turned_def rows ended_rows_def)
  qed
qed

lemma move_stage_keeps:
  assumes "workflow_inv db" "stage_inv db"
  shows "yields (move_stage now i stage actor origin db) (\<lambda>(mv, db'). stage_kept i db db')"
  unfolding move_stage_def
proof (rule yields_seq, rule yields_ensure, goal_cases)
  case (1 m)
  then show ?case using move_locked_stage_keeps [OF assms, of m] by (auto dest: lock_matter_Inr)
qed

lemma close_matter_for_terminal_stage_keeps:
  assumes "workflow_inv db" "stage_inv db"
  shows "yields (close_matter_for_terminal_stage digest sees now m actor c db)
           (\<lambda>(b, db'). workflow_inv db' \<and> stage_inv db' \<and> w_episodes db' = w_episodes db
              \<and> ended_rows db \<subseteq> set (w_actions db') \<and> continuations db' \<subseteq> continuations db)"
  unfolding close_matter_for_terminal_stage_def
proof (rule yields_option, simp add: assms, rule yields_if, simp add: assms,
    rule yields_then2 [OF close_matter_closes [OF assms(1)]], goal_cases)
  case (1 s r db1)
  then have c: "closed_now (mt_id m) None db db1" by simp
  from closed_now_stage [OF c assms(2)] closed_now_continues [OF c] c show ?case by (simp add: closed_now_def)
qed

lemma change_stage_keeps:
  assumes "workflow_inv db" "stage_inv db"
  shows "yields (change_stage digest sees now i stage actor origin c db) (stage_kept i db)"
  unfolding change_stage_def
proof (rule yields_then2 [OF move_stage_keeps [OF assms]], rule yields_if, goal_cases)
  case (1 mv db1)
  then have inv1: "workflow_inv db1" "stage_inv db1" by (auto simp: stage_kept_def)
  show ?case
    by (rule yields_seq, rule yields_then2 [OF close_matter_for_terminal_stage_keeps [OF inv1]]) (use 1(2) in \<open>auto simp: stage_kept_def dest: subsetD [OF ended_rows_kept] subsetD\<close>)
qed simp

lemma ensure_current_stage_episode_keeps:
  assumes "workflow_inv db" "stage_inv db" and m: "m \<in> set (w_matters db)"
  shows "yields (ensure_current_stage_episode m db) (stage_kept (mt_id m) db)"
  unfolding ensure_current_stage_episode_def
proof (rule yields_option, goal_cases)
  case (2 s)
  show ?case
  proof (rule yields_option, goal_cases)
    case 1
    then have "turned (mt_id m) None db db"
      using assms(2) by (auto simp: turned_def stage_inv_def current_stage_episode_def first_where_None)
    then show ?case
    proof (rule yields_then2 [OF open_stage_episode_turns], goal_cases)
      case (1 e db1)
      have t: "turned (mt_id m) (Some s) db db1" by (rule 1(2))
      have "stage_inv db1"
        by (rule turned_stage [OF t assms(2), of m]) (use t m 2 in \<open>simp_all add: turned_def\<close>)
      then show ?case using turned_inv [OF t assms(1)] turned_continues [OF t] t by (simp add: stage_kept_def turned_def)
    qed
  qed (use assms in \<open>auto simp: stage_kept_def\<close>)
qed (use assms in \<open>auto simp: stage_kept_def\<close>)

lemma stage_kept_event [simp]:
  "stage_kept i db (record_change_event now t j actor obj s pl db') = stage_kept i db db'"
  by (simp add: stage_kept_def stage_inv_def)

lemma reopen_matter_keeps:
  assumes "workflow_inv db" "stage_inv db"
  shows "yields (reopen_matter now i actor reason db) (stage_kept i db)"
  unfolding reopen_matter_def Let_def
proof (rule yields_seq, rule yields_ensure, rule yields_seq, goal_cases)
  case (1 m db1)
  then have m: "m \<in> set (w_matters db)" "mt_id m = i" by (auto dest: lock_matter_Inr)
  let ?m = "m\<lparr>mt_open := True, mt_disposition := None, mt_disposition_reason := [], mt_closed_at := None,
               mt_closed_by := None, mt_superseded_by := None\<rparr>"
  note rows = save_matter_rows [OF 1(3) inv_tables [OF assms(1)] m(1), simplified]
  have inv1: "workflow_inv db1" by (rule save_matter_inv [OF 1(3) assms(1) m(1)]) simp_all
  have "\<exists>r \<in> set (w_matters db1). mt_id r = mt_id x \<and> mt_stage r = mt_stage x" if "x \<in> set (w_matters db)" for x
    using that unfolding rows(1) by (cases "x = m") auto
  then have st1: "stage_inv db1" by (intro stage_inv_cong [OF assms(2)]) (simp_all add: rows)
  have co: "continuations db1 \<subseteq> continuations db" using continuations_saved [OF rows(1)] by simp
  have "?m \<in> set (w_matters db1)" by (simp add: rows(1))
  then show ?case
    by (rule yields_then [OF ensure_current_stage_episode_keeps [OF inv1 st1]])
      (use m(2) rows(3,7) order_trans [OF _ co] in \<open>simp add: stage_kept_def ended_rows_def\<close>)
qed


section \<open>The chain of continuations\<close>

lemma walk_closed:
  assumes "refuse_cycle_from db closing seen n step = Inr ()" and t: "tables_ok db"
    and "step \<in> set (w_matters db)" and "mt_id step \<in> set seen" and "closing \<notin> set seen"
    and "\<And>a b. a \<in> set seen \<Longrightarrow> a \<noteq> mt_id step \<Longrightarrow> (a, b) \<in> continuations db \<Longrightarrow> b \<in> set seen"
  shows "\<exists>S. set seen \<subseteq> S \<and> closing \<notin> S \<and> (\<forall>a b. a \<in> S \<longrightarrow> (a, b) \<in> continuations db \<longrightarrow> b \<in> S)"
  using assms(1,3-6)
proof (induction n arbitrary: seen step)
  case (Suc n)
  have after: "mt_superseded_by step = Some b" if edge: "(mt_id step, b) \<in> continuations db" for b
  proof -
    obtain m where "m \<in> set (w_matters db)" "mt_id m = mt_id step" "mt_superseded_by m = Some b"
      using edge by (auto simp: continuations_def)
    then show ?thesis using only_matter [OF t Suc.prems(2), of m] by simp
  qed
  show ?case
  proof (cases "mt_superseded_by step")
    case None
    then show ?thesis using Suc.prems(4,5) after by (intro exI [of _ "set seen"]) fastforce
  next
    case (Some k)
    show ?thesis
    proof (cases "k \<in> set seen")
      case True
      then show ?thesis using Suc.prems(4,5) after Some by (intro exI [of _ "set seen"]) fastforce
    next
      case False
      then obtain m where m: "matter_row db k = Some m" "refuse_cycle_from db closing (k # seen) n m = Inr ()" and k: "k \<noteq> closing"
        using Suc.prems(1) Some by (auto split: if_splits option.splits)
      have "\<exists>S. set (k # seen) \<subseteq> S \<and> closing \<notin> S \<and> (\<forall>a b. a \<in> S \<longrightarrow> (a, b) \<in> continuations db \<longrightarrow> b \<in> S)"
      proof (rule Suc.IH [OF m(2)])
        fix a b assume "a \<in> set (k # seen)" "a \<noteq> mt_id m" "(a, b) \<in> continuations db"
        then show "b \<in> set (k # seen)" using matter_row_Some [OF m(1)] Suc.prems(5) after Some by fastforce
      qed (use matter_row_Some [OF m(1)] Suc.prems(4) k in auto)
      then show ?thesis by auto
    qed
  qed
qed simp

lemma closed_set_unreachable:
  assumes "a \<in> S" and "\<forall>a b. a \<in> S \<longrightarrow> (a, b) \<in> r \<longrightarrow> b \<in> S" and "c \<notin> S"
  shows "(a, c) \<notin> r\<^sup>*"
proof
  assume "(a, c) \<in> r\<^sup>*"
  then have "c \<in> S" by (induction rule: rtrancl_induct) (use assms in auto)
  with assms(3) show False ..
qed

lemma walk_reaches:
  assumes walk: "refuse_cycle_from db i [mt_id s] n s = Inr ()" and t: "tables_ok db" and s: "s \<in> set (w_matters db)" and "mt_id s \<noteq> i"
  shows "(mt_id s, i) \<notin> (continuations db)\<^sup>*"
proof -
  obtain S where "set [mt_id s] \<subseteq> S" "i \<notin> S" "\<forall>a b. a \<in> S \<longrightarrow> (a, b) \<in> continuations db \<longrightarrow> b \<in> S"
    using walk_closed [OF walk t s] assms(4) by auto
  then show ?thesis by (intro closed_set_unreachable [of "mt_id s" S]) auto
qed

lemma successor_unreachable:
  assumes "close_matter digest sees now i disp actor reason (Some j) c db = Inr (m, db')" and t: "tables_ok db"
  shows "(j, i) \<notin> (continuations db)\<^sup>*"
proof -
  obtain s where s: "matter_row db j = Some s" "refuse_cycle_from db i [mt_id s] cycle_check_hops s = Inr ()" and ne: "j \<noteq> i"
    using assms(1) by (auto simp: close_matter_def Let_def and_then_eq_Inr refuse_continuation_cycle_def split: option.splits if_splits)
  show ?thesis using walk_reaches [OF s(2) t] matter_row_Some [OF s(1)] ne by simp
qed

lemma close_matter_acyclic:
  assumes c: "close_matter digest sees now i disp actor reason su c db = Inr (m, db')"
    and inv: "workflow_inv db" and a: "acyclic (continuations db)"
  shows "acyclic (continuations db')"
proof -
  have sub: "continuations db' \<subseteq> continuations db \<union> {(k, j). k = i \<and> su = Some j}"
    using closed_now_continues yieldsD [OF close_matter_closes [OF inv] c] by simp
  show ?thesis
  proof (cases su)
    case None
    then show ?thesis using sub by (intro acyclic_subset [OF a]) auto
  next
    case (Some j)
    have "acyclic (insert (i, j) (continuations db))"
      using a successor_unreachable [OF c [unfolded Some] inv_tables [OF inv]] by (simp add: acyclic_insert)
    then show ?thesis by (rule acyclic_subset) (use sub Some in auto)
  qed
qed

end
