(* ===== verification/WorkMachine.thy ===== *)
theory WorkMachine
  imports ClosureServices
begin

text \<open>
  The workflow as a whole: one constructor per service, with the arguments of a call, and what the
  rest of the application does to the same tables meanwhile. A service that raises leaves the state
  as it was (its transaction is rolled back). The laws of \<open>Interfaces\<close> are discharged here on
  \<open>work_step\<close>, so that they hold after every history of calls, in every order.
\<close>

section \<open>The operations\<close>

record work_config =
  wc_zone :: "instant \<Rightarrow> date"
  wc_closure_digest :: "work_token list \<Rightarrow> string"
  wc_plan_digest :: "(row_id \<times> instant) list \<Rightarrow> string"
  wc_sees :: "row_id option \<Rightarrow> row_id \<Rightarrow> bool"

datatype (plugins only: code) work_op =
    SetNextAction instant row_id step_request
  | SetNextActionForNewWork instant row_id step_request
  | PrepareOpinion instant row_id "date option" "row_id option" "row_id option"
  | CompleteAction instant "row_id option" bool row_id
  | CancelAction instant "row_id option" string "payload option" row_id
  | AcknowledgeReview instant "row_id option" "date option" date_precision string row_id
  | AddPlanned instant row_id "string option" "date option" "row_id option" "row_id option" date_precision
  | ChangePlanned instant row_id row_id "string option" "date option" "row_id option"
  | CancelPlanned instant row_id row_id "row_id option"
  | FinishPlanned instant row_id row_id "row_id option"
  | PromotePlanned instant row_id "row_id option"
  | ScheduleFirstCheck instant row_id "row_id option"
  | RescheduleCheck instant row_id row_id "date option" "row_id option"
  | CompleteCheck instant row_id row_id "follow_up_outcome option" "row_id option" "date option" "string option"
  | RestartFollowUp instant row_id row_id "date option" "row_id option"
  | CancelChecks instant row_id "row_id option" string
  | CorrectRecipients row_id
  | CorrectSentDate instant row_id "row_id option"
  | SeedPlan instant row_id "row_id option" plan_template "string option"
  | SkipStep instant row_id "row_id option" "string option"
  | ActivateStep instant row_id row_id "row_id option" "string option" "date option" date_precision "row_id option"
  | FulfilStep instant row_id row_id step_operation row_id "row_id option"
  | ChangeCurrent instant row_id row_id step_request
  | AddUnnamedStep instant row_id "row_id option" string "date option" date_precision "row_id option"
  | ShiftDate instant row_id row_id "row_id option" string date "date option"
  | CloseMatter instant row_id "disposition option" "row_id option" string "row_id option" closure_confirmation
  | ChangeStage instant row_id "stage_row option" "row_id option" episode_origin closure_confirmation
  | ReopenMatter instant row_id "row_id option" string
  | RetireArchive instant row_id "row_id option" "payload option"
  | EditAccounts "user list"
  | EditRecords "submission list" "overview list" "engagement list"
  | OpenMatter record_mode "row_id option"
  | EditMatter row_id "row_id option" "instant option"  \<comment> \<open>owner and deletion\<close>

definition done_with :: "work_db \<Rightarrow> ('a \<times> work_db) result \<Rightarrow> work_db" where
  \<comment> \<open>the state a service leaves: its own on success, the old one when it raised\<close>
  "done_with db r = (case r of Inl _ \<Rightarrow> db | Inr (_, db') \<Rightarrow> db')"

definition settled :: "work_db \<Rightarrow> work_db result \<Rightarrow> work_db" where
  "settled db r = (case r of Inl _ \<Rightarrow> db | Inr db' \<Rightarrow> db')"

fun work_step :: "work_config \<Rightarrow> work_db \<Rightarrow> work_op \<Rightarrow> work_db" where
  "work_step cf db (SetNextAction now m rq) = done_with db (set_next_action now m rq db)"
| "work_step cf db (SetNextActionForNewWork now m rq) = done_with db (set_next_action_for_new_work now m rq db)"
| "work_step cf db (PrepareOpinion now m d actor u) =
     done_with db (establish_opinion_preparation_action now m d actor u db)"
| "work_step cf db (CompleteAction now actor promote i) = done_with db (complete_next_action now actor promote i db)"
| "work_step cf db (CancelAction now actor reason pv i) = done_with db (cancel_next_action now actor reason pv i db)"
| "work_step cf db (AcknowledgeReview now actor d p note i) = done_with db (acknowledge_review now actor d p note i db)"
| "work_step cf db (AddPlanned now m raw d actor u p) = done_with db (add_planned_action now m raw d actor u p db)"
| "work_step cf db (ChangePlanned now m i raw d actor) = done_with db (change_planned_action now m i raw d actor db)"
| "work_step cf db (CancelPlanned now m i actor) = done_with db (cancel_planned_action now m i actor db)"
| "work_step cf db (FinishPlanned now m i actor) =
     done_with db (and_then (locked_planned m i db) (\<lambda>a. finish_planned_action now actor a db))"
| "work_step cf db (PromotePlanned now m actor) = done_with db (promote_next_planned_action now m actor db)"
| "work_step cf db (ScheduleFirstCheck now s actor) = done_with db (schedule_first_check (wc_zone cf) now s actor db)"
| "work_step cf db (RescheduleCheck now m i d actor) = done_with db (reschedule_check (wc_zone cf) now m i d actor db)"
| "work_step cf db (CompleteCheck now m i outcome actor d reason) =
     done_with db (and_then (lock_open_matter_for_business_write m db) (\<lambda>r.
       and_then (locked_check (mt_id r) i db) (\<lambda>a. complete_check (wc_zone cf) now a outcome actor d reason db)))"
| "work_step cf db (RestartFollowUp now m i d actor) = done_with db (restart_follow_up (wc_zone cf) now m i d actor db)"
| "work_step cf db (CancelChecks now s actor reason) =
     done_with db (and_then (lock_submission s db) (\<lambda>r. cancel_checks_of_submission now r actor reason db))"
| "work_step cf db (CorrectRecipients s) =
     done_with db (and_then (lock_submission s db) (\<lambda>r. follow_recipient_correction r db))"
| "work_step cf db (CorrectSentDate now s actor) =
     done_with db (and_then (lock_submission s db) (\<lambda>r. follow_sent_date_correction (wc_zone cf) now r actor db))"
| "work_step cf db (SeedPlan now m actor t expected) =
     done_with db (seed_standard_plan (wc_plan_digest cf) now m actor t expected db)"
| "work_step cf db (SkipStep now i actor expected) =
     done_with db (and_then (find_step (w_steps db) i) (\<lambda>s. skip_plan_step (wc_plan_digest cf) now s actor expected db))"
| "work_step cf db (ActivateStep now m i actor raw d p u) = done_with db (activate_plan_step now m i actor raw d p u db)"
| "work_step cf db (FulfilStep now m i operation record_id actor) =
     done_with db (and_then (lock_open_matter_for_business_write m db) (\<lambda>r.
       and_then (launched_step (mt_id r) i operation db) (\<lambda>l. fulfil_launched_step now l record_id actor db)))"
| "work_step cf db (ChangeCurrent now m i rq) = done_with db (change_current_action now m i rq db)"
| "work_step cf db (AddUnnamedStep now m actor txt d p u) = done_with db (add_unnamed_step now m actor txt d p u db)"
| "work_step cf db (ShiftDate now m i actor key source proposed) =
     done_with db (shift_action_date now m i actor key source proposed db)"
| "work_step cf db (CloseMatter now i disp actor reason successor c) =
     done_with db (close_matter (wc_closure_digest cf) (wc_sees cf) now i disp actor reason successor c db)"
| "work_step cf db (ChangeStage now i stage actor origin c) =
     settled db (change_stage (wc_closure_digest cf) (wc_sees cf) now i stage actor origin c db)"
| "work_step cf db (ReopenMatter now i actor reason) = settled db (reopen_matter now i actor reason db)"
| "work_step cf db (RetireArchive now i actor pv) = settled db (mark_historical_archive_inactive now i actor pv db)"
| "work_step cf db (EditAccounts us) = db\<lparr>w_users := us\<rparr>"
| "work_step cf db (EditRecords ss os es) = db\<lparr>w_submissions := ss, w_overviews := os, w_engagements := es\<rparr>"
| "work_step cf db (OpenMatter mode owner) =
     (if w_next db \<in> mt_id ` set (w_matters db) then db
      else db\<lparr>w_next := Suc (w_next db), w_matters := w_matters db @
        [\<lparr>mt_id = w_next db, mt_mode = mode, mt_open = True, mt_owner = owner, mt_stage = None,
          mt_disposition = None, mt_disposition_reason = [], mt_closed_at = None, mt_closed_by = None,
          mt_superseded_by = None, mt_deleted_at = None\<rparr>]\<rparr>)"
| "work_step cf db (EditMatter i owner deleted) =
     db\<lparr>w_matters := update_where (\<lambda>m. mt_id m = i)
       (\<lambda>m. m\<lparr>mt_owner := owner, mt_deleted_at := deleted\<rparr>) (w_matters db)\<rparr>"

definition empty_work :: work_db where
  "empty_work = \<lparr>w_users = [], w_matters = [], w_actions = [], w_steps = [], w_follow_ups = [],
     w_submissions = [], w_overviews = [], w_engagements = [], w_episodes = [], w_events = [], w_next = 0\<rparr>"

definition work_history :: "work_config \<Rightarrow> work_op list \<Rightarrow> work_db" where
  "work_history cf ops = foldl (work_step cf) empty_work ops"

section \<open>Every operation keeps the invariant\<close>

definition work_ok :: "work_db \<Rightarrow> bool" where
  "work_ok db \<longleftrightarrow> workflow_inv db \<and> stage_inv db \<and> acyclic (continuations db)"

text \<open>One step: the invariant, and no ended action touched.\<close>

definition good_step :: "work_db \<Rightarrow> work_db \<Rightarrow> bool" where
  "good_step db db' \<longleftrightarrow> work_ok db' \<and> ended_rows db \<subseteq> set (w_actions db')"

lemma good_refl: "work_ok db \<Longrightarrow> good_step db db"
  by (simp add: good_step_def)

lemma beside_continues: "beside db db' \<Longrightarrow> continuations db' = continuations db"
  by (simp add: beside_def continuations_def)

lemma keeps_good: "work_ok db \<Longrightarrow> keeps {} {} db db' \<Longrightarrow> good_step db db'"
  using keeps_stage [of db db'] beside_continues [of db db']
  by (simp add: good_step_def work_ok_def keeps_def) (simp add: beside_def)

lemma done_good:
  assumes "work_ok db" and "workflow_inv db \<Longrightarrow> yields r (\<lambda>(a, db'). keeps {} {} db db')"
  shows "good_step db (done_with db r)"
  using assms keeps_good [OF assms(1)] by (auto simp: done_with_def good_refl yields_def work_ok_def split: sum.splits)

lemma done_closed:
  assumes "work_ok db"
  shows "good_step db (done_with db (close_matter digest sees now i disp actor reason su c db))"
proof (cases "close_matter digest sees now i disp actor reason su c db")
  case (Inr p)
  obtain m db' where p: "p = (m, db')" by (cases p)
  have inv: "workflow_inv db" "stage_inv db" "acyclic (continuations db)" using assms by (simp_all add: work_ok_def)
  have "closed_now i su db db'" using yieldsD [OF close_matter_closes [OF inv(1)] Inr] by (simp add: p)
  moreover have "acyclic (continuations db')" by (rule close_matter_acyclic [OF Inr [unfolded p] inv(1,3)])
  ultimately show ?thesis using closed_now_stage [of i su db db'] inv(2)
    by (simp add: Inr p good_step_def done_with_def work_ok_def closed_now_def)
qed (simp add: done_with_def good_refl assms)

lemma settled_good:
  assumes "work_ok db" and "yields r (\<lambda>db'. good_step db db')"
  shows "good_step db (settled db r)"
  using assms by (auto simp: settled_def good_refl yields_def split: sum.splits)

lemma stage_kept_good: "work_ok db \<Longrightarrow> stage_kept i db db' \<Longrightarrow> good_step db db'"
  by (auto simp: stage_kept_def good_step_def work_ok_def intro: acyclic_subset)

lemma retired_good:
  assumes ok: "work_ok db" and "\<exists>su. closed_now i su db db' \<and> (\<exists>m \<in> set (w_matters db). mt_id m = i \<and> mt_superseded_by m = su)"
  shows "good_step db db'"
proof -
  obtain su m where c: "closed_now i su db db'" and m: "m \<in> set (w_matters db)" "mt_id m = i" "mt_superseded_by m = su"
    using assms(2) by blast
  have "continuations db' \<subseteq> continuations db" using closed_now_continues [OF c] in_continuations [OF m(1)] m by auto
  then have "acyclic (continuations db')" using ok by (auto simp: work_ok_def intro: acyclic_subset)
  then show ?thesis using closed_now_stage [OF c] c ok by (simp add: good_step_def work_ok_def closed_now_def)
qed

lemmas services_keep = set_next_action_keeps set_next_action_for_new_work_keeps
  establish_opinion_preparation_action_keeps complete_next_action_keeps acknowledge_review_keeps
  add_planned_action_keeps change_planned_action_keeps cancel_planned_action_keeps
  promote_next_planned_action_keeps schedule_first_check_keeps reschedule_check_keeps
  restart_follow_up_keeps seed_standard_plan_keeps activate_plan_step_keeps
  change_current_action_keeps add_unnamed_step_keeps shift_action_date_keeps

lemma cancel_action_keeps:
  "work_inv X F db \<Longrightarrow> yields (cancel_next_action now actor reason pv i db) (\<lambda>(a, db'). keeps X F db db')"
  by (rule yields_mono [OF cancel_next_action_keeps]) auto

lemma named_row_keeps:
  assumes "workflow_inv db"
  shows "yields (and_then (locked_planned m i db) (\<lambda>a. finish_planned_action now actor a db)) (\<lambda>(a, db'). keeps {} {} db db')"
    and "yields (and_then (lock_open_matter_for_business_write m db) (\<lambda>r.
       and_then (locked_check (mt_id r) i db) (\<lambda>a. complete_check zone now a outcome actor d reason db))) (\<lambda>(a, db'). keeps {} {} db db')"
    and "yields (and_then (lock_submission s db) (\<lambda>r. cancel_checks_of_submission now r actor reason' db)) (\<lambda>(a, db'). keeps {} {} db db')"
    and "yields (and_then (lock_submission s db) (\<lambda>r. follow_recipient_correction r db)) (\<lambda>(a, db'). keeps {} {} db db')"
    and "yields (and_then (lock_submission s db) (\<lambda>r. follow_sent_date_correction zone now r actor db)) (\<lambda>(a, db'). keeps {} {} db db')"
    and "yields (and_then (find_step (w_steps db) i) (\<lambda>s. skip_plan_step digest now s actor expected db)) (\<lambda>(a, db'). keeps {} {} db db')"
    and "yields (and_then (lock_open_matter_for_business_write m db) (\<lambda>r.
       and_then (launched_step (mt_id r) i operation db) (\<lambda>l. fulfil_launched_step now l record_id actor db))) (\<lambda>(a, db'). keeps {} {} db db')"
  by (intro yields_seq finish_planned_action_keeps complete_check_keeps cancel_checks_of_submission_keeps
      follow_recipient_correction_keeps follow_sent_date_correction_keeps skip_plan_step_keeps
      fulfil_launched_step_keeps assms; auto dest: locked_planned_Inr locked_check_Inr)+

lemma edit_matter_inv:
  assumes "work_ok db"
  shows "work_ok (db\<lparr>w_matters := update_where (\<lambda>m. mt_id m = i) (\<lambda>m. m\<lparr>mt_owner := owner, mt_deleted_at := deleted\<rparr>) (w_matters db)\<rparr>)"
    (is "work_ok ?db'")
proof -
  have "open_matters ?db' = open_matters db"
    unfolding open_matters_def set_eq_iff in_image_where
    by (simp add: bex_update_where if_distrib [where f = mt_id] if_distrib [where f = mt_open] cong: if_cong)
  moreover have "unique_on mt_id (w_matters ?db') = unique_on mt_id (w_matters db)"
    by (simp add: unique_on_update)
  ultimately have "workflow_inv ?db'"
    using assms by (simp add: work_ok_def work_inv_def tables_ok_def live_matters_def live_checks_def monitored_def)
  moreover have "stage_inv ?db'"
  proof (rule stage_inv_cong [of db])
    fix m assume "m \<in> set (w_matters db)"
    then show "\<exists>r \<in> set (w_matters ?db'). mt_id r = mt_id m \<and> mt_stage r = mt_stage m"
      by (simp add: bex_update_where) (rule bexI [of _ m], simp_all)
  qed (use assms in \<open>simp_all add: work_ok_def\<close>)
  moreover have "continuations ?db' = continuations db"
    unfolding continuations_def
    by (simp add: bex_update_where if_distrib [where f = mt_id] if_distrib [where f = mt_superseded_by] cong: if_cong)
  ultimately show ?thesis using assms by (simp add: work_ok_def)
qed

lemma open_matter_inv:
  assumes "work_ok db" and "w_next db \<notin> mt_id ` set (w_matters db)" and m: "mt_id m = w_next db" "mt_open m" "mt_superseded_by m = None"
  shows "work_ok (db\<lparr>w_next := Suc (w_next db), w_matters := w_matters db @ [m]\<rparr>)" (is "work_ok ?db'")
proof -
  have "open_matters db \<subseteq> open_matters ?db'" by (auto simp: open_matters_def)
  moreover have "list_all (\<lambda>a. na_id a < Suc (w_next db)) (w_actions db)" "list_all (\<lambda>f. fu_id f < Suc (w_next db)) (w_follow_ups db)"
    using tables_fresh [of db] assms(1) by (auto simp: work_ok_def work_inv_def list_all_iff less_SucI)
  moreover have "unique_on mt_id (w_matters db @ [m])" using assms by (simp add: unique_on_snoc work_ok_def work_inv_def tables_ok_def)
  ultimately have "workflow_inv ?db'"
    using assms(1) by (auto simp: work_ok_def work_inv_def tables_ok_def live_matters_def live_checks_def monitored_def)
  moreover have "stage_inv ?db'" by (rule stage_inv_cong [of db]) (use assms(1) in \<open>auto simp: work_ok_def\<close>)
  moreover have "continuations ?db' = continuations db" using m(3) by (auto simp: continuations_def)
  ultimately show ?thesis using assms(1) by (simp add: work_ok_def)
qed

lemma edit_others_inv:
  "work_ok (db\<lparr>w_users := us\<rparr>) = work_ok db"
  "work_ok (db\<lparr>w_submissions := ss, w_overviews := os, w_engagements := es\<rparr>) = work_ok db"
  by (simp_all add: work_ok_def work_inv_def tables_ok_def live_matters_def open_matters_def live_checks_def
    monitored_def stage_inv_def continuations_def)

lemma work_step_good:
  assumes ok: "work_ok db"
  shows "good_step db (work_step cf db e)"
proof -
  have inv: "workflow_inv db" "stage_inv db" using ok by (simp_all add: work_ok_def)
  show ?thesis
  proof (cases e)
    case (CloseMatter now i disp actor reason successor c)
  then show ?thesis by (simp add: done_closed [OF ok])
next
  case (ChangeStage now i stage actor origin c)
  then show ?thesis
    by (simp add: settled_good [OF ok yields_mono [OF change_stage_keeps [OF inv] stage_kept_good [OF ok]]])
next
  case (ReopenMatter now i actor reason)
  then show ?thesis
    by (simp add: settled_good [OF ok yields_mono [OF reopen_matter_keeps [OF inv] stage_kept_good [OF ok]]])
next
  case (RetireArchive now i actor pv)
  then show ?thesis
    by (simp add: settled_good [OF ok yields_mono [OF mark_historical_archive_inactive_closes [OF inv(1)] retired_good [OF ok]]])
next
  case (OpenMatter mode owner)
  then show ?thesis using ok open_matter_inv [OF ok] by (auto simp: good_step_def ended_rows_def)
next
  case (EditMatter i owner deleted)
  then show ?thesis using edit_matter_inv [OF ok] by (auto simp: good_step_def ended_rows_def)
qed (simp_all add: good_step_def [where db' = "db\<lparr>w_users := us\<rparr>" for us]
  good_step_def [where db' = "db\<lparr>w_submissions := ss, w_overviews := os, w_engagements := es\<rparr>" for ss os es]
  edit_others_inv ok done_good [OF ok] services_keep cancel_action_keeps named_row_keeps)
qed

section \<open>The laws of the interfaces\<close>

lemma empty_work_ok: "work_ok empty_work"
  by (simp add: work_ok_def work_inv_def tables_ok_def stage_inv_def empty_work_def live_matters_def open_matters_def
    live_checks_def monitored_def continuations_def acyclic_def actions_ok_def follow_ups_ok_def episodes_ok_def unique_on_def unique_when_def)

interpretation workflow: step_system "work_step cf" work_ok for cf
  using work_step_good by unfold_locales (simp add: good_step_def)

text \<open>An action that was completed, cancelled or superseded, by its key, and the row it is.\<close>

definition action_row :: "work_db \<Rightarrow> row_id \<Rightarrow> next_action option" where
  "action_row db i = first_action (\<lambda>a. na_id a = i) db"

definition action_ended :: "work_db \<Rightarrow> row_id \<Rightarrow> bool" where
  "action_ended db i \<longleftrightarrow> (case action_row db i of None \<Rightarrow> False | Some a \<Rightarrow> \<not> is_active a)"

lemma action_row_member: "work_ok db \<Longrightarrow> a \<in> set (w_actions db) \<Longrightarrow> action_row db (na_id a) = Some a"
  unfolding action_row_def first_action_def
  by (rule first_where_unique) (simp_all add: work_ok_def work_inv_def tables_ok_def)

lemma action_ended_kept:
  assumes ok: "work_ok db" and ended: "action_ended db i"
  shows "action_row (work_step cf db e) i = action_row db i"
proof -
  obtain a where a: "action_row db i = Some a" "\<not> is_active a"
    using ended by (auto simp: action_ended_def split: option.splits)
  then have "a \<in> set (w_actions db)" "na_id a = i" by (auto simp: action_row_def dest: first_action_Some)
  then have "a \<in> ended_rows db" using a(2) by (simp add: ended_rows_def)
  then have "a \<in> set (w_actions (work_step cf db e))" "work_ok (work_step cf db e)"
    using work_step_good [OF ok] by (auto simp: good_step_def)
  then show ?thesis using action_row_member [of "work_step cf db e" a] a(1) \<open>na_id a = i\<close> by simp
qed

interpretation ended_actions: final_rows "work_step cf" work_ok action_ended action_row for cf
  by unfold_locales (simp_all add: action_ended_def [of "work_step cf s e" for s e] action_ended_kept action_ended_def)

end
