(* ===== verification/WorkProperties.thy ===== *)
theory WorkProperties
  imports WorkMachine
begin

text \<open>
  What the services of the workflow promise together, over every history of calls: one current
  action, no work on a closed matter, checks in step with the monitoring they stand for, ended
  actions final, the chain of continuations free of cycles; what closing a matter ends and what it
  asks first; and the exact effect of the calls that change what is current.
\<close>

section \<open>A concrete history\<close>

definition example_work_config :: work_config where
  "example_work_config =
     \<lparr>wc_zone = \<lambda>_. Date 2026 5 4, wc_closure_digest = \<lambda>ts. replicate (length ts) CHR ''a'',
      wc_plan_digest = \<lambda>_. [], wc_sees = \<lambda>_ _. True\<rparr>"

definition example_work :: "work_op list" where
  "example_work =
     [EditAccounts [example_specialist],
      OpenMatter FULL (Some 1),
      SetNextAction 100 0 (plain_request '' Loe kaaskiri '' (Some (Date 2026 5 4)) (Some 1)),
      AddPlanned 110 0 (Some ''Koosta arvamus'') (Some (Date 2026 6 1)) (Some 1) None EXACT,
      AddPlanned 120 0 (Some ''Helista'') (Some (Date 2026 5 20)) (Some 1) None EXACT,
      SeedPlan 125 0 (Some 1) standard_plan None,
      SetNextAction 130 0 (plain_request ''Kohtu'' (Some (Date 2026 5 11)) (Some 1))]"

abbreviation example_db :: work_db where
  "example_db \<equiv> work_history example_work_config example_work"

lemma work_history_ok: "work_ok (work_history cf ops)"
  unfolding work_history_def by (rule workflow.run_inv [OF empty_work_ok])

lemma work_history_append: "work_history cf (ops @ later) = foldl (work_step cf) (work_history cf ops) later"
  by (simp add: work_history_def)

lemma work_ok_inv: "work_ok db \<Longrightarrow> workflow_inv db" "work_ok db \<Longrightarrow> stage_inv db" "work_ok db \<Longrightarrow> tables_ok db"
  by (auto simp: work_ok_def intro: inv_tables)

section \<open>After every history\<close>

text \<open>C5: after every sequence of calls, whatever order and whoever makes them: a matter has at
  most one current action, live actions stand only on open matters, a check is live exactly for
  the follow-ups still monitored, and no chain of continuations comes back to where it began.\<close>

theorem workflow_history:
  "unique_when (\<lambda>a. na_status a = Open) na_matter (w_actions (work_history cf ops))
     \<and> live_matters (work_history cf ops) \<subseteq> open_matters (work_history cf ops)
     \<and> live_checks (work_history cf ops) = monitored (work_history cf ops)
     \<and> unique_when se_current se_matter (w_episodes (work_history cf ops))
     \<and> acyclic (continuations (work_history cf ops))"
  using work_history_ok [of cf ops]
  by (simp add: work_ok_def work_inv_def tables_ok_def actions_ok_def stage_inv_def episodes_ok_def)

text \<open>C6: an action once completed, cancelled or superseded keeps its row exactly as it was when
  it ended, whatever is called afterwards.\<close>

theorem ended_action_final:
  assumes "action_ended (work_history cf ops) i"
  shows "action_row (work_history cf (ops @ later)) i = action_row (work_history cf ops) i
    \<and> action_ended (work_history cf (ops @ later)) i"
  unfolding work_history_append
  using ended_actions.view_forever [OF work_history_ok assms] ended_actions.final_forever [OF work_history_ok assms]
  by simp

lemma example_action_ended: "action_ended example_db 1"
  by code_simp

theorem ended_action_final_witness:
  "map_option na_status (action_row (work_history example_work_config (example_work @ [CompleteAction 200 (Some 1) True 8])) 1)
     = map_option na_status (action_row example_db 1)"
  using ended_action_final [OF example_action_ended, of "[CompleteAction 200 (Some 1) True 8]"] by simp

section \<open>Closing\<close>

text \<open>C7: closing a matter leaves nothing on it: no current, planned or monitoring action, no
  planned overview, no open wait for feedback; and the matter is closed, with every rule above
  still holding.\<close>

theorem closing_ends_everything:
  assumes "close_matter digest sees now i disp actor reason successor c db = Inr (m, db')" and "work_ok db"
  shows "nothing_owed i db' \<and> i \<notin> open_matters db' \<and> work_ok db'"
proof -
  have c: "closed_now i successor db db'"
    using yieldsD [OF close_matter_closes [OF work_ok_inv(1) [OF assms(2)]] assms(1)] by simp
  have "acyclic (continuations db')"
    using close_matter_acyclic [OF assms(1) work_ok_inv(1) [OF assms(2)]] assms(2) by (simp add: work_ok_def)
  then have "work_ok db'"
    using c closed_now_stage [OF c work_ok_inv(2) [OF assms(2)]] by (simp add: work_ok_def closed_now_def)
  moreover have "i \<notin> open_matters db'"
  proof -
    obtain old m where old: "old \<in> set (w_matters db)" "mt_id old = i" and m: "\<not> mt_open m"
        and rows: "set (w_matters db') = insert m (set (w_matters db) - {old})"
      using c unfolding closed_now_def by blast
    have "r = m" if "r \<in> set (w_matters db')" "mt_id r = i" for r
      using that old only_matter [OF work_ok_inv(3) [OF assms(2)] old(1), of r] unfolding rows by auto
    then show ?thesis unfolding open_matters_def using m by blast
  qed
  ultimately show ?thesis using c by (simp add: closed_now_def)
qed

definition example_closing :: "closure_confirmation \<Rightarrow> (work_matter \<times> work_db) result" where
  "example_closing c =
     close_matter (wc_closure_digest example_work_config) (wc_sees example_work_config) 300 0
       (Some COMPLETED) (Some 1) ''Arvamus saadetud'' None c example_db"

abbreviation example_warning :: closure_confirmation where
  "example_warning \<equiv> Warned ''aaaa''"

lemma example_closes:
  "done_with example_db (example_closing (Ticked True)) \<noteq> example_db"
  "done_with example_db (example_closing example_warning) \<noteq> example_db"
  "done_with example_db (example_closing (Ticked False)) = example_db"
  by code_simp+

lemma done_with_changed: "done_with db r \<noteq> db \<Longrightarrow> \<exists>a db'. r = Inr (a, db') \<and> done_with db r = db'"
  by (auto simp: done_with_def split: sum.splits)

theorem closing_ends_everything_witness:
  "nothing_owed 0 (done_with example_db (example_closing (Ticked True))) \<and> \<not> nothing_owed 0 example_db"
proof -
  obtain m db' where c: "example_closing (Ticked True) = Inr (m, db')"
      "done_with example_db (example_closing (Ticked True)) = db'"
    using done_with_changed [OF example_closes(1)] by auto
  have "\<not> nothing_owed 0 example_db" by code_simp
  then show ?thesis
    using closing_ends_everything [OF c(1) [unfolded example_closing_def] work_history_ok] c(2) by simp
qed



section \<open>What is current\<close>

definition put_away :: "instant \<Rightarrow> row_id option \<Rightarrow> row_id \<Rightarrow> row_id \<Rightarrow> next_action \<Rightarrow> next_action" where
  \<comment> \<open>a current action gives way: a check goes back to the plan, anything else is superseded\<close>
  "put_away now actor i successor r =
     (if na_matter r = i \<and> na_status r = Open then
        if na_follow_up r \<noteq> None then r\<lparr>na_status := Planned\<rparr>
        else r\<lparr>na_status := Superseded, na_ended_at := Some now, na_ended_by := actor, na_replaced_by := Some successor\<rparr>
      else r)"

lemma put_away_other: "\<not> (na_matter r = i \<and> na_status r = Open) \<Longrightarrow> put_away now actor i k r = r"
  by (simp only: put_away_def if_False)

lemma put_away_rows:
  assumes "tables_ok db" and "\<And>r. r \<in> set (w_actions db) \<Longrightarrow> na_matter r = i \<and> na_status r = Open \<longleftrightarrow> Some r = previous"
    and "\<And>p. previous = Some p \<Longrightarrow> p \<in> set (w_actions db)"
  shows "put_away now actor i k ` set (w_actions db) = (case previous of None \<Rightarrow> set (w_actions db)
    | Some p \<Rightarrow> insert (put_away now actor i k p) (set (w_actions db) - {p}))"
proof (cases previous)
  case None
  then have "put_away now actor i k r = r" if "r \<in> set (w_actions db)" for r
    using assms(2) [OF that] None by (intro put_away_other) simp
  then show ?thesis using None by simp
next
  case (Some p)
  then have "put_away now actor i k r = r" if "r \<in> set (w_actions db)" "r \<noteq> p" for r
    using assms(2) [OF that(1)] that(2) Some by (intro put_away_other) simp
  then have "put_away now actor i k ` (set (w_actions db) - {p}) = set (w_actions db) - {p}" by force
  then show ?thesis using Some assms(3) [OF Some] image_insert [of "put_away now actor i k" p "set (w_actions db) - {p}"]
    by (simp add: insert_absorb)
qed

lemma replaced_rows:
  assumes put: "put_previous_away now actor previous db = Inr (s, r, db1)"
    and new: "create_action row db1 = Inr (a, db2)"
    and link: "(case s of None \<Rightarrow> Inr db2 | Some p \<Rightarrow> save_action (p\<lparr>na_replaced_by := Some (na_id a)\<rparr>) db2) = Inr db3"
    and ok: "tables_ok db" and prev: "\<And>p. previous = Some p \<Longrightarrow> p \<in> set (w_actions db) \<and> na_matter p = i \<and> na_status p = Open"
  shows "set (w_actions db3) = insert a (case previous of None \<Rightarrow> set (w_actions db)
    | Some p \<Rightarrow> insert (put_away now actor i (na_id a) p) (set (w_actions db) - {p}))"
proof (cases previous)
  case None
  then show ?thesis using put link create_action_rows(2) [OF new] ok by (auto simp: put_previous_away_def)
next
  case (Some p)
  then have p: "p \<in> set (w_actions db)" "na_matter p = i" "na_status p = Open" using prev by auto
  show ?thesis
  proof (cases "na_follow_up p = None")
    case True
    let ?e = "p\<lparr>na_status := Superseded, na_ended_at := Some now, na_ended_by := actor\<rparr>"
    have s: "s = Some ?e" and saved: "save_action ?e db = Inr db1"
      using put Some True by (auto simp: put_previous_away_def Let_def and_then_eq_Inr)
    note rows1 = save_action_rows [OF saved ok p(1), simplified]
    note rows2 = create_action_rows [OF new rows1(2)]
    have e: "?e \<in> set (w_actions db2)" by (simp add: rows1(1) rows2(2))
    note rows3 = save_action_rows(1) [OF link [unfolded s option.case] rows2(3) e, simplified]
    have "?e \<notin> set (w_actions db) - {p}" using same_action [OF ok p(1), of ?e] by auto
    moreover have "na_id a = w_next db" using rows2(1) rows1(5) by simp
    then have "a \<noteq> ?e" using tables_fresh(1) [OF ok p(1)] by auto
    ultimately show ?thesis
      unfolding rows3 rows2(2) rows1(1) Some option.case put_away_def using p True rows2(1) by auto
  next
    case False
    then have "s = None" and saved: "save_action (p\<lparr>na_status := Planned\<rparr>) db = Inr db1"
      using put Some by (auto simp: put_previous_away_def Let_def and_then_eq_Inr)
    note rows1 = save_action_rows [OF saved ok p(1), simplified]
    show ?thesis using link \<open>s = None\<close> p False Some create_action_rows(1,2) [OF new rows1(2)]
      by (simp add: rows1(1) put_away_def)
  qed
qed

lemma set_next_action_rows:
  assumes ok: "tables_ok db"
  shows "yields (set_next_action now i rq db) (\<lambda>(a, db').
    na_id a = w_next db \<and> na_matter a = i \<and> na_text a = strip (rq_text rq) \<and> na_date a = rq_date rq \<and> na_status a = Open
    \<and> set (w_actions db') = insert a (put_away now (rq_actor rq) i (na_id a) ` set (w_actions db)))"
  unfolding set_next_action_def Let_def refuse_an_unsupported_precision_def
proof (intro yields_ensure yields_seq yields_pair, goal_cases)
  case (1 m p s rest r db1 q a db2 db3)
  then have m: "mt_id m = i" by (auto dest: lock_matter_Inr)
  let ?previous = "first_action (\<lambda>a. na_matter a = i \<and> na_status a = Open) db"
  have prev: "p \<in> set (w_actions db) \<and> na_matter p = i \<and> na_status p = Open" if "?previous = Some p" for p
    using first_action_Some [OF that] by simp
  have put: "put_previous_away now (rq_actor rq) ?previous db = Inr (s, r, db1)" using 1 m by simp
  then have next1: "w_next db1 = w_next db"
    by (auto simp: put_previous_away_def Let_def and_then_eq_Inr save_action_def store_actions_Inr split: option.splits if_splits)
  have "na_matter r = i \<and> na_status r = Open \<longleftrightarrow> Some r = ?previous" if r: "r \<in> set (w_actions db)" for r
  proof
    assume o: "na_matter r = i \<and> na_status r = Open"
    show "Some r = ?previous"
    proof (cases ?previous)
      case None
      then show ?thesis using r o by (auto simp: first_action_def first_where_None)
    next
      case (Some p)
      then show ?thesis using one_open [OF ok r, of p] prev [OF Some] o by simp
    qed
  next
    assume "Some r = ?previous"
    then show "na_matter r = i \<and> na_status r = Open" using prev [of r] by simp
  qed
  note away = put_away_rows [OF ok this conjunct1 [OF prev]]
  note new = 1(12) [unfolded 1(13)]
  have "na_id a = w_next db" "na_matter a = i" "na_text a = strip (rq_text rq)" "na_date a = rq_date rq" "na_status a = Open"
    using new next1 m by (auto simp: create_action_def Let_def and_then_eq_Inr) (simp add: new_action_def)
  then show ?case using replaced_rows [OF put new 1(14) ok prev] away
    by (simp add: option.case_distrib [of w_actions] split: option.split)
qed

text \<open>C18: setting the current action of a matter makes exactly one new row, which says what was
  asked, and puts away exactly the row that was current before; every other row of every matter
  stays as it was.\<close>

theorem set_next_action_replaces:
  assumes "set_next_action now i rq db = Inr (a, db')" and "work_ok db"
  shows "na_id a = w_next db \<and> na_matter a = i \<and> na_text a = strip (rq_text rq) \<and> na_date a = rq_date rq
    \<and> na_status a = Open \<and> current_next_action i db' = Some a
    \<and> set (w_actions db') = insert a (put_away now (rq_actor rq) i (na_id a) ` set (w_actions db))"
proof -
  have rows: "na_matter a = i" "na_status a = Open" "a \<in> set (w_actions db')"
    using yieldsD [OF set_next_action_rows [OF work_ok_inv(3) [OF assms(2)]] assms(1)] by simp_all
  have "workflow_inv db'" using yieldsD [OF set_next_action_keeps [OF work_ok_inv(1) [OF assms(2)]] assms(1)] by auto
  then have only: "b = a" if "b \<in> set (w_actions db')" "na_matter b = i" "na_status b = Open" for b
    using one_open [OF inv_tables that(1) rows(3)] that rows by simp
  have "current_next_action i db' = Some a"
    unfolding current_next_action_def first_action_def
    by (rule first_where_only [OF rows(3)]) (simp add: rows, rule only, simp_all)
  then show ?thesis using yieldsD [OF set_next_action_rows [OF work_ok_inv(3) [OF assms(2)]] assms(1)] by simp
qed

theorem set_next_action_replaces_witness:
  "map_option na_text (current_next_action 0
     (done_with example_db (set_next_action 140 0 (plain_request '' Helista '' None None) example_db))) = Some ''Helista''"
proof -
  let ?r = "set_next_action 140 0 (plain_request '' Helista '' None None) example_db"
  have "done_with example_db ?r \<noteq> example_db" by code_simp
  then obtain a db' where r: "?r = Inr (a, db')" "done_with example_db ?r = db'" using done_with_changed by blast
  have "strip (rq_text (plain_request '' Helista '' None None)) = ''Helista''" by code_simp
  then show ?thesis using set_next_action_replaces [OF r(1) work_history_ok] r(2) by simp
qed

lemma sort_key_first:
  assumes "sort_key f xs = b # bs"
  shows "\<exists>us vs. xs = us @ b # vs \<and> list_all (\<lambda>u. f b < f u) us \<and> list_all (\<lambda>v. f b \<le> f v) vs"
proof -
  have least: "f b \<le> f x" if "x \<in> set xs" for x
  proof -
    have "sorted (map f (b # bs))" using sorted_sort_key [of f xs] by (simp add: assms)
    moreover have "x \<in> set (b # bs)" using that set_sort [of f xs] by (simp add: assms)
    ultimately show ?thesis by auto
  qed
  have "filter (\<lambda>x. f x = f b) xs = b # filter (\<lambda>x. f x = f b) bs"
    using sort_key_stable [of f "f b" xs] by (simp add: assms)
  from filter_eq_ConsD [OF this] obtain us vs where "xs = us @ b # vs" "\<forall>u \<in> set us. f u \<noteq> f b" by blast
  with least show ?thesis
    by (intro exI [of _ us] exI [of _ vs]) (auto simp: list_all_iff order_less_le)
qed

text \<open>When nothing is current, the planned action that becomes current is the first created among
  those planned for the earliest day, and nothing of it changes but its status.\<close>

theorem promotion_is_earliest:
  assumes "promote_next_planned_action now i actor db = Inr (Some a, db')" and "work_ok db"
  shows "current_next_action i db = None \<and> current_next_action i db' = Some a
    \<and> (\<exists>b us vs. filter (\<lambda>r. na_matter r = i \<and> na_status r = Planned) (w_actions db) = us @ b # vs
        \<and> a = b\<lparr>na_status := Open\<rparr>
        \<and> list_all (\<lambda>r. plan_day b < plan_day r) us \<and> list_all (\<lambda>r. plan_day b \<le> plan_day r) vs)"
proof -
  have none: "current_next_action i db = None"
    using assms(1) by (auto simp: promote_next_planned_action_def current_next_action_def split: if_splits)
  obtain b bs where first: "planned_in_order i db = b # bs"
    using assms(1) by (auto simp: promote_next_planned_action_def split: if_splits list.splits)
  obtain db1 where a: "a = b\<lparr>na_status := Open\<rparr>" and saved: "save_action a db = Inr db1" and same: "w_actions db' = w_actions db1"
    using assms(1) none first by (auto simp: promote_next_planned_action_def current_next_action_def Let_def and_then_eq_Inr)
  have b: "b \<in> set (w_actions db)" "na_matter b = i" "na_status b = Planned"
    using planned_in_order_set [of b i db] by (simp_all add: first)
  have ab: "na_id b = na_id a" by (simp add: a)
  note rows = save_action_rows(1,2) [OF saved work_ok_inv(3) [OF assms(2)] b(1) ab]
  have "a \<in> set (w_actions db1)" "na_status a = Open" "na_matter a = i" by (simp_all add: rows(1) a b)
  then have "current_next_action i db' = Some a"
    unfolding current_next_action_def first_action_def same
    using one_open [OF rows(2)] by (intro first_where_only) simp_all
  moreover obtain us vs where "filter (\<lambda>r. na_matter r = i \<and> na_status r = Planned) (w_actions db) = us @ b # vs"
      "list_all (\<lambda>r. plan_day b < plan_day r) us" "list_all (\<lambda>r. plan_day b \<le> plan_day r) vs"
    using sort_key_first [OF first [unfolded planned_in_order_def]] by blast
  ultimately show ?thesis using none a by blast
qed

definition example_gap :: work_db where
  \<comment> \<open>the current action cancelled, two planned\<close>
  "example_gap = work_history example_work_config (example_work @ [CancelAction 200 (Some 1) [] None 8])"

theorem promotion_is_earliest_witness:
  "map_option na_text (current_next_action 0 (done_with example_gap (promote_next_planned_action 210 0 None example_gap)))
     \<in> Some ` na_text ` set (planned_in_order 0 example_gap)"
proof -
  have "case promote_next_planned_action 210 0 None example_gap of Inl _ \<Rightarrow> False | Inr (a, _) \<Rightarrow> a \<noteq> None" by code_simp
  then obtain a db' where r: "promote_next_planned_action 210 0 None example_gap = Inr (Some a, db')" by (auto split: sum.splits)
  have "work_ok example_gap" by (simp only: example_gap_def work_history_ok)
  from promotion_is_earliest [OF r this]
  obtain b us vs where "current_next_action 0 db' = Some a" "a = b\<lparr>na_status := Open\<rparr>"
      and rows: "filter (\<lambda>r. na_matter r = 0 \<and> na_status r = Planned) (w_actions example_gap) = us @ b # vs" by blast
  moreover have "b \<in> set (planned_in_order 0 example_gap)" by (simp add: planned_in_order_def rows)
  ultimately show ?thesis by (simp add: done_with_def r)
qed

section \<open>The work plan\<close>

lemma create_template_steps_rows:
  "create_template_steps now i actor t n items db = Inr (created, db') \<Longrightarrow>
     w_steps db' = w_steps db @ created \<and> w_matters db' = w_matters db
     \<and> map ps_template_step_key created = map ts_key items
     \<and> list_all (\<lambda>s. ps_matter s = i \<and> ps_source s = FromTemplate \<and> ps_template_key s = pt_key t) created"
proof (induction items arbitrary: n db created)
  case (Cons item items)
  then show ?case
    by (auto simp: and_then_eq_Inr create_step_def Let_def store_steps_Inr)
qed simp

text \<open>Taking the suggested steps of a template adds exactly those the matter does not have yet, in the
  template's order, and taking them again, by whoever and whenever, adds nothing.\<close>

theorem plan_seeding_once:
  assumes "seed_standard_plan digest now i actor t expected db = Inr (created, db')"
  shows "w_steps db' = w_steps db @ created
    \<and> map ps_template_step_key created = filter (\<lambda>k. k \<notin> ps_template_step_key ` {s \<in> set (w_steps db).
        ps_matter s = i \<and> ps_source s = FromTemplate \<and> ps_template_key s = pt_key t}) (map ts_key (pt_steps t))
    \<and> seed_standard_plan digest now' i actor' t None db' = Inr ([], db')"
proof -
  let ?mine = "\<lambda>s. ps_matter s = i \<and> ps_source s = FromTemplate \<and> ps_template_key s = pt_key t"
  let ?present = "\<lambda>db. map ps_template_step_key (filter (\<lambda>s. ps_source s = FromTemplate \<and> ps_template_key s = pt_key t) (plan_steps_of i db))"
  have present: "set (?present db) = ps_template_step_key ` {s \<in> set (w_steps db). ?mine s}" for db
    unfolding plan_steps_of_def by auto
  obtain m where m: "lock_for_new_steps i db = Inr m" "mt_id m = i"
    using assms by (auto simp: seed_standard_plan_def lock_for_new_steps_def and_then_eq_Inr dest: lock_open_Inr)
  let ?missing = "filter (\<lambda>k. ts_key k \<notin> set (?present db)) (pt_steps t)"
  have rows: "w_steps db' = w_steps db @ created \<and> w_matters db' = w_matters db \<and> map ps_template_step_key created = map ts_key ?missing
      \<and> list_all ?mine created"
    using assms m by (auto simp: seed_standard_plan_def Let_def check_revision_def and_then_eq_Inr split: if_splits dest: create_template_steps_rows)
  have "ps_template_step_key ` {s \<in> set (w_steps db'). ?mine s} = ps_template_step_key ` {s \<in> set (w_steps db). ?mine s} \<union> ts_key ` set ?missing"
  proof -
    have "{s \<in> set (w_steps db'). ?mine s} = {s \<in> set (w_steps db). ?mine s} \<union> set created"
      using rows by (auto simp: list_all_iff)
    moreover have "ps_template_step_key ` set created = ts_key ` set ?missing"
      using rows by (metis list.set_map)
    ultimately show ?thesis by (simp only: image_Un)
  qed
  then have "filter (\<lambda>k. ts_key k \<notin> set (?present db')) (pt_steps t) = []"
    unfolding filter_empty_conv present by auto
  moreover have "lock_for_new_steps i db' = Inr m"
    using m rows by (simp add: lock_for_new_steps_def lock_open_matter_for_business_write_def lock_matter_for_write_def)
  ultimately have "seed_standard_plan digest now' i actor' t None db' = Inr ([], db')"
    using m(2) by (simp add: seed_standard_plan_def Let_def check_revision_def ensure_def)
  then show ?thesis using rows unfolding present by (simp add: filter_map comp_def)
qed

theorem plan_seeding_once_witness:
  "length (w_steps example_db) = 4 \<and> seed_standard_plan (\<lambda>_. []) 300 0 None standard_plan None
     (done_with example_db (seed_standard_plan (\<lambda>_. []) 200 0 (Some 1) standard_plan None example_db)) = Inr ([], done_with example_db (seed_standard_plan (\<lambda>_. []) 200 0 (Some 1) standard_plan None example_db))"
proof -
  let ?r = "seed_standard_plan (\<lambda>_. []) 200 0 (Some 1) standard_plan None example_db"
  have "case ?r of Inl _ \<Rightarrow> False | Inr _ \<Rightarrow> True" by code_simp
  then obtain created db' where r: "?r = Inr (created, db')" by (auto split: sum.splits)
  have "length (w_steps example_db) = 4" by code_simp
  then show ?thesis using plan_seeding_once [OF r] by (simp add: done_with_def r del: One_nat_def)
qed

section \<open>Stages\<close>

lemma move_stage_sets:
  assumes inv: "workflow_inv db" "stage_inv db"
  shows "yields (move_stage now i stage actor origin db) (\<lambda>(mv, db'). \<exists>m \<in> set (w_matters db'). mt_id m = i \<and> mt_stage m = stage)"
  unfolding move_stage_def move_locked_stage_def Let_def
proof (intro yields_seq yields_ensure yields_if, goal_cases)
  case (1 m)
  then show ?case by (auto dest: lock_matter_Inr)
next
  case (2 m db1 db2)
  then have m: "m \<in> set (w_matters db)" "mt_id m = i" by (auto dest: lock_matter_Inr)
  have t: "turned (mt_id m) stage db db1" by (rule yieldsD [OF turn_stage_episode_turns [OF inv(2)] 2(4)])
  have "m \<in> set (w_matters db1)" using t m by (simp add: turned_def)
  from save_matter_rows(1) [OF 2(5) inv_tables [OF turned_inv [OF t inv(1)]] this] m(2) show ?case by simp
qed

lemma closed_keeps_stage:
  assumes c: "closed_now i su db db'" and t: "tables_ok db" and m: "m \<in> set (w_matters db)" "mt_id m = i"
  shows "\<exists>r \<in> set (w_matters db'). mt_id r = i \<and> mt_stage r = mt_stage m"
proof -
  obtain old r where "old \<in> set (w_matters db)" "mt_id old = i" "mt_id r = i" "mt_stage r = mt_stage old"
      "set (w_matters db') = insert r (set (w_matters db) - {old})"
    using c unfolding closed_now_def by blast
  moreover from this have "old = m" using only_matter [OF t _ m(1)] m(2) by simp
  ultimately show ?thesis by simp
qed


definition example_stage :: stage_row where
  "example_stage = \<lparr>sv_key = ''moodus'', sv_label = ''M'' @ CHR 0xF6 # CHR 0xF6 # ''dus''\<rparr>"

definition example_staged :: "work_db result" where
  "example_staged = change_stage (\<lambda>_. []) (\<lambda>_ _. True) 300 0 (Some example_stage) (Some 1) RECORDED (Ticked True) example_db"


section \<open>Moving a day\<close>

lemma shifted_later:
  assumes "shifted d key = Inr e" and "valid_date d"
  shows "d < e \<and> valid_date e"
proof -
  obtain s where "move s d = Inr e" using assms(1) by (auto simp: shifted_def split: option.splits sum.splits)
  then show ?thesis
  proof (cases s)
    case Kuu
    then have "add_months d 1 = Inr e" using \<open>move s d = Inr e\<close> by simp
    from add_months_eq(1,2) [OF assms(2) _ this] assms(2) show ?thesis
      by (cases d; cases e) (auto simp: less_date_def valid_date_def in_month_def)
  qed (use assms(2) in \<open>auto simp: date_plus_def ordinal_less [symmetric] simp del: ordinal_less split: if_splits\<close>)
qed

lemma create_action_row: "create_action a db = Inr (row, db') \<Longrightarrow> row = a\<lparr>na_id := w_next db\<rparr>"
  by (auto simp: create_action_def Let_def and_then_eq_Inr)

lemma set_next_action_day: "yields (set_next_action now i rq db) (\<lambda>(a, db'). na_date a = rq_date rq)"
  unfolding set_next_action_def Let_def refuse_an_unsupported_precision_def
  by (intro yields_ensure yields_seq yields_pair) (auto dest: create_action_row)

lemma change_current_action_day: "yields (change_current_action now i k rq db) (\<lambda>(a, db'). na_date a = rq_date rq)"
  unfolding change_current_action_def set_next_action_for_new_work_def
  by (intro yields_seq yields_mono [OF set_next_action_day]) auto

lemma change_planned_action_day: "yields (change_planned_action now i k raw d actor db) (\<lambda>(a, db'). na_date a = d)"
  unfolding change_planned_action_def Let_def
  by (intro yields_ensure yields_seq yields_if yields_pair) (auto dest: create_action_row)

lemma shift_action_date_day:
  "yields (shift_action_date now i k actor key source proposed db) (\<lambda>(r, db').
     sr_old_date r = source \<and> shifted source key = Inr (sr_new_date r) \<and> proposed \<in> {None, Some (sr_new_date r)}
     \<and> na_date (sr_action r) = Some (sr_new_date r))"
proof -
  have step: "yields (if b then change_current_action now j l ((plain_request x (Some d) actor)
        \<lparr>rq_kind := kd, rq_semantics := se, rq_source_text := st, rq_responsible := u\<rparr>) db
      else change_planned_action now j l raw (Some d) actor db) (\<lambda>(a, db'). na_date a = Some d)" for b j l x d kd se st u raw
    by (intro yields_if yields_mono [OF change_current_action_day] change_planned_action_day)
      (auto simp: plain_request_def)
  show ?thesis
  proof (cases "lock_open_matter_for_business_write i db")
    case (Inl e)
    then show ?thesis by (cases e) (auto simp: shift_action_date_def)
  next
    case (Inr m)
    show ?thesis
      unfolding shift_action_date_def Inr sum.case
      by (intro yields_ensure yields_option yields_seq) (auto split: option.splits dest!: yieldsD [OF step])
  qed
qed

text \<open>Moving a task's day answers with a day strictly later than the one the caller read, the one the chosen
  shift names and any day the caller proposed, and the task now carries exactly that day.\<close>

theorem shift_moves_forward:
  assumes "shift_action_date now i k actor key source proposed db = Inr (r, db')" and "valid_date source"
  shows "sr_old_date r = source \<and> source < sr_new_date r \<and> valid_date (sr_new_date r)
    \<and> shifted source key = Inr (sr_new_date r) \<and> proposed \<in> {None, Some (sr_new_date r)}
    \<and> na_date (sr_action r) = Some (sr_new_date r)"
  using yieldsD [OF shift_action_date_day assms(1)] shifted_later [OF _ assms(2)] by auto

theorem shift_moves_forward_witness:
  "case shift_action_date 140 0 8 (Some 1) ''kuu'' (Date 2026 5 11) None example_db of
     Inl _ \<Rightarrow> False | Inr (r, _) \<Rightarrow> sr_new_date r = Date 2026 6 11 \<and> Date 2026 5 11 < sr_new_date r"
proof -
  let ?r = "shift_action_date 140 0 8 (Some 1) ''kuu'' (Date 2026 5 11) None example_db"
  have "case ?r of Inl _ \<Rightarrow> False | Inr _ \<Rightarrow> True" by code_simp
  then obtain r db' where r: "?r = Inr (r, db')" by (auto split: sum.splits)
  have "shifted (Date 2026 5 11) ''kuu'' = Inr (Date 2026 6 11)" "valid_date (Date 2026 5 11)" by code_simp+
  then show ?thesis using shift_moves_forward [OF r] by (simp add: r del: One_nat_def)
qed

section \<open>Checks of sent opinions\<close>

lemma promote_follow_ups:
  "yields (promote_next_planned_action now i actor db) (\<lambda>(a, db'). w_follow_ups db' = w_follow_ups db)"
  unfolding promote_next_planned_action_def Let_def
  by (intro yields_if yieldsI) (auto simp: and_then_eq_Inr save_action_def store_actions_Inr split: list.splits)

lemma saved_action_follow_ups: "save_action a db = Inr db' \<Longrightarrow> w_follow_ups db' = w_follow_ups db"
  by (auto simp: save_action_def store_actions_Inr)

lemma created_action_follow_ups: "create_action a db = Inr (row, db') \<Longrightarrow> w_follow_ups db' = w_follow_ups db"
  by (auto simp: create_action_def Let_def and_then_eq_Inr store_actions_Inr)

lemma complete_check_follow_ups:
  "yields (complete_check zone now a outcome actor day reason db) (\<lambda>(c, db'). na_follow_up a \<noteq> None \<and> is_active a
     \<and> (c \<noteq> None \<longleftrightarrow> outcome = Some NO_RESPONSE)
     \<and> (if outcome = Some NO_RESPONSE then w_follow_ups db' = w_follow_ups db
        else \<exists>g. na_follow_up a = Some (fu_id g) \<and> fu_state g \<noteq> Monitoring
          \<and> w_follow_ups db' = update_where (\<lambda>r. fu_id r = fu_id g) (\<lambda>_. g) (w_follow_ups db)))"
    (is "yields _ (\<lambda>(c, db'). ?P c db')")
  unfolding complete_check_def validate_outcome_def Let_def
proof (rule yields_ensure, rule yields_seq, rule yields_ensure, rule yields_ensure, rule yields_seq, rule yields_seq,
    rule yields_then2 [where Q = ?P], goal_cases)
  case (1 u f db1)
  then have live: "is_active a" "na_follow_up a = Some (fu_id f)" and same: "w_follow_ups db1 = w_follow_ups db"
    using follow_up_of_Inr [OF 1(5)] saved_action_follow_ups [OF 1(6)] by auto
  show ?case
  proof (rule yields_if, goal_cases)
    case 1
    show ?case using 1 live same
      by (intro yields_option yields_seq yields_pair) (auto dest: created_action_follow_ups)
  next
    case 2
    let ?g = "f\<lparr>fu_state := (if outcome = Some RESPONSE_RECEIVED then ResponseReceived else MonitoringEnded), fu_ended_at := Some now,
      fu_ended_by := actor, fu_end_reason := strip (case reason of None \<Rightarrow> [] | Some s \<Rightarrow> s)\<rparr>"
    have saved: "?P None db2" if "save_follow_up ?g e = Inr db2" and "w_follow_ups e = w_follow_ups db1" for e db2
      using that 2 live same
      by (simp add: save_follow_up_def store_follow_ups_Inr exI [of _ ?g])
    show ?case
    proof (rule yields_seq, goal_cases)
      case (1 db2)
      show ?case using saved [OF 1] by simp
    qed
  qed
next
  case (2 u f db1 c db2)
  then show ?case
    by (intro yields_if yields_then2 [OF promote_follow_ups]) auto
qed

lemma unmonitored:
  assumes "w_follow_ups db' = update_where (\<lambda>r. fu_id r = fu_id g) (\<lambda>_. g) rows" and "fu_state g \<noteq> Monitoring"
  shows "Some (fu_id g) \<notin> monitored db'"
  unfolding in_monitored assms(1) using assms(2) by (auto simp: update_where_def split: if_splits)

text \<open>A check is completed with one outcome; the opinion stays monitored exactly when nothing had been
  received, and then, and only then, another check is scheduled, for a day that is not past.\<close>

theorem check_outcome_decides:
  assumes "complete_check zone now a outcome actor day reason db = Inr (following, db')" and "work_ok db" and "a \<in> set (w_actions db)"
  shows "work_ok db'
    \<and> (na_follow_up a \<in> monitored db' \<longleftrightarrow> outcome = Some NO_RESPONSE)
    \<and> (following \<noteq> None \<longleftrightarrow> outcome = Some NO_RESPONSE)
    \<and> (na_follow_up a \<in> live_checks db' \<longleftrightarrow> outcome = Some NO_RESPONSE)"
proof -
  have good: "good_step db db'"
    using yieldsD [OF complete_check_keeps [OF work_ok_inv(1) [OF assms(2)] assms(3)] assms(1)] keeps_good [OF assms(2)] by simp
  have rows: "na_follow_up a \<noteq> None \<and> is_active a \<and> (following \<noteq> None \<longleftrightarrow> outcome = Some NO_RESPONSE)
     \<and> (if outcome = Some NO_RESPONSE then w_follow_ups db' = w_follow_ups db
        else \<exists>g. na_follow_up a = Some (fu_id g) \<and> fu_state g \<noteq> Monitoring
          \<and> w_follow_ups db' = update_where (\<lambda>r. fu_id r = fu_id g) (\<lambda>_. g) (w_follow_ups db))"
    using yieldsD [OF complete_check_follow_ups assms(1)] by simp
  have "na_follow_up a \<in> live_checks db" unfolding in_live_checks using rows assms(3) by blast
  then have before: "na_follow_up a \<in> monitored db" using work_ok_inv(1) [OF assms(2)] by (simp add: work_inv_def)
  have "na_follow_up a \<in> monitored db' \<longleftrightarrow> outcome = Some NO_RESPONSE"
  proof (cases "outcome = Some NO_RESPONSE")
    case True
    then show ?thesis using rows before by (simp add: monitored_def)
  next
    case False
    then show ?thesis using rows unmonitored by metis
  qed
  then show ?thesis using good rows by (simp add: good_step_def work_ok_def work_inv_def)
qed

definition example_monitored :: work_db where
  \<comment> \<open>an opinion sent, its first check scheduled\<close>
  "example_monitored = work_history example_work_config
     [EditAccounts [example_specialist], OpenMatter FULL (Some 1),
      EditRecords [\<lparr>sb_id = 50, sb_matter = 0, sb_status = SubmissionSent, sb_sent_at = Some 135, sb_override = None,
        sb_is_proposal = False, sb_addressees = 1\<rparr>] [] [],
      ScheduleFirstCheck 140 50 (Some 1)]"

theorem check_outcome_decides_witness:
  "case first_action (\<lambda>a. na_follow_up a \<noteq> None) example_monitored of
     None \<Rightarrow> False
   | Some a \<Rightarrow> na_follow_up a \<in> monitored example_monitored
       \<and> na_follow_up a \<notin> monitored (done_with example_monitored
            (complete_check (\<lambda>_. Date 2026 5 4) 150 a (Some RESPONSE_RECEIVED) (Some 1) None None example_monitored))"
proof -
  have "case first_action (\<lambda>a. na_follow_up a \<noteq> None) example_monitored of None \<Rightarrow> False | Some a \<Rightarrow> is_active a
      \<and> \<not> isl (complete_check (\<lambda>_. Date 2026 5 4) 150 a (Some RESPONSE_RECEIVED) (Some 1) None None example_monitored)"
    by code_simp
  then obtain a where a: "first_action (\<lambda>a. na_follow_up a \<noteq> None) example_monitored = Some a" "is_active a"
      and ends: "\<not> isl (complete_check (\<lambda>_. Date 2026 5 4) 150 a (Some RESPONSE_RECEIVED) (Some 1) None None example_monitored)"
    by (auto split: option.splits simp del: One_nat_def)
  obtain c db' where r: "complete_check (\<lambda>_. Date 2026 5 4) 150 a (Some RESPONSE_RECEIVED) (Some 1) None None example_monitored = Inr (c, db')"
    using ends by (cases "complete_check (\<lambda>_. Date 2026 5 4) 150 a (Some RESPONSE_RECEIVED) (Some 1) None None example_monitored") auto
  have ok: "work_ok example_monitored" by (simp only: example_monitored_def work_history_ok)
  have mem: "a \<in> set (w_actions example_monitored)" "na_follow_up a \<noteq> None" using first_action_Some [OF a(1)] by auto
  then have "na_follow_up a \<in> live_checks example_monitored" unfolding in_live_checks using a(2) by blast
  then have "na_follow_up a \<in> monitored example_monitored" using ok by (simp add: work_ok_def work_inv_def)
  then show ?thesis
    using check_outcome_decides [OF r ok mem(1)] unfolding a(1) option.case done_with_def r by simp
qed

section \<open>The chain of continuations\<close>

lemma walk_answers:
  assumes "Option.these (mt_superseded_by ` set (w_matters db)) \<subseteq> mt_id ` set (w_matters db)"
  shows "step \<in> set (w_matters db) \<Longrightarrow> distinct seen \<Longrightarrow> set seen \<subseteq> mt_id ` set (w_matters db)
    \<Longrightarrow> length (w_matters db) < length seen + n
    \<Longrightarrow> refuse_cycle_from db c seen n step = Inr ()
      \<or> refuse_cycle_from db c seen n step = refuse ContinuationCycle \<and> (mt_id step, c) \<in> (continuations db)\<^sup>*"
proof (induction n arbitrary: seen step)
  case 0
  have "length seen \<le> card (mt_id ` set (w_matters db))"
    using card_mono [OF _ 0(3)] 0(2) by (simp add: distinct_card)
  also have "\<dots> \<le> length (w_matters db)" by (rule order_trans [OF card_image_le card_length]) simp
  finally show ?case using 0(4) by simp
next
  case (Suc n)
  show ?case
  proof (cases "mt_superseded_by step")
    case (Some j)
    then have edge: "(mt_id step, j) \<in> continuations db" using Suc.prems(1) by (rule in_continuations [rotated])
    have "j \<in> mt_id ` set (w_matters db)"
      using assms Suc.prems(1) Some by (force simp: Option.these_def)
    then obtain m where m: "matter_row db j = Some m"
      by (cases "matter_row db j") (auto simp: matter_row_def first_where_None)
    then have m': "m \<in> set (w_matters db)" "mt_id m = j" using matter_row_Some by auto
    have "refuse_cycle_from db c (j # seen) n m = Inr ()
        \<or> refuse_cycle_from db c (j # seen) n m = refuse ContinuationCycle \<and> (j, c) \<in> (continuations db)\<^sup>*" if "j \<notin> set seen"
      using Suc.IH [OF m'(1), of "j # seen"] Suc.prems m' that by auto
    then show ?thesis using Some m edge by (auto intro: converse_rtrancl_into_rtrancl)
  qed simp
qed

text \<open>C21: with up to two hundred matters the walk along the continuations always ends with an answer: the closing is
  refused exactly when the matter being closed is reached from its successor, whatever the chain looks
  like; with more, it may also give up.\<close>

theorem continuation_walk_decides:
  assumes "tables_ok db" and "s \<in> set (w_matters db)" and "mt_id s \<noteq> i" and "length (w_matters db) \<le> cycle_check_hops"
    and "Option.these (mt_superseded_by ` set (w_matters db)) \<subseteq> mt_id ` set (w_matters db)"
  shows "refuse_continuation_cycle db i s =
    (if (mt_id s, i) \<in> (continuations db)\<^sup>* then refuse ContinuationCycle else Inr ())"
proof -
  have "refuse_cycle_from db i [mt_id s] cycle_check_hops s = Inr ()
      \<or> refuse_cycle_from db i [mt_id s] cycle_check_hops s = refuse ContinuationCycle \<and> (mt_id s, i) \<in> (continuations db)\<^sup>*"
    by (rule walk_answers [OF assms(5)]) (use assms(2,4) in auto)
  moreover have "(mt_id s, i) \<notin> (continuations db)\<^sup>*" if "refuse_cycle_from db i [mt_id s] cycle_check_hops s = Inr ()"
    using walk_reaches [OF that assms(1,2,3)] .
  ultimately show ?thesis by (auto simp: refuse_continuation_cycle_def refuse_def)
qed

definition example_chain :: work_db where
  \<comment> \<open>three matters, the first continued under the second\<close>
  "example_chain = work_history example_work_config
     [OpenMatter FULL None, OpenMatter FULL None, OpenMatter FULL None,
      CloseMatter 100 0 (Some SUPERSEDED) (Some 1) ''Liidetud'' (Some 1) (Ticked False)]"

theorem continuation_walk_decides_witness:
  "(0, 1) \<in> (continuations example_chain)\<^sup>* \<and> (0, 2) \<notin> (continuations example_chain)\<^sup>*"
proof -
  let ?s = "the (matter_row example_chain 0)"
  have ok: "tables_ok example_chain" by (simp only: example_chain_def work_ok_inv(3) work_history_ok)
  have s: "matter_row example_chain 0 \<noteq> None" "mt_id ?s = 0" by code_simp+
  then have mem: "?s \<in> set (w_matters example_chain)" using matter_row_Some by fastforce
  have small: "length (w_matters example_chain) \<le> cycle_check_hops" by code_simp
  have fk: "Option.these (mt_superseded_by ` set (w_matters example_chain)) \<subseteq> mt_id ` set (w_matters example_chain)" by code_simp
  have "refuse_continuation_cycle example_chain 1 ?s \<noteq> Inr ()" "refuse_continuation_cycle example_chain 2 ?s = Inr ()" by code_simp+
  moreover have "refuse ContinuationCycle \<noteq> (Inr () :: unit result)" by simp
  ultimately show ?thesis
    using continuation_walk_decides [OF ok mem _ small fk, of 1] continuation_walk_decides [OF ok mem _ small fk, of 2]
    by (simp add: s(2) split: if_splits)
qed

end
