(* ===== verification/WriteJson.thy ===== *)
theory WriteJson
  imports Calendar
begin

text \<open>
  The JSON the write gateway stores, compares and digests (\<open>app/mcp_writes/refusals.py\<close>), and the two
  scans that run before anything is parsed or stored (\<open>too_deep\<close> of \<open>gateway.py\<close>, \<open>has_nul\<close> of
  \<open>proposals.py\<close>), both loops over an explicit position or worklist. A Python \<open>dict\<close> is a list of its
  items; two are equal as dictionaries when \<open>jsonable\<close>, which sorts the keys, makes them equal. The
  numbers the operations use are integers.
\<close>

section \<open>Values\<close>

datatype json = JNull | JBool bool | JInt int | JText string | JList "json list" | JDict "(string \<times> json) list"

fun jsonable :: "json \<Rightarrow> json" where
  "jsonable (JList xs) = JList (map jsonable xs)"
| "jsonable (JDict kvs) = JDict (sort_key fst (map (\<lambda>p. (fst p, jsonable (snd p))) kvs))"
| "jsonable v = v"

section \<open>Text\<close>

definition hex_digit :: "nat \<Rightarrow> char" where
  "hex_digit n = (if n < 10 then char_of (48 + n) else char_of (87 + n))"

definition escaped_char :: "char \<Rightarrow> string" where
  \<comment> \<open>\<open>json.dumps(..., ensure_ascii=False)\<close> on one character\<close>
  "escaped_char c =
     (let n = (of_char c :: nat)
      in if n = 34 then [CHR 0x5C, c]
         else if n = 92 then [c, c]
         else if n = 10 then [CHR 0x5C, CHR ''n'']
         else if n = 13 then [CHR 0x5C, CHR ''r'']
         else if n = 9 then [CHR 0x5C, CHR ''t'']
         else if n = 8 then [CHR 0x5C, CHR ''b'']
         else if n = 12 then [CHR 0x5C, CHR ''f'']
         else if n < 32 then [CHR 0x5C, CHR ''u'', CHR ''0'', CHR ''0'', hex_digit (n div 16), hex_digit (n mod 16)]
         else [c])"

definition quoted :: "string \<Rightarrow> string" where
  "quoted s = CHR 0x22 # concat (map escaped_char s) @ [CHR 0x22]"

definition int_text :: "int \<Rightarrow> string" where
  "int_text n = (if n < 0 then CHR ''-'' # decimal (nat (- n)) else decimal (nat n))"

fun comma_joined :: "string list \<Rightarrow> string" where
  "comma_joined [] = []"
| "comma_joined [t] = t"
| "comma_joined (t # u # ts) = t @ CHR '','' # comma_joined (u # ts)"

fun json_text :: "json \<Rightarrow> string" where
  \<comment> \<open>\<open>json.dumps\<close> with the separators \<open>','\<close> and \<open>':'\<close>, the keys in the order they have\<close>
  "json_text JNull = ''null''"
| "json_text (JBool b) = (if b then ''true'' else ''false'')"
| "json_text (JInt n) = int_text n"
| "json_text (JText s) = quoted s"
| "json_text (JList xs) = CHR ''['' # comma_joined (map json_text xs) @ '']''"
| "json_text (JDict kvs) =
     CHR ''{'' # comma_joined (map (\<lambda>p. quoted (fst p) @ CHR '':'' # json_text (snd p)) kvs) @ ''}''"

definition canonical_json :: "json \<Rightarrow> string" where
  "canonical_json v = json_text (jsonable v)"

section \<open>The scan for deep nesting\<close>

definition max_json_depth :: nat where
  "max_json_depth = 32"

fun too_deep_from :: "nat \<Rightarrow> int \<Rightarrow> bool \<Rightarrow> bool \<Rightarrow> string \<Rightarrow> bool" where
  \<comment> \<open>the loop, with \<open>depth\<close>, \<open>in_string\<close> and \<open>escaped\<close>\<close>
  "too_deep_from limit depth in_string escaped [] = False"
| "too_deep_from limit depth in_string escaped (byte # bytes) =
     (let n = (of_char byte :: nat)
      in if in_string then
           if escaped then too_deep_from limit depth True False bytes
           else if n = 92 then too_deep_from limit depth True True bytes
           else if n = 34 then too_deep_from limit depth False False bytes
           else too_deep_from limit depth True False bytes
         else if n = 34 then too_deep_from limit depth True escaped bytes
         else if n = 91 \<or> n = 123 then
           (if int limit < depth + 1 then True else too_deep_from limit (depth + 1) False escaped bytes)
         else if n = 93 \<or> n = 125 then too_deep_from limit (depth - 1) False escaped bytes
         else too_deep_from limit depth False escaped bytes)"

definition too_deep :: "string \<Rightarrow> bool" where
  "too_deep body = too_deep_from max_json_depth 0 False False body"

section \<open>The scan for NUL\<close>

fun json_weight :: "json \<Rightarrow> nat" where
  "json_weight (JList xs) = Suc (sum_list (map json_weight xs))"
| "json_weight (JDict kvs) = Suc (sum_list (map (\<lambda>p. Suc (json_weight (snd p))) kvs))"
| "json_weight _ = 1"

lemma json_weight_pos: "0 < json_weight v"
  by (cases v) simp_all

function has_nul_from :: "json list \<Rightarrow> bool" where
  \<comment> \<open>the worklist, its end first\<close>
  "has_nul_from [] = False"
| "has_nul_from (JText s # pending) = (if CHR 0x00 \<in> set s then True else has_nul_from pending)"
| "has_nul_from (JDict kvs # pending) =
     has_nul_from (rev (map snd kvs) @ rev (map (\<lambda>p. JText (fst p)) kvs) @ pending)"
| "has_nul_from (JList xs # pending) = has_nul_from (rev xs @ pending)"
| "has_nul_from (JNull # pending) = has_nul_from pending"
| "has_nul_from (JBool b # pending) = has_nul_from pending"
| "has_nul_from (JInt n # pending) = has_nul_from pending"
  by pat_completeness auto

lemma dict_weight:
  "sum_list (map json_weight (map snd kvs)) + sum_list (map json_weight (map (\<lambda>p. JText (fst p)) kvs))
     = sum_list (map (\<lambda>p. Suc (json_weight (snd p))) kvs)"
  by (induction kvs) simp_all

termination has_nul_from
proof (relation "measure (\<lambda>pending. sum_list (map json_weight pending))", goal_cases)
  case (3 kvs pending)
  then show ?case using dict_weight [of kvs] by (simp add: sum_list_rev comp_def flip: rev_map)
qed (simp_all add: sum_list_rev flip: rev_map)

definition has_nul :: "json \<Rightarrow> bool" where
  "has_nul v = has_nul_from [v]"

fun nul_inside :: "json \<Rightarrow> bool" where
  \<comment> \<open>by recursion on the value\<close>
  "nul_inside (JText s) \<longleftrightarrow> CHR 0x00 \<in> set s"
| "nul_inside (JList xs) \<longleftrightarrow> list_ex nul_inside xs"
| "nul_inside (JDict kvs) \<longleftrightarrow> list_ex (\<lambda>p. CHR 0x00 \<in> set (fst p) \<or> nul_inside (snd p)) kvs"
| "nul_inside _ \<longleftrightarrow> False"

section \<open>What the scans decide\<close>

lemma dict_parts:
  "list_ex nul_inside (map snd kvs) \<or> list_ex nul_inside (map (\<lambda>p. JText (fst p)) kvs)
     \<longleftrightarrow> list_ex (\<lambda>p. CHR 0x00 \<in> set (fst p) \<or> nul_inside (snd p)) kvs"
  by (induction kvs) auto

lemma has_nul_from_iff: "has_nul_from pending \<longleftrightarrow> list_ex nul_inside pending"
proof (induction pending rule: has_nul_from.induct)
  case (3 kvs pending)
  then show ?case using dict_parts [of kvs] by (auto simp del: list_ex_iff)
qed auto

lemma has_nul_iff: "has_nul v \<longleftrightarrow> nul_inside v"
  by (simp add: has_nul_def has_nul_from_iff)

fun nesting :: "json \<Rightarrow> nat" where
  "nesting (JList xs) = Suc (Max (set (0 # map nesting xs)))"
| "nesting (JDict kvs) = Suc (Max (set (0 # map (\<lambda>p. nesting (snd p)) kvs)))"
| "nesting _ = 0"

lemma of_char_less [simp]: "(of_char c :: nat) < 256"
  using of_char_mod_256 [of c, where ?'a = nat] by (metis mod_less_divisor zero_less_numeral)

lemma hex_digit_code: "n < 16 \<Longrightarrow> (of_char (hex_digit n) :: nat) = (if n < 10 then 48 + n else 87 + n)"
  by (simp add: hex_digit_def)

lemma scan_escaped: "too_deep_from limit d True False (escaped_char c @ r) = too_deep_from limit d True False r"
  by (simp add: escaped_char_def Let_def hex_digit_code)

lemma scan_quoted: "too_deep_from limit d False False (quoted s @ r) = too_deep_from limit d False False r"
proof -
  have "too_deep_from limit d True False (concat (map escaped_char s) @ CHR 0x22 # r) = too_deep_from limit d False False r"
    by (induction s) (simp_all add: scan_escaped)
  then show ?thesis by (simp add: quoted_def)
qed

lemma scan_decimal: "too_deep_from limit d False False (decimal n @ r) = too_deep_from limit d False False r"
proof -
  have "list_all is_digit s \<Longrightarrow> too_deep_from limit d False False (s @ r) = too_deep_from limit d False False r" for s
    by (induction s) (auto simp: is_digit_def Let_def)
  then show ?thesis by simp
qed

lemma scan_joined:
  assumes "\<And>t r. t \<in> set ts \<Longrightarrow> too_deep_from limit d False False (f t @ r) = (P t \<or> too_deep_from limit d False False r)"
  shows "too_deep_from limit d False False (comma_joined (map f ts) @ r)
    = (list_ex P ts \<or> too_deep_from limit d False False r)"
  using assms
proof (induction ts rule: induct_list012)
  case (3 t u ts)
  have "too_deep_from limit d False False (f t @ (CHR '','' # comma_joined (map f (u # ts)) @ r))
      = (P t \<or> too_deep_from limit d False False (CHR '','' # comma_joined (map f (u # ts)) @ r))"
    by (rule 3(3)) simp
  moreover have "too_deep_from limit d False False (comma_joined (map f (u # ts)) @ r)
      = (list_ex P (u # ts) \<or> too_deep_from limit d False False r)"
    by (rule 3(2)) (simp add: 3(3))
  ultimately show ?case by simp
qed simp_all

lemma deeper_inside:
  assumes "d + 1 \<le> int limit"
  shows "int limit < d + int (Suc (Max (set (0 # ns)))) \<longleftrightarrow> list_ex (\<lambda>n. int limit < d + 1 + int n) ns"
proof -
  define k where "k = nat (int limit - d - 1)"
  then have k: "int limit < d + 1 + int n \<longleftrightarrow> k < n" for n using assms by auto
  have "k < Max (set (0 # ns)) \<longleftrightarrow> (\<exists>n \<in> set (0 # ns). k < n)" by (rule Max_gr_iff) simp_all
  then have "k < Max (set (0 # ns)) \<longleftrightarrow> list_ex (\<lambda>n. k < n) ns" by (auto simp: list_ex_iff)
  with k show ?thesis by (simp add: algebra_simps)
qed

lemma scan_json:
  "d \<le> int limit \<Longrightarrow> too_deep_from limit d False False (json_text v @ r)
     = (int limit < d + int (nesting v) \<or> too_deep_from limit d False False r)"
proof (induction v arbitrary: d r rule: json_text.induct)
  case (3 n)
  then show ?case by (simp add: int_text_def scan_decimal)
next
  case (4 s)
  then show ?case by (simp add: scan_quoted)
next
  case (5 xs)
  show ?case
  proof (cases "int limit < d + 1")
    case False
    then have "too_deep_from limit (d + 1) False False (comma_joined (map json_text xs) @ CHR '']'' # r)
      = (list_ex (\<lambda>v. int limit < d + 1 + int (nesting v)) xs \<or> too_deep_from limit (d + 1) False False (CHR '']'' # r))"
      by (intro scan_joined) (simp add: "5.IH")
    moreover have "int limit < d + int (nesting (JList xs)) \<longleftrightarrow> list_ex (\<lambda>v. int limit < d + 1 + int (nesting v)) xs"
      using deeper_inside [of d limit "map nesting xs"] False by (simp add: list_ex_iff)
    ultimately show ?thesis using False by simp
  qed simp
next
  case (6 kvs)
  show ?case
  proof (cases "int limit < d + 1")
    case False
    then have "too_deep_from limit (d + 1) False False (comma_joined (map (\<lambda>p. quoted (fst p) @ CHR '':'' # json_text (snd p)) kvs) @ CHR ''}'' # r)
      = (list_ex (\<lambda>p. int limit < d + 1 + int (nesting (snd p))) kvs \<or> too_deep_from limit (d + 1) False False (CHR ''}'' # r))"
      by (intro scan_joined) (simp add: "6.IH" scan_quoted)
    moreover have "int limit < d + int (nesting (JDict kvs)) \<longleftrightarrow> list_ex (\<lambda>p. int limit < d + 1 + int (nesting (snd p))) kvs"
      using deeper_inside [of d limit "map (\<lambda>p. nesting (snd p)) kvs"] False by (simp add: list_ex_iff)
    ultimately show ?thesis using False by simp
  qed simp
qed (simp_all split: if_splits)

section \<open>One text for one value\<close>

declare decimal.simps [simp del]

lemma of_char_inj: "(of_char c :: nat) = of_char d \<Longrightarrow> c = d"
  by (metis char_of_char)

lemma hex_digit_inj: "m < 16 \<Longrightarrow> n < 16 \<Longrightarrow> hex_digit m = hex_digit n \<Longrightarrow> m = n"
proof -
  assume b: "m < 16" "n < 16" and "hex_digit m = hex_digit n"
  then have "(of_char (hex_digit m) :: nat) = of_char (hex_digit n)" by simp
  then show "m = n" using b by (simp add: hex_digit_code split: if_splits)
qed

lemma escaped_char_start: "escaped_char c = a # w \<Longrightarrow> a \<noteq> CHR 0x22"
  by (auto simp: escaped_char_def Let_def split: if_splits)

lemma escaped_char_nonempty: "escaped_char c \<noteq> []"
  by (simp add: escaped_char_def Let_def)

definition hex_value :: "char \<Rightarrow> nat" where
  "hex_value c = (let n = (of_char c :: nat) in if n < 87 then n - 48 else n - 87)"

fun read_char :: "string \<Rightarrow> (char \<times> string) option" where
  \<comment> \<open>one character of a JSON text, read back\<close>
  "read_char [] = None"
| "read_char (b # r) =
     (if of_char b \<noteq> (92 :: nat) then Some (b, r)
      else case r of
        [] \<Rightarrow> None
      | e # r \<Rightarrow>
         (let n = (of_char e :: nat)
          in if n = 110 then Some (char_of (10 :: nat), r)
             else if n = 114 then Some (char_of (13 :: nat), r)
             else if n = 116 then Some (char_of (9 :: nat), r)
             else if n = 98 then Some (char_of (8 :: nat), r)
             else if n = 102 then Some (char_of (12 :: nat), r)
             else if n = 117 then
               Some (char_of (16 * hex_value (r ! 2) + hex_value (r ! 3)), drop 4 r)
             else Some (e, r)))"

lemma char_by_code: "(of_char c :: nat) = n \<Longrightarrow> char_of n = c"
  by (drule sym) simp

lemma hex_value_digit: "n < 16 \<Longrightarrow> hex_value (hex_digit n) = n"
  by (auto simp: hex_value_def hex_digit_code)

lemma read_escaped: "read_char (escaped_char c @ x) = Some (c, x)"
proof -
  have "16 * ((of_char c :: nat) div 16) + of_char c mod 16 = of_char c" by simp
  then show ?thesis
    using of_char_less [of c] by (simp add: escaped_char_def Let_def hex_value_digit char_by_code)
qed

lemma escaped_char_prefix:
  assumes "escaped_char c @ x = escaped_char d @ y"
  shows "c = d \<and> x = y"
proof -
  have "Some (c, x) = Some (d, y)" unfolding read_escaped [symmetric] assms ..
  then show ?thesis by simp
qed

lemma escaped_prefix:
  "concat (map escaped_char s) @ CHR 0x22 # x = concat (map escaped_char t) @ CHR 0x22 # y \<Longrightarrow> s = t \<and> x = y"
proof (induction s arbitrary: t)
  case Nil
  then show ?case
    by (cases t; cases "escaped_char (hd t)") (auto simp: escaped_char_nonempty dest: escaped_char_start)
next
  case (Cons c s)
  show ?case
  proof (cases t)
    case Nil
    then show ?thesis using Cons.prems
      by (cases "escaped_char c") (auto simp: escaped_char_nonempty dest: escaped_char_start)
  next
    case (Cons d t')
    then show ?thesis
      using Cons.prems Cons.IH [of t'] escaped_char_prefix [of c _ d] by simp
  qed
qed

lemma quoted_prefix: "quoted s @ x = quoted t @ y \<Longrightarrow> s = t \<and> x = y"
  using escaped_prefix [of s x t y] by (simp add: quoted_def)

definition at_end :: "string \<Rightarrow> bool" where
  "at_end r \<longleftrightarrow> (case r of [] \<Rightarrow> True | c # _ \<Rightarrow> c = CHR '','' \<or> c = CHR '']'' \<or> c = CHR ''}'')"

lemma decimal_prefix:
  assumes "decimal m @ x = decimal n @ y" and "at_end x" "at_end y"
  shows "m = n \<and> x = y"
proof -
  have stops: "takeWhile is_digit z = []" "dropWhile is_digit z = z" if "at_end z" for z
    using that by (cases z; auto simp: at_end_def is_digit_def)+
  have digits: "\<And>c. c \<in> set (decimal k) \<Longrightarrow> is_digit c" for k using decimal_digits [of k] by (simp add: list_all_iff)
  have split: "takeWhile is_digit (decimal k @ z) = decimal k \<and> dropWhile is_digit (decimal k @ z) = z" if "at_end z" for k z
    using stops [OF that] takeWhile_append2 [of "decimal k" is_digit z, OF digits] dropWhile_append2 [of "decimal k" is_digit z, OF digits] by simp
  have "decimal m = decimal n"
    using split [OF assms(2), of m] split [OF assms(3), of n] unfolding assms(1) by metis
  moreover have "x = y" using split [OF assms(2), of m] split [OF assms(3), of n] unfolding assms(1) by metis
  moreover have "m = n" using arg_cong [OF \<open>decimal m = decimal n\<close>, of number] by (simp only: number_decimal)
  ultimately show ?thesis by blast
qed

lemma decimal_start: "decimal n = c # w \<Longrightarrow> is_digit c"
  using decimal_digits [of n] by simp

lemma decimal_nonempty: "decimal n \<noteq> []"
  by (subst decimal.simps) simp

lemma int_prefix:
  assumes "int_text m @ x = int_text n @ y" and "at_end x" "at_end y"
  shows "m = n \<and> x = y"
proof -
  have minus: "decimal k @ z \<noteq> CHR ''-'' # w" for k z w
    using decimal_start [of k] decimal_nonempty [of k] by (cases "decimal k") (auto simp: is_digit_def)
  show ?thesis
  proof (cases "m < 0"; cases "n < 0")
    assume "m < 0" "n < 0"
    then have "decimal (nat (- m)) @ x = decimal (nat (- n)) @ y" using assms(1) by (simp only: int_text_def if_True append.simps list.inject)
    from decimal_prefix [OF this assms(2,3)] show ?thesis using \<open>m < 0\<close> \<open>n < 0\<close> by linarith
  next
    assume "\<not> m < 0" "\<not> n < 0"
    then have "decimal (nat m) @ x = decimal (nat n) @ y" using assms(1) by (simp only: int_text_def if_False)
    from decimal_prefix [OF this assms(2,3)] show ?thesis using \<open>\<not> m < 0\<close> \<open>\<not> n < 0\<close> by linarith
  next
    assume "m < 0" "\<not> n < 0"
    then have "CHR ''-'' # decimal (nat (- m)) @ x = decimal (nat n) @ y" using assms(1) by (simp only: int_text_def if_True if_False append.simps)
    then show ?thesis using minus [of "nat n" y] by metis
  next
    assume "\<not> m < 0" "n < 0"
    then have "decimal (nat m) @ x = CHR ''-'' # decimal (nat (- n)) @ y" using assms(1) by (simp only: int_text_def if_True if_False append.simps)
    then show ?thesis using minus [of "nat m" x] by metis
  qed
qed

lemma joined_Cons: "comma_joined (t # ts) @ z = t @ (if ts = [] then z else CHR '','' # comma_joined ts @ z)"
  by (cases ts) simp_all

lemma joined_prefix:
  assumes inj: "\<And>a b u w. a \<in> set xs \<Longrightarrow> f a @ u = f b @ w \<Longrightarrow> at_end u \<Longrightarrow> at_end w \<Longrightarrow> a = b \<and> u = w"
    and start: "\<And>a w u. f a @ w \<noteq> c # u" and c: "c = CHR '']'' \<or> c = CHR ''}''"
  shows "comma_joined (map f xs) @ c # x = comma_joined (map f ys) @ c # y \<Longrightarrow> xs = ys \<and> x = y"
  using inj
proof (induction xs arbitrary: ys)
  case Nil
  then show ?case using start by (cases ys) (auto simp: joined_Cons, metis)
next
  case (Cons a xs)
  show ?case
  proof (cases ys)
    case Nil
    then show ?thesis using Cons.prems(1) start [of a] unfolding Nil list.map joined_Cons by simp
  next
    case (Cons b ys')
    let ?rest = "\<lambda>zs z. if zs = [] then c # z else CHR '','' # comma_joined (map f zs) @ c # z"
    have ends: "at_end (?rest zs z)" for zs z using c by (auto simp: at_end_def)
    have "f a @ ?rest xs x = f b @ ?rest ys' y"
      using Cons.prems(1) unfolding Cons list.map joined_Cons by simp
    from Cons.prems(2) [OF _ this ends ends] have ab: "a = b" and rest: "?rest xs x = ?rest ys' y" by auto
    have "comma_joined (map f xs) @ c # x = comma_joined (map f ys') @ c # y"
      using rest c by (auto split: if_splits)
    from Cons.IH [OF this Cons.prems(2)] ab Cons show ?thesis by simp
  qed
qed

text \<open>The first character of a text tells which kind of value it is of.\<close>

fun kind_of :: "json \<Rightarrow> nat" where
  "kind_of JNull = 0"
| "kind_of (JBool b) = (if b then 1 else 2)"
| "kind_of (JInt n) = 3"
| "kind_of (JText s) = 4"
| "kind_of (JList xs) = 5"
| "kind_of (JDict kvs) = 6"

definition kind_at :: "char \<Rightarrow> nat" where
  "kind_at c =
     (if c = CHR ''n'' then 0 else if c = CHR ''t'' then 1 else if c = CHR ''f'' then 2
      else if c = CHR 0x22 then 4 else if c = CHR ''['' then 5 else if c = CHR ''{'' then 6
      else if c = CHR ''-'' \<or> is_digit c then 3 else 7)"

lemma is_digit_cases: "is_digit c \<Longrightarrow> kind_at c = 3"
  by (auto simp: kind_at_def is_digit_def)

lemma json_text_start: "\<exists>c w. json_text v = c # w \<and> kind_at c = kind_of v"
proof (cases v)
  case (JInt n)
  have "\<exists>c w. decimal k = c # w \<and> kind_at c = 3" for k
    using decimal_start [of k] decimal_nonempty [of k] is_digit_cases by (cases "decimal k") auto
  then show ?thesis using JInt by (auto simp: int_text_def kind_at_def)
qed (auto simp: quoted_def kind_at_def is_digit_def)

lemma same_kind: "json_text v @ x = json_text w @ y \<Longrightarrow> kind_of v = kind_of w"
  using json_text_start [of v] json_text_start [of w] by (metis append_Cons list.inject)

lemma text_not_closing: "c = CHR '']'' \<or> c = CHR ''}'' \<Longrightarrow> json_text v @ w \<noteq> c # u"
  using json_text_start [of v] by (cases v) (auto simp: kind_at_def is_digit_def)

lemma json_prefix:
  "json_text v @ x = json_text w @ y \<Longrightarrow> at_end x \<Longrightarrow> at_end y \<Longrightarrow> v = w \<and> x = y"
proof (induction v arbitrary: w x y rule: json_text.induct)
  case 1
  then show ?case using same_kind [OF 1(1)] by (cases w) (auto split: if_splits)
next
  case (2 b)
  then show ?case using same_kind [OF 2(1)] by (cases w) (auto split: if_splits)
next
  case (3 n)
  then obtain m where "w = JInt m" using same_kind [OF 3(1)] by (cases w) (auto split: if_splits)
  with 3 int_prefix [of n x m y] show ?case by simp
next
  case (4 s)
  then obtain u where "w = JText u" using same_kind [OF 4(1)] by (cases w) (auto split: if_splits)
  with 4 quoted_prefix [of s x u y] show ?case by simp
next
  case (5 xs)
  then obtain ys where w: "w = JList ys" using same_kind [OF 5(2)] by (cases w) (auto split: if_splits)
  have "xs = ys \<and> x = y"
    by (rule joined_prefix [where f = json_text and c = "CHR '']''"]) (use 5 w text_not_closing in auto)
  with w show ?case by simp
next
  case (6 kvs)
  then obtain us where w: "w = JDict us" using same_kind [OF 6(2)] by (cases w) (auto split: if_splits)
  let ?f = "\<lambda>p. quoted (fst p) @ CHR '':'' # json_text (snd p)"
  have "kvs = us \<and> x = y"
  proof (rule joined_prefix [where f = ?f and c = "CHR ''}''"])
    fix a b u z assume a: "a \<in> set kvs" "?f a @ u = ?f b @ z" "at_end u" "at_end z"
    then have "fst a = fst b \<and> json_text (snd a) @ u = json_text (snd b) @ z"
      using quoted_prefix [of "fst a" "CHR '':'' # json_text (snd a) @ u" "fst b"] by simp
    then show "a = b \<and> u = z" using 6(1) [OF a(1), of u "snd b" z] a by (simp add: prod_eq_iff)
  qed (use 6(2) w in \<open>auto simp: quoted_def\<close>)
  with w show ?case by simp
qed

lemma json_text_inj: "json_text v = json_text w \<Longrightarrow> v = w"
  using json_prefix [of v "[]" w "[]"] by (simp add: at_end_def)

lemma canonical_json_eq: "canonical_json v = canonical_json w \<longleftrightarrow> jsonable v = jsonable w"
  unfolding canonical_json_def using json_text_inj by auto

section \<open>Normal form\<close>

lemma sort_key_sorted: "sorted (map f xs) \<Longrightarrow> sort_key f xs = xs"
  by (induction xs) (simp_all add: insort_is_Cons)

lemma jsonable_idem [simp]: "jsonable (jsonable v) = jsonable v"
proof (induction v rule: jsonable.induct)
  case (2 kvs)
  let ?ys = "sort_key fst (map (\<lambda>p. (fst p, jsonable (snd p))) kvs)"
  have "map (\<lambda>p. (fst p, jsonable (snd p))) ?ys = ?ys"
    by (rule map_idI) (use 2 in auto)
  then have "sort_key fst (map (\<lambda>p. (fst p, jsonable (snd p))) ?ys) = ?ys"
    by (simp add: sort_key_sorted)
  then show ?case by simp
qed simp_all

end
