(* ===== verification/WriteState.thy ===== *)
theory WriteState
  imports WriteJson AccessSystem
begin

text \<open>
  The tables of \<open>app/mcp_writes/models.py\<close>, the refusals of \<open>refusals.py\<close>, the interface of an
  operation (\<open>operations/base.py\<close>) and the questions to the authorization server (\<open>access.py\<close>). What
  an operation does to the business records is a parameter: a state of any type \<open>'b\<close> with the
  operation's functions on it. A proposal's key and a correlation id are the number of their uuid.
\<close>

section \<open>The settings\<close>

record write_settings =
  access_settings :: settings
  proposal_seconds :: int         \<comment> \<open>\<open>MCP_WRITE_PROPOSAL_SECONDS\<close>\<close>
  approval_seconds :: int         \<comment> \<open>\<open>MCP_WRITE_APPROVAL_SECONDS\<close>\<close>
  mcp_write_reverify_seconds :: int
  max_request_bytes :: int        \<comment> \<open>\<open>MCP_WRITE_MAX_REQUEST_BYTES\<close>\<close>
  gateway_key :: string           \<comment> \<open>\<open>MCP_WRITE_GATEWAY_KEY\<close>\<close>

section \<open>Tables\<close>

datatype proposal_status = PENDING | APPROVED | EXECUTED | DECLINED | EXPIRED | FAILED | STALE

datatype approval_method = TOTP | RECENT_TOTP

datatype write_event_type =
    Prepared_Event | Prepare_Refused_Event | Approved_Event | Approval_Refused_Event | Declined_Event
  | Committed_Event | Commit_Replayed_Event | Commit_Refused_Event | Failed_Event | Expired_Event

record proposal =
  p_id :: nat
  p_user :: row_id
  p_grant :: row_id
  p_family :: "row_id option"
  p_client :: string
  p_operation :: string
  p_arguments :: json
  p_digest :: string
  p_matter :: "row_id option"
  p_record_type :: string
  p_record_id :: string
  p_state :: json
  p_preview :: json
  p_status :: proposal_status
  p_expires_at :: instant
  p_executed_at :: "instant option"
  p_result :: json
  p_failure_code :: string
  p_correlation :: nat

record approval =
  ap_proposal :: nat
  ap_user :: row_id
  ap_grant :: row_id
  ap_digest :: string
  ap_approved_at :: instant
  ap_expires_at :: instant
  ap_method :: approval_method
  ap_ip :: "string option"

record write_event =
  we_type :: write_event_type
  we_succeeded :: bool
  we_proposal :: "nat option"
  we_user :: "row_id option"
  we_grant :: "row_id option"
  we_client :: string
  we_operation :: string
  we_correlation :: "nat option"
  we_detail :: json

definition final_statuses :: "proposal_status list" where
  "final_statuses = [EXECUTED, DECLINED, EXPIRED, FAILED, STALE]"

definition proposal_expired_at :: "proposal \<Rightarrow> instant \<Rightarrow> bool" where
  "proposal_expired_at p moment \<longleftrightarrow> p_expires_at p \<le> moment"

definition approval_expired_at :: "approval \<Rightarrow> instant \<Rightarrow> bool" where
  "approval_expired_at ap moment \<longleftrightarrow> ap_expires_at ap \<le> moment"

record 'b write_db =
  wr_access :: access_db
  wr_business :: 'b
  wr_proposals :: "proposal list"
  wr_approvals :: "approval list"
  wr_events :: "write_event list"

definition proposal_by_id :: "'b write_db \<Rightarrow> nat \<Rightarrow> proposal option" where
  "proposal_by_id db i = first_where (\<lambda>p. p_id p = i) (wr_proposals db)"

definition approval_of :: "'b write_db \<Rightarrow> nat \<Rightarrow> approval option" where
  "approval_of db i = first_where (\<lambda>ap. ap_proposal ap = i) (wr_approvals db)"

definition save_proposal :: "nat \<Rightarrow> (proposal \<Rightarrow> proposal) \<Rightarrow> 'b write_db \<Rightarrow> 'b write_db" where
  "save_proposal i f db = db\<lparr>wr_proposals := update_where (\<lambda>p. p_id p = i) f (wr_proposals db)\<rparr>"

definition create_proposal :: "proposal \<Rightarrow> 'b write_db \<Rightarrow> 'b write_db option" where
  "create_proposal p db =
     (if \<exists>q \<in> set (wr_proposals db). p_id q = p_id p then None
      else Some (db\<lparr>wr_proposals := wr_proposals db @ [p]\<rparr>))"

definition create_approval :: "approval \<Rightarrow> 'b write_db \<Rightarrow> 'b write_db option" where
  \<comment> \<open>\<open>proposal\<close> is one-to-one\<close>
  "create_approval ap db =
     (if \<exists>o' \<in> set (wr_approvals db). ap_proposal o' = ap_proposal ap then None
      else Some (db\<lparr>wr_approvals := wr_approvals db @ [ap]\<rparr>))"

section \<open>Refusals\<close>

record gateway_refusal =
  r_code :: string
  r_message :: string
  r_extra :: "(string \<times> json) list"

definition refused :: "string \<Rightarrow> string \<Rightarrow> gateway_refusal" where
  "refused code message = \<lparr>r_code = code, r_message = message, r_extra = []\<rparr>"

definition status_of_code :: "(string \<times> nat) list" where
  "status_of_code =
     [(''unauthorized'', 401), (''insufficient_scope'', 403), (''writes_disabled'', 403),
      (''forbidden'', 403), (''not_found'', 404), (''invalid_argument'', 400),
      (''missing_information'', 422), (''domain_rule'', 422), (''stale'', 409), (''expired'', 410),
      (''declined'', 409), (''approval_mismatch'', 409), (''already_failed'', 409),
      (''too_large'', 413), (''method_not_allowed'', 405), (''internal_error'', 500),
      (''timeout'', 504)]"

definition message_of_code :: "(string \<times> string) list" where
  "message_of_code =
     [(''unauthorized'', ''Authentication required: reconnect Juristid and try again.''),
      (''insufficient_scope'', ''This connection may only read. Reconnect Juristid and allow preparing changes.''),
      (''writes_disabled'', ''Changes through the AI connection are switched off in Juristid.''),
      (''forbidden'', ''This account may not make changes through Juristid's AI connection.''),
      (''not_found'', ''No such prepared change is available to you.''),
      (''invalid_argument'', ''An argument was not valid for this operation.''),
      (''missing_information'', ''Information the change needs was not given.''),
      (''domain_rule'', ''A Juristid rule refused this change.''),
      (''stale'', ''The record changed after this change was prepared. Nothing was saved; prepare the change again.''),
      (''expired'', ''This prepared change has expired. Nothing was saved; prepare it again.''),
      (''declined'', ''The person declined this change in Juristid. Nothing was saved.''),
      (''approval_mismatch'', ''The approval does not match this prepared change. Nothing was saved; prepare it again.''),
      (''already_failed'', ''This prepared change already failed. Nothing was saved; prepare it again.''),
      (''too_large'', ''The request is too large.''),
      (''method_not_allowed'', ''Method not allowed.''),
      (''internal_error'', ''Juristid could not complete this call. Try again.''),
      (''timeout'', ''Juristid took too long to answer. Try again.'')]"

definition max_message :: nat where "max_message = 300"

definition refusal_status :: "gateway_refusal \<Rightarrow> nat" where
  "refusal_status r = (case map_of status_of_code (r_code r) of Some n \<Rightarrow> n | None \<Rightarrow> 400)"

definition refusal_json :: "gateway_refusal \<Rightarrow> json" where
  "refusal_json r =
     (let text = take max_message
        (if r_message r \<noteq> [] then r_message r
         else case map_of message_of_code (r_code r) of Some t \<Rightarrow> t | None \<Rightarrow> ''Refused.'')
      in JDict ([(''status'', JText ''refused''), (''code'', JText (r_code r)), (''message'', JText text)]
           @ r_extra r))"

section \<open>The interface of an operation\<close>

datatype refusal_code =
  Invalid_Argument | Not_Found | Forbidden | Missing_Information | Domain_Rule | Stale_Record

fun code_text :: "refusal_code \<Rightarrow> string" where
  "code_text Invalid_Argument = ''invalid_argument''"
| "code_text Not_Found = ''not_found''"
| "code_text Forbidden = ''forbidden''"
| "code_text Missing_Information = ''missing_information''"
| "code_text Domain_Rule = ''domain_rule''"
| "code_text Stale_Record = ''stale''"

text \<open>What an operation may raise: \<open>OperationRefused\<close> with its message, a \<open>DomainError\<close>, or anything
  else, of which the code reads the class only.\<close>

datatype op_error = Operation_Refused refusal_code string | Domain_Error | Other_Error string

record change =
  ch_field :: string
  ch_label :: string
  ch_current :: json
  ch_proposed :: json

record target =
  tg_matter :: "string option"
  tg_reference :: string
  tg_title :: string
  tg_url :: string
  tg_record_type :: string
  tg_record_id :: string
  tg_record_label :: string

record preview =
  pv_summary :: string
  pv_target :: "target option"
  pv_changes :: "change list"
  pv_consequences :: "string list"
  pv_unchanged :: "string list"
  pv_warnings :: "string list"

record prepared =
  pd_canonical :: json
  pd_state :: json
  pd_preview :: preview
  pd_matter :: "row_id option"
  pd_record_type :: string
  pd_record_id :: string

record executed =
  ex_record_type :: string
  ex_record_id :: string
  ex_matter :: "string option"
  ex_reference :: string
  ex_url :: string
  ex_saved :: json

text \<open>\<open>validate\<close> is the pydantic model: the locations and kinds of what is wrong, or the validated
  arguments. \<open>lock\<close> and \<open>state\<close> take locks and read; \<open>prepare\<close> and \<open>execute\<close> return the state they
  leave. Each sees the clock, the account and the tables.\<close>

record 'b operation =
  op_label :: string
  op_validate :: "json \<Rightarrow> (string list \<times> string) list + json"
  op_prepare :: "instant \<Rightarrow> user \<Rightarrow> json \<Rightarrow> 'b \<Rightarrow> (op_error + prepared) \<times> 'b"
  op_lock :: "json \<Rightarrow> 'b \<Rightarrow> op_error + unit"
  op_state :: "instant \<Rightarrow> user \<Rightarrow> json \<Rightarrow> 'b \<Rightarrow> op_error + json"
  op_execute :: "instant \<Rightarrow> user \<Rightarrow> json \<Rightarrow> nat \<Rightarrow> 'b \<Rightarrow> (op_error + executed) \<times> 'b"

type_synonym 'b registry = "string \<Rightarrow> 'b operation option"

definition option_text :: "string option \<Rightarrow> json" where
  "option_text t = (case t of None \<Rightarrow> JNull | Some s \<Rightarrow> JText s)"

definition change_json :: "change \<Rightarrow> json" where
  "change_json c = JDict [(''field'', JText (ch_field c)), (''label'', JText (ch_label c)),
     (''current'', ch_current c), (''proposed'', ch_proposed c)]"

definition target_json :: "target \<Rightarrow> json" where
  "target_json t = JDict [(''matter_id'', option_text (tg_matter t)), (''reference'', JText (tg_reference t)),
     (''title'', JText (tg_title t)), (''url'', JText (tg_url t)), (''record_type'', JText (tg_record_type t)),
     (''record_id'', JText (tg_record_id t)), (''record_label'', JText (tg_record_label t))]"

definition preview_json :: "preview \<Rightarrow> json" where
  "preview_json v = jsonable (JDict
     [(''summary'', JText (pv_summary v)),
      (''target'', case pv_target v of None \<Rightarrow> JNull | Some t \<Rightarrow> target_json t),
      (''changes'', JList (map change_json (pv_changes v))),
      (''consequences'', JList (map JText (pv_consequences v))),
      (''unchanged'', JList (map JText (pv_unchanged v))),
      (''warnings'', JList (map JText (pv_warnings v)))])"

section \<open>The questions to the authorization server\<close>

definition writes_enabled :: "write_settings \<Rightarrow> bool" where
  "writes_enabled ws \<longleftrightarrow> is_enabled (access_settings ws) \<and> mcp_writes_enabled (access_settings ws)"

definition asked_writer :: "write_settings \<Rightarrow> instant \<Rightarrow> verified_access \<Rightarrow> access_db \<Rightarrow> user option" where
  "asked_writer ws now access db =
     (if \<not> writes_enabled ws then None else writer_for (access_settings ws) now access db)"

definition asked_may_write ::
  "write_settings \<Rightarrow> access_db \<Rightarrow> instant \<Rightarrow> user option \<Rightarrow> grant option \<Rightarrow> bool" where
  "asked_may_write ws db now uo go =
     (if \<not> writes_enabled ws \<or> uo = None \<or> go = None then False
      else may_write (access_settings ws) (break_glasses db) now uo go)"

definition asked_confirmation ::
  "write_settings \<Rightarrow> crypto \<Rightarrow> instant \<Rightarrow> instant \<Rightarrow> instant \<Rightarrow> row_id \<Rightarrow> row_id \<Rightarrow> string \<Rightarrow>
     string option \<Rightarrow> throttle_key list \<Rightarrow> access_db \<Rightarrow> (refusal exn + outcome) \<times> access_db" where
  "asked_confirmation ws cr hnow now tnow uid gid code ip throttle db =
     (if \<not> writes_enabled ws then (Inr (answer NoGrant), db)
      else confirm_write_code (access_settings ws) cr hnow now tnow uid gid code ip throttle db)"

end
