(* ===== verification/WriteProposals.thy ===== *)
theory WriteProposals
  imports WriteState
begin

text \<open>
  \<open>app/mcp_writes/proposals.py\<close>: the digest of what is approved, the correlation id, the events and
  \<open>prepare\<close>. With it Python's \<open>uuid.UUID(text)\<close> and \<open>str(uuid)\<close>, through which a proposal's id leaves
  and comes back.
\<close>

section \<open>Uuids\<close>

fun hex_text :: "nat \<Rightarrow> nat \<Rightarrow> string" where
  \<comment> \<open>the last digits of a number, as many as the first argument says\<close>
  "hex_text 0 n = []"
| "hex_text (Suc k) n = hex_text k (n div 16) @ [hex_digit (n mod 16)]"

definition uuid_text :: "nat \<Rightarrow> string" where
  \<comment> \<open>\<open>str(uuid)\<close>\<close>
  "uuid_text n =
     (let h = hex_text 32 n
      in take 8 h @ CHR ''-'' # take 4 (drop 8 h) @ CHR ''-'' # take 4 (drop 12 h) @ CHR ''-'' #
         take 4 (drop 16 h) @ CHR ''-'' # drop 20 h)"

function delete_all :: "string \<Rightarrow> string \<Rightarrow> string" where
  \<comment> \<open>\<open>s.replace(part, '''')\<close>\<close>
  "delete_all part s =
     (if part = [] \<or> s = [] then s
      else if take (length part) s = part then delete_all part (drop (length part) s)
      else hd s # delete_all part (tl s))"
  by pat_completeness auto

termination delete_all
  by (relation "measure (\<lambda>(part, s). length s)") auto

declare delete_all.simps [simp del]

definition digit_value :: "char \<Rightarrow> nat option" where
  "digit_value c =
     (let n = (of_char c :: nat)
      in if 48 \<le> n \<and> n \<le> 57 then Some (n - 48)
         else if 97 \<le> n \<and> n \<le> 102 then Some (n - 87)
         else if 65 \<le> n \<and> n \<le> 70 then Some (n - 55) else None)"

fun digits_value :: "nat \<Rightarrow> bool \<Rightarrow> nat \<Rightarrow> string \<Rightarrow> nat option" where
  \<comment> \<open>digits of a base with single underscores between them; the flag is whether they may not end here\<close>
  "digits_value base open acc [] = (if open then None else Some acc)"
| "digits_value base open acc (c # cs) =
     (if c = CHR ''_'' then (if open then None else digits_value base True acc cs)
      else case digit_value c of
        None \<Rightarrow> None
      | Some v \<Rightarrow> if base \<le> v then None else digits_value base False (base * acc + v) cs)"

definition int_base_16 :: "string \<Rightarrow> nat option" where
  \<comment> \<open>\<open>int(text, 16)\<close> of a text without a minus sign\<close>
  "int_base_16 text =
     (let s = strip text;
          s = (if s \<noteq> [] \<and> hd s = CHR ''+'' then tl s else s);
          prefixed = 2 \<le> length s \<and> s ! 0 = CHR ''0'' \<and> (s ! 1 = CHR ''x'' \<or> s ! 1 = CHR ''X'');
          s = (if prefixed then drop 2 s else s);
          s = (if prefixed \<and> s \<noteq> [] \<and> hd s = CHR ''_'' then tl s else s)
      in digits_value 16 True 0 s)"

definition int_base_10 :: "string \<Rightarrow> int option" where
  \<comment> \<open>\<open>int(text)\<close>, \<open>None\<close> for its \<open>ValueError\<close>, which it also raises over 4300 digits\<close>
  "int_base_10 text =
     (let s = strip text;
          negative = s \<noteq> [] \<and> hd s = CHR ''-'';
          s = (if s \<noteq> [] \<and> (hd s = CHR ''+'' \<or> hd s = CHR ''-'') then tl s else s)
      in if max_str_digits < length (filter is_digit s) then None
         else map_option (\<lambda>n. if negative then - int n else int n) (digits_value 10 True 0 s))"

definition parse_uuid :: "string \<Rightarrow> nat option" where
  \<comment> \<open>\<open>uuid.UUID(text)\<close>, \<open>None\<close> for its \<open>ValueError\<close>\<close>
  "parse_uuid text =
     (let h = delete_all ''-'' (strip_by (\<lambda>c. c = CHR ''{'' \<or> c = CHR ''}'')
                (delete_all ''uuid:'' (delete_all ''urn:'' text)))
      in if length h \<noteq> 32 then None else int_base_16 h)"

definition canonical_uuid :: "string \<Rightarrow> bool" where
  "canonical_uuid s \<longleftrightarrow> length s = 36 \<and>
     list_all (\<lambda>i. if i = 8 \<or> i = 13 \<or> i = 18 \<or> i = 23 then s ! i = CHR ''-'' else hex_char (s ! i)) [0..<36]"

definition parse_correlation_id :: "string option \<Rightarrow> nat option" where
  "parse_correlation_id raw =
     (case raw of None \<Rightarrow> None
      | Some s \<Rightarrow>
          if \<not> canonical_uuid (map lower_char (strip s)) then None
          else case parse_uuid (strip s) of None \<Rightarrow> None
             | Some v \<Rightarrow> if v = 0 then None else Some v)"

section \<open>The digest\<close>

definition digest_payload :: "string \<Rightarrow> json \<Rightarrow> row_id \<Rightarrow> row_id \<Rightarrow> json" where
  "digest_payload operation canonical uid gid =
     JDict [(''operation'', JText operation), (''canonical_arguments'', canonical),
            (''user'', JText (uuid_text uid)), (''grant'', JText (uuid_text gid))]"

definition arguments_digest :: "crypto \<Rightarrow> string \<Rightarrow> json \<Rightarrow> row_id \<Rightarrow> row_id \<Rightarrow> string" where
  \<comment> \<open>\<open>sha256\<close> is of the bytes of the text\<close>
  "arguments_digest cr operation canonical uid gid =
     sha256 cr (canonical_json (digest_payload operation canonical uid gid))"

definition digest_of :: "crypto \<Rightarrow> proposal \<Rightarrow> string" where
  "digest_of cr p = arguments_digest cr (p_operation p) (p_arguments p) (p_user p) (p_grant p)"

section \<open>The events\<close>

text \<open>What an event is about, when it is about no proposal or about somebody else than its person.\<close>

record about =
  ab_user :: "row_id option"
  ab_grant :: "row_id option"
  ab_client :: string
  ab_operation :: string

definition nobody :: about where
  "nobody = \<lparr>ab_user = None, ab_grant = None, ab_client = [], ab_operation = []\<rparr>"

definition record_write ::
  "nat option \<Rightarrow> write_event_type \<Rightarrow> bool \<Rightarrow> proposal option \<Rightarrow> about \<Rightarrow> (string \<times> json) list \<Rightarrow>
     'b write_db \<Rightarrow> 'b write_db" where
  \<comment> \<open>\<open>record\<close>; \<open>call\<close> is the gateway call's correlation id. No caller names one itself.\<close>
  "record_write call et succeeded po ab detail db =
     (let uid = (case (ab_user ab, po) of (None, Some p) \<Rightarrow> Some (p_user p) | (u, _) \<Rightarrow> u);
          gid = (case (ab_grant ab, po) of (None, Some p) \<Rightarrow> Some (p_grant p) | (g, _) \<Rightarrow> g);
          cid = (case po of Some p \<Rightarrow> if ab_client ab = [] then p_client p else ab_client ab
                 | None \<Rightarrow> ab_client ab);
          opn = (case po of Some p \<Rightarrow> if ab_operation ab = [] then p_operation p else ab_operation ab
                 | None \<Rightarrow> ab_operation ab);
          own = map_option p_correlation po;
          detail = (case (own, call) of
                 (Some c, Some k) \<Rightarrow>
                   if k \<noteq> c \<and> map_of detail ''call_correlation_id'' = None
                   then detail @ [(''call_correlation_id'', JText (uuid_text k))] else detail
               | _ \<Rightarrow> detail)
      in db\<lparr>wr_events := wr_events db @
           [\<lparr>we_type = et, we_succeeded = succeeded, we_proposal = map_option p_id po, we_user = uid,
             we_grant = gid, we_client = take 500 cid, we_operation = take 64 opn,
             we_correlation = (case own of None \<Rightarrow> call | c \<Rightarrow> c), we_detail = jsonable (JDict detail)\<rparr>]\<rparr>)"

section \<open>What the gateway answers\<close>

definition approve_path :: "nat \<Rightarrow> string" where
  "approve_path pid = ''/mcp-ligipaas/muudatus/'' @ uuid_text pid @ ''/''"

definition approval_url :: "write_settings \<Rightarrow> nat \<Rightarrow> string" where
  "approval_url ws pid = rstrip_char CHR ''/'' (public_origin (access_settings ws)) @ approve_path pid"

definition padded :: "nat \<Rightarrow> nat \<Rightarrow> string" where
  "padded k n = replicate (k - length (decimal n)) CHR ''0'' @ decimal n"

definition isoformat :: "instant \<Rightarrow> string" where
  \<comment> \<open>of an aware \<open>datetime\<close> in UTC\<close>
  "isoformat t =
     (let d = moved (Date 1970 1 1) (t div 86400000000);
          u = t mod 1000000;
          s = (t div 1000000) mod 86400
      in padded 4 (nat (year_of d)) @ CHR ''-'' # padded 2 (nat (month_of d)) @ CHR ''-'' #
         padded 2 (nat (day_of d)) @ CHR ''T'' # padded 2 (nat (s div 3600)) @ CHR '':'' #
         padded 2 (nat (s mod 3600 div 60)) @ CHR '':'' # padded 2 (nat (s mod 60)) @
         (if u = 0 then [] else CHR ''.'' # padded 6 (nat u)) @ ''+00:00'')"

definition proposal_answer :: "write_settings \<Rightarrow> 'b registry \<Rightarrow> proposal \<Rightarrow> json" where
  "proposal_answer ws reg p =
     JDict [(''status'', JText ''prepared''),
       (''proposal'', JDict
         [(''id'', JText (uuid_text (p_id p))), (''operation'', JText (p_operation p)),
          (''label'', JText (case reg (p_operation p) of Some opn \<Rightarrow> op_label opn | None \<Rightarrow> p_operation p)),
          (''expires_at'', JText (isoformat (p_expires_at p))),
          (''approval_url'', JText (approval_url ws (p_id p))), (''preview'', p_preview p)])]"

section \<open>Validation\<close>

definition max_named_fields :: nat where "max_named_fields = 10"

fun joined_with :: "string \<Rightarrow> string list \<Rightarrow> string" where
  "joined_with sep [] = []"
| "joined_with sep [t] = t"
| "joined_with sep (t # u # ts) = t @ sep @ joined_with sep (u # ts)"

definition field_name :: "string list \<Rightarrow> string" where
  "field_name location = (let t = joined_with ''.'' location in if t = [] then ''arguments'' else t)"

definition invalid_arguments :: "(string list \<times> string) list \<Rightarrow> gateway_refusal" where
  "invalid_arguments errors =
     (let problems = map (\<lambda>(loc, kind). field_name loc @ '' ('' @ kind @ '')'') errors;
          named = take max_named_fields (sort (remdups problems))
      in \<lparr>r_code = ''invalid_argument'',
          r_message = ''Invalid arguments: '' @ joined_with ''; '' named @ ''.'',
          r_extra = [(''fields'', JList (map (\<lambda>n. JText (takeWhile (\<lambda>c. c \<noteq> CHR '' '') n)) named))]\<rparr>)"

fun spaced_text :: "json \<Rightarrow> string" where
  \<comment> \<open>\<open>json.dumps\<close> with its own separators\<close>
  "spaced_text (JList xs) = CHR ''['' # joined_with '', '' (map spaced_text xs) @ '']''"
| "spaced_text (JDict kvs) =
     CHR ''{'' # joined_with '', '' (map (\<lambda>p. quoted (fst p) @ '': '' @ spaced_text (snd p)) kvs) @ ''}''"
| "spaced_text v = json_text v"

definition utf8_size :: "string \<Rightarrow> nat" where
  "utf8_size s = sum_list (map (\<lambda>c. if (of_char c :: nat) < 128 then 1 else 2) s)"

definition too_large :: "write_settings \<Rightarrow> json \<Rightarrow> bool" where
  "too_large ws raw \<longleftrightarrow> max_request_bytes ws < int (utf8_size (spaced_text raw))"

section \<open>Prepare\<close>

definition prepare_refused ::
  "nat option \<Rightarrow> gateway_refusal \<Rightarrow> user \<Rightarrow> verified_access \<Rightarrow> string \<Rightarrow> (string \<times> json) list \<Rightarrow>
     'b write_db \<Rightarrow> (gateway_refusal + json) \<times> 'b write_db" where
  "prepare_refused call r u access operation detail db =
     (Inl r, record_write call Prepare_Refused_Event False None
        \<lparr>ab_user = Some (u_id u), ab_grant = Some (va_grant_id access), ab_client = va_client_id access,
         ab_operation = operation\<rparr> ((''code'', JText (r_code r)) # detail) db)"

definition new_proposal ::
  "write_settings \<Rightarrow> crypto \<Rightarrow> instant \<Rightarrow> nat \<Rightarrow> nat \<Rightarrow> user \<Rightarrow> verified_access \<Rightarrow> string \<Rightarrow> prepared \<Rightarrow>
     proposal" where
  "new_proposal ws cr now pid corr u access name pd =
     (let canonical = jsonable (pd_canonical pd)
      in \<lparr>p_id = pid, p_user = u_id u, p_grant = va_grant_id access, p_family = va_family_id access,
          p_client = take 500 (va_client_id access), p_operation = name, p_arguments = canonical,
          p_digest = arguments_digest cr name canonical (u_id u) (va_grant_id access),
          p_matter = pd_matter pd, p_record_type = take 100 (pd_record_type pd),
          p_record_id = take 100 (pd_record_id pd), p_state = jsonable (pd_state pd),
          p_preview = preview_json (pd_preview pd), p_status = PENDING,
          p_expires_at = now + seconds (proposal_seconds ws), p_executed_at = None,
          p_result = JDict [], p_failure_code = [], p_correlation = corr\<rparr>)"

definition store_proposal ::
  "write_settings \<Rightarrow> crypto \<Rightarrow> 'b registry \<Rightarrow> nat option \<Rightarrow> instant \<Rightarrow> nat \<Rightarrow> nat \<Rightarrow> user \<Rightarrow> verified_access \<Rightarrow>
     string \<Rightarrow> nat option \<Rightarrow> prepared \<Rightarrow> 'b write_db \<Rightarrow> (string + (gateway_refusal + json)) \<times> 'b write_db" where
  \<comment> \<open>\<open>pid\<close> and \<open>new_corr\<close> are the two \<open>uuid4\<close>\<close>
  "store_proposal ws cr reg call now pid new_corr u access name corr pd db =
     (let c = (case corr of
                 Some c \<Rightarrow> if \<exists>q \<in> set (wr_proposals db). p_correlation q = c then new_corr else c
               | None \<Rightarrow> new_corr);
          p = new_proposal ws cr now pid c u access name pd
      in case create_proposal p db of
           None \<Rightarrow> (Inl ''IntegrityError'', db)
         | Some db1 \<Rightarrow>
             (Inr (Inr (proposal_answer ws reg p)),
              record_write call Prepared_Event True (Some p) nobody [] db1))"

definition prepare_body ::
  "write_settings \<Rightarrow> crypto \<Rightarrow> 'b registry \<Rightarrow> nat option \<Rightarrow> instant \<Rightarrow> nat \<Rightarrow> nat \<Rightarrow> verified_access \<Rightarrow> user \<Rightarrow>
     string option \<Rightarrow> json option \<Rightarrow> nat option \<Rightarrow> 'b write_db \<Rightarrow>
     (string + (gateway_refusal + json)) \<times> 'b write_db" where
  \<comment> \<open>\<open>_prepare\<close>: \<open>Inl\<close> is an exception, by its class. The name is \<open>None\<close> when it is no text, the
    arguments when there are none. The savepoint around the operation's own \<open>prepare\<close> is rolled back.\<close>
  "prepare_body ws cr reg call now pid new_corr access u name raw corr db =
     (case (case name of None \<Rightarrow> None | Some n \<Rightarrow> map_option (Pair n) (reg n)) of
        None \<Rightarrow> map_prod Inr id (prepare_refused call (refused ''invalid_argument'' ''Unknown operation.'') u access []
                  [(''reason'', JText ''unknown_operation'')] db)
      | Some (n, opn) \<Rightarrow>
          (case raw of
             Some (JDict kvs) \<Rightarrow>
               (if too_large ws (JDict kvs) then
                  map_prod Inr id (prepare_refused call (refused ''too_large'' []) u access n [] db)
                else if has_nul (JDict kvs) then
                  map_prod Inr id (prepare_refused call
                    (refused ''invalid_argument'' ''Text may not contain NUL characters.'') u access n
                    [(''reason'', JText ''nul_character'')] db)
                else case op_validate opn (JDict kvs) of
                  Inl errors \<Rightarrow>
                    map_prod Inr id (prepare_refused call (invalid_arguments errors) u access n
                      (r_extra (invalid_arguments errors)) db)
                | Inr arguments \<Rightarrow>
                    (case fst (op_prepare opn now u arguments (wr_business db)) of
                       Inl (Operation_Refused code message) \<Rightarrow>
                         map_prod Inr id (prepare_refused call (refused (code_text code) message) u access n [] db)
                     | Inl Domain_Error \<Rightarrow>
                         map_prod Inr id (prepare_refused call (refused ''domain_rule'' []) u access n [] db)
                     | Inl (Other_Error kind) \<Rightarrow> (Inl kind, db)
                     | Inr pd \<Rightarrow> store_proposal ws cr reg call now pid new_corr u access n corr pd db))
           | _ \<Rightarrow>
               map_prod Inr id (prepare_refused call
                 (refused ''invalid_argument'' ''The arguments must be a JSON object.'') u access n
                 [(''reason'', JText ''not_an_object'')] db)))"

definition prepare_change ::
  "write_settings \<Rightarrow> crypto \<Rightarrow> 'b registry \<Rightarrow> nat option \<Rightarrow> instant \<Rightarrow> nat \<Rightarrow> nat \<Rightarrow> verified_access \<Rightarrow> user \<Rightarrow>
     string option \<Rightarrow> json option \<Rightarrow> nat option \<Rightarrow> 'b write_db \<Rightarrow> (gateway_refusal + json) \<times> 'b write_db" where
  "prepare_change ws cr reg call now pid new_corr access u name raw corr db =
     (case prepare_body ws cr reg call now pid new_corr access u name raw corr db of
        (Inr res, db1) \<Rightarrow> (res, db1)
      | (Inl kind, _) \<Rightarrow>
          prepare_refused call (refused ''internal_error'' []) u access
            (case name of Some n \<Rightarrow> if reg n = None then [] else n | None \<Rightarrow> [])
            [(''error'', JText kind)] db)"

end
