(* ===== verification/WriteCommit.thy ===== *)
theory WriteCommit
  imports WriteProposals
begin

text \<open>
  \<open>app/mcp_writes/commit.py\<close>: executing one approved proposal, once. The whole of \<open>commit\<close> is one
  transaction under the proposal's row lock and every refusal is returned from inside it, so it is one
  function from the state to the answer and the state after it. \<open>now\<close> is the clock at the approval's
  expiry, \<open>wnow\<close> in \<open>writer_for\<close> and the operation, \<open>xnow\<close> at the end.
\<close>

section \<open>Its parts\<close>

definition parse_id :: "string option \<Rightarrow> nat option" where
  \<comment> \<open>\<open>None\<close> is a value that is no text\<close>
  "parse_id raw =
     (case raw of None \<Rightarrow> None | Some s \<Rightarrow> if 64 < length s then None else parse_uuid s)"

definition same_principal :: "proposal \<Rightarrow> verified_access \<Rightarrow> user option \<Rightarrow> bool" where
  "same_principal p access uo \<longleftrightarrow>
     (case uo of None \<Rightarrow> False
      | Some u \<Rightarrow> p_user p = u_id u \<and> p_user p = va_user_id access \<and> p_grant p = va_grant_id access \<and>
          p_client p = take 500 (va_client_id access) \<and> p_family p = va_family_id access)"

fun final_code :: "proposal_status \<Rightarrow> string option" where
  "final_code DECLINED = Some ''declined''"
| "final_code FAILED = Some ''already_failed''"
| "final_code STALE = Some ''stale''"
| "final_code EXPIRED = Some ''expired''"
| "final_code _ = None"

definition receipt :: "write_settings \<Rightarrow> executed \<Rightarrow> json" where
  "receipt ws ex =
     (let url = (if ex_url ex \<noteq> [] \<and> hd (ex_url ex) = CHR ''/''
                 then issuer (access_settings ws) @ ex_url ex else ex_url ex)
      in jsonable (JDict
        [(''record_type'', JText (ex_record_type ex)), (''record_id'', JText (ex_record_id ex)),
         (''matter_id'', option_text (ex_matter ex)), (''matter_reference'', JText (ex_reference ex)),
         (''url'', JText url), (''saved'', ex_saved ex)]))"

definition executed_answer :: "proposal \<Rightarrow> bool \<Rightarrow> json" where
  "executed_answer p replayed =
     JDict [(''status'', JText ''executed''), (''replayed'', JBool replayed),
            (''proposal_id'', JText (uuid_text (p_id p))), (''result'', p_result p)]"

definition awaiting_answer :: "write_settings \<Rightarrow> proposal \<Rightarrow> json" where
  "awaiting_answer ws p =
     JDict [(''status'', JText ''awaiting_approval''), (''proposal_id'', JText (uuid_text (p_id p))),
            (''approval_url'', JText (approval_url ws (p_id p))),
            (''expires_at'', JText (isoformat (p_expires_at p)))]"

definition ended :: "proposal_status \<Rightarrow> string \<Rightarrow> proposal \<Rightarrow> proposal" where
  "ended status code p = p\<lparr>p_status := status, p_failure_code := code\<rparr>"

definition finish_proposal ::
  "nat option \<Rightarrow> proposal \<Rightarrow> proposal_status \<Rightarrow> string \<Rightarrow> write_event_type \<Rightarrow> string \<Rightarrow>
     (string \<times> json) list \<Rightarrow> 'b write_db \<Rightarrow> (gateway_refusal + json) \<times> 'b write_db" where
  \<comment> \<open>\<open>_finish\<close>\<close>
  "finish_proposal call p status code event message detail db =
     (Inl (refused code message),
      record_write call event False (Some (ended status (take 32 code) p)) nobody
        ((''code'', JText code) # detail) (save_proposal (p_id p) (ended status (take 32 code)) db))"

definition refuse_commit ::
  "nat option \<Rightarrow> proposal option \<Rightarrow> string \<Rightarrow> user option \<Rightarrow> verified_access \<Rightarrow> (string \<times> json) list \<Rightarrow>
     'b write_db \<Rightarrow> (gateway_refusal + json) \<times> 'b write_db" where
  "refuse_commit call po code uo access detail db =
     (Inl (refused code []),
      record_write call Commit_Refused_Event False po
        (case po of
           None \<Rightarrow> \<lparr>ab_user = map_option u_id uo, ab_grant = Some (va_grant_id access),
                    ab_client = va_client_id access, ab_operation = []\<rparr>
         | Some _ \<Rightarrow> nobody)
        ((''code'', JText code) # detail) db)"

definition approval_holds :: "crypto \<Rightarrow> proposal \<Rightarrow> approval \<Rightarrow> bool" where
  "approval_holds cr p ap \<longleftrightarrow>
     (let recomputed = digest_of cr p
      in ap_user ap = p_user p \<and> ap_grant ap = p_grant p \<and> ap_digest ap = p_digest p \<and>
         recomputed = p_digest p)"

abbreviation reason :: "string \<Rightarrow> (string \<times> json) list" where
  "reason r \<equiv> [(''reason'', JText r)]"

definition json_field :: "string \<Rightarrow> json \<Rightarrow> json option" where
  "json_field k v = (case v of JDict kvs \<Rightarrow> map_of kvs k | _ \<Rightarrow> None)"

definition carried_out :: "instant \<Rightarrow> json \<Rightarrow> proposal \<Rightarrow> proposal" where
  "carried_out xnow stored p =
     p\<lparr>p_status := EXECUTED, p_executed_at := Some xnow, p_result := stored, p_failure_code := []\<rparr>"

section \<open>The commit\<close>

definition execute_proposal ::
  "write_settings \<Rightarrow> nat option \<Rightarrow> instant \<Rightarrow> instant \<Rightarrow> proposal \<Rightarrow> user \<Rightarrow> 'b operation \<Rightarrow> 'b write_db \<Rightarrow>
     (gateway_refusal + json) \<times> 'b write_db" where
  \<comment> \<open>the savepoint around \<open>execute\<close> and what follows it\<close>
  "execute_proposal ws call wnow xnow p writer opn db =
     (case op_execute opn wnow writer (p_arguments p) (p_id p) (wr_business db) of
        (Inl (Operation_Refused code message), _) \<Rightarrow>
          finish_proposal call p FAILED (code_text code) Failed_Event message [] db
      | (Inl Domain_Error, _) \<Rightarrow> finish_proposal call p FAILED ''domain_rule'' Failed_Event [] [] db
      | (Inl (Other_Error kind), _) \<Rightarrow>
          (Inl (refused ''internal_error'' []),
           record_write call Failed_Event False (Some p) nobody
             [(''code'', JText ''internal_error''), (''retryable'', JBool True), (''error'', JText kind)] db)
      | (Inr ex, business) \<Rightarrow>
          (let stored = receipt ws ex;
               done = carried_out xnow stored p;
               detail = map (\<lambda>k. (k, case json_field k stored of Some v \<Rightarrow> v | None \<Rightarrow> JText []))
                          [''record_type'', ''record_id'']
           in (Inr (executed_answer done False),
               record_write call Committed_Event True (Some done) nobody detail
                 (save_proposal (p_id p) (carried_out xnow stored) (db\<lparr>wr_business := business\<rparr>)))))"

definition commit_as_writer ::
  "write_settings \<Rightarrow> 'b registry \<Rightarrow> nat option \<Rightarrow> instant \<Rightarrow> instant \<Rightarrow> proposal \<Rightarrow> user \<Rightarrow> 'b write_db \<Rightarrow>
     (gateway_refusal + json) \<times> 'b write_db" where
  \<comment> \<open>from the operation's lookup on\<close>
  "commit_as_writer ws reg call wnow xnow p writer db =
     (case reg (p_operation p) of
        None \<Rightarrow> finish_proposal call p FAILED ''domain_rule'' Failed_Event [] (reason ''unknown_operation'') db
      | Some opn \<Rightarrow>
          (case (case op_lock opn (p_arguments p) (wr_business db) of
                   Inl e \<Rightarrow> Inl e
                 | Inr _ \<Rightarrow> map_sum id jsonable (op_state opn wnow writer (p_arguments p) (wr_business db))) of
             Inl (Other_Error kind) \<Rightarrow> (Inl (refused ''internal_error'' []), db)
           | Inl (Operation_Refused code message) \<Rightarrow>
               finish_proposal call p STALE ''stale'' Commit_Refused_Event []
                 (reason (''state_'' @ code_text code)) db
           | Inl Domain_Error \<Rightarrow>
               finish_proposal call p STALE ''stale'' Commit_Refused_Event [] (reason ''state_domain_rule'') db
           | Inr current \<Rightarrow>
               (if current \<noteq> p_state p then
                  finish_proposal call p STALE ''stale'' Commit_Refused_Event [] (reason ''state_changed'') db
                else execute_proposal ws call wnow xnow p writer opn db)))"

definition commit_approved ::
  "write_settings \<Rightarrow> crypto \<Rightarrow> 'b registry \<Rightarrow> nat option \<Rightarrow> instant \<Rightarrow> instant \<Rightarrow> instant \<Rightarrow>
     verified_access \<Rightarrow> user option \<Rightarrow> proposal \<Rightarrow> approval \<Rightarrow> 'b write_db \<Rightarrow>
     (gateway_refusal + json) \<times> 'b write_db" where
  \<comment> \<open>from the approval's check on\<close>
  "commit_approved ws cr reg call now wnow xnow access uo p ap db =
     (if \<not> approval_holds cr p ap then
        finish_proposal call p FAILED ''approval_mismatch'' Commit_Refused_Event []
          (reason ''digest_or_principal'') db
      else if approval_expired_at ap now then
        finish_proposal call p EXPIRED ''expired'' Expired_Event [] (reason ''approval_expired'') db
      else case asked_writer ws wnow access (wr_access db) of
        None \<Rightarrow> refuse_commit call (Some p) ''forbidden'' uo access (reason ''no_longer_writer'') db
      | Some writer \<Rightarrow>
          (if u_id writer \<noteq> p_user p then
             refuse_commit call (Some p) ''forbidden'' uo access (reason ''no_longer_writer'') db
           else commit_as_writer ws reg call wnow xnow p writer db))"

definition commit_unapproved ::
  "write_settings \<Rightarrow> nat option \<Rightarrow> instant \<Rightarrow> proposal \<Rightarrow> 'b write_db \<Rightarrow>
     (gateway_refusal + json) \<times> 'b write_db" where
  \<comment> \<open>the branch without an approval row\<close>
  "commit_unapproved ws call now p db =
     (if p_status p = PENDING \<and> proposal_expired_at p now then
        finish_proposal call p EXPIRED ''expired'' Expired_Event [] (reason ''not_approved_in_time'') db
      else if p_status p = PENDING then
        (Inr (awaiting_answer ws p),
         record_write call Commit_Refused_Event False (Some p) nobody
           [(''code'', JText ''awaiting_approval'')] db)
      else finish_proposal call p FAILED ''approval_mismatch'' Commit_Refused_Event []
             (reason ''no_approval_row'') db)"

definition commit_proposal ::
  "write_settings \<Rightarrow> crypto \<Rightarrow> 'b registry \<Rightarrow> nat option \<Rightarrow> instant \<Rightarrow> instant \<Rightarrow> instant \<Rightarrow>
     verified_access \<Rightarrow> user option \<Rightarrow> string option \<Rightarrow> 'b write_db \<Rightarrow>
     (gateway_refusal + json) \<times> 'b write_db" where
  "commit_proposal ws cr reg call now wnow xnow access uo raw db =
     (case parse_id raw of
        None \<Rightarrow> (Inl (refused ''not_found'' []), db)
      | Some pid \<Rightarrow>
          (if \<not> writes_enabled ws then (Inl (refused ''writes_disabled'' []), db)
           else case proposal_by_id db pid of
             None \<Rightarrow> refuse_commit call None ''not_found'' uo access (reason ''no_such_proposal'') db
           | Some p \<Rightarrow>
               (if \<not> same_principal p access uo then
                  (Inl (refused ''not_found'' []),
                   record_write call Commit_Refused_Event False (Some p)
                     \<lparr>ab_user = map_option u_id uo, ab_grant = Some (va_grant_id access),
                      ab_client = va_client_id access, ab_operation = []\<rparr>
                     [(''code'', JText ''not_found''), (''reason'', JText ''principal_mismatch'')] db)
                else if p_status p = EXECUTED then
                  (Inr (executed_answer p True),
                   record_write call Commit_Replayed_Event True (Some p) nobody [] db)
                else case final_code (p_status p) of
                  Some code \<Rightarrow> refuse_commit call (Some p) code uo access [] db
                | None \<Rightarrow>
                    (case approval_of db pid of
                       None \<Rightarrow> commit_unapproved ws call now p db
                     | Some ap \<Rightarrow> commit_approved ws cr reg call now wnow xnow access uo p ap db))))"

end
