(* ===== verification/WriteApproval.thy ===== *)
theory WriteApproval
  imports WriteCommit
begin

text \<open>
  \<open>app/mcp_writes/approval_views.py\<close>: the page on which a person approves, declines or withdraws a
  prepared change. The view runs several transactions, each under the proposal's row lock; each is a
  function here, and \<open>approve_view\<close> composes them with \<open>meanwhile k\<close>, whatever other transactions do
  before the \<open>k\<close>-th of them. \<open>None\<close> as the result of a transaction is an exception, which rolls it
  back and answers a server error. The account is the one the request was loaded with.
\<close>

section \<open>The request, the session, the page\<close>

record recent_verification =
  rv_binding :: string
  rv_verified_at :: instant

record approve_request =
  q_post :: bool
  q_decision :: string      \<comment> \<open>\<open>otsus\<close>\<close>
  q_code :: string          \<comment> \<open>\<open>kood\<close>\<close>
  q_ip :: "string option"
  q_gate_open :: bool       \<comment> \<open>no shared gate, or it was passed\<close>
  q_gate_pass :: string
  q_throttle :: "throttle_key list"
  q_recent :: "recent_verification option"

record page_clock =
  ck_view :: instant
  ck_first :: instant
  ck_recent :: instant
  ck_hold :: instant
  ck_code :: instant
  ck_totp :: instant
  ck_second :: instant
  ck_remember :: instant

datatype page_text =
    No_Text | Stale_Notice | Generic_Notice | Choose | Bad_Code_Error | Suspended_Error
  | Throttled_Error int | Locked_Error int | Done_Text | Withdrawn_Text | Status_Text proposal_status

datatype approve_page =
    Login_Redirect | Page_Not_Found | Refusal_Page | Server_Error
  | Proposal_Page proposal bool page_text nat

section \<open>A recent code\<close>

definition recent_binding :: "(string \<Rightarrow> string) \<Rightarrow> string \<Rightarrow> user \<Rightarrow> grant \<Rightarrow> string" where
  \<comment> \<open>\<open>keyed\<close> is \<open>salted_hmac\<close>\<close>
  "recent_binding keyed gate_pass u g =
     keyed (joined_with [CHR 0x1F] [uuid_text (g_id g), uuid_text (u_id u), decimal (u_epoch u), gate_pass])"

definition reverify_seconds :: "write_settings \<Rightarrow> int" where
  "reverify_seconds ws = max 0 (mcp_write_reverify_seconds ws)"

definition recent_holds ::
  "write_settings \<Rightarrow> (string \<Rightarrow> string) \<Rightarrow> instant \<Rightarrow> approve_request \<Rightarrow> user \<Rightarrow> grant \<Rightarrow> bool" where
  "recent_holds ws keyed now req u g \<longleftrightarrow>
     (if is_suspended g \<or> is_locked_at g now then False
      else case q_recent req of
        None \<Rightarrow> False
      | Some stored \<Rightarrow>
          (if reverify_seconds ws = 0 then False
           else if \<not> same (rv_binding stored) (recent_binding keyed (q_gate_pass req) u g) then False
           else let age = now - rv_verified_at stored in 0 \<le> age \<and> age < seconds (reverify_seconds ws)))"

definition remember ::
  "write_settings \<Rightarrow> (string \<Rightarrow> string) \<Rightarrow> instant \<Rightarrow> approve_request \<Rightarrow> user \<Rightarrow> grant \<Rightarrow>
     recent_verification option" where
  "remember ws keyed now req u g =
     (if reverify_seconds ws = 0 then None
      else Some \<lparr>rv_binding = recent_binding keyed (q_gate_pass req) u g, rv_verified_at = now\<rparr>)"

section \<open>The checks\<close>

datatype staleness = Current | Moved_On | State_Raises

definition staleness_of :: "'b registry \<Rightarrow> instant \<Rightarrow> proposal \<Rightarrow> user \<Rightarrow> 'b write_db \<Rightarrow> staleness" where
  \<comment> \<open>\<open>is_stale\<close>, with the exception it lets through\<close>
  "staleness_of reg now p u db =
     (case reg (p_operation p) of
        None \<Rightarrow> Moved_On
      | Some opn \<Rightarrow>
          (case op_state opn now u (p_arguments p) (wr_business db) of
             Inl (Other_Error kind) \<Rightarrow> State_Raises
           | Inl _ \<Rightarrow> Moved_On
           | Inr current \<Rightarrow> if jsonable current \<noteq> p_state p then Moved_On else Current))"

definition may_approve :: "write_settings \<Rightarrow> instant \<Rightarrow> user \<Rightarrow> grant option \<Rightarrow> 'b write_db \<Rightarrow> bool" where
  "may_approve ws now u go db \<longleftrightarrow>
     (case go of None \<Rightarrow> False
      | Some g \<Rightarrow> g_status g = Active \<and> asked_may_write ws (wr_access db) now (Some u) (Some g))"

definition owned_proposal ::
  "write_settings \<Rightarrow> instant \<Rightarrow> user \<Rightarrow> nat \<Rightarrow> 'b write_db \<Rightarrow> (proposal \<times> grant) option" where
  "owned_proposal ws now u pid db =
     (case proposal_by_id db pid of
        None \<Rightarrow> None
      | Some p \<Rightarrow>
          (if p_user p \<noteq> u_id u then None
           else case grant_by_id (wr_access db) (p_grant p) of
             None \<Rightarrow> None
           | Some g \<Rightarrow> if may_approve ws now u (Some g) db then Some (p, g) else None))"

datatype problem = Not_Pending | Out_Of_Time | Digest_Differs | No_Write_Right | Record_Moved_On | Raises

definition problem_of ::
  "write_settings \<Rightarrow> crypto \<Rightarrow> 'b registry \<Rightarrow> instant \<Rightarrow> user \<Rightarrow> proposal \<Rightarrow> 'b write_db \<Rightarrow> problem option" where
  "problem_of ws cr reg now u p db =
     (if p_status p \<noteq> PENDING then Some Not_Pending
      else if proposal_expired_at p now then Some Out_Of_Time
      else if digest_of cr p \<noteq> p_digest p then Some Digest_Differs
      else if \<not> may_approve ws now u (grant_by_id (wr_access db) (p_grant p)) db then Some No_Write_Right
      else case staleness_of reg now p u db of
        Moved_On \<Rightarrow> Some Record_Moved_On | State_Raises \<Rightarrow> Some Raises | Current \<Rightarrow> None)"

fun problem_text :: "problem \<Rightarrow> string" where
  "problem_text Not_Pending = ''not_pending''"
| "problem_text Out_Of_Time = ''expired''"
| "problem_text Digest_Differs = ''digest''"
| "problem_text No_Write_Right = ''no_write_right''"
| "problem_text Record_Moved_On = ''stale''"
| "problem_text Raises = []"

fun settled_status :: "problem \<Rightarrow> proposal_status option" where
  "settled_status Out_Of_Time = Some EXPIRED"
| "settled_status Digest_Differs = Some FAILED"
| "settled_status Record_Moved_On = Some STALE"
| "settled_status _ = None"

section \<open>The transactions\<close>

definition settle :: "proposal \<Rightarrow> problem \<Rightarrow> 'b write_db \<Rightarrow> 'b write_db" where
  "settle p problem db =
     (let code = problem_text problem;
          f = (case settled_status problem of
                 None \<Rightarrow> id
               | Some st \<Rightarrow> ended st (if problem = Digest_Differs then ''approval_mismatch'' else code))
      in record_write None Approval_Refused_Event False (Some (f p)) nobody [(''code'', JText code)]
           (save_proposal (p_id p) f db))"

definition refuse_stranger :: "user \<Rightarrow> nat \<Rightarrow> 'b write_db \<Rightarrow> 'b write_db" where
  "refuse_stranger u pid db =
     record_write None Approval_Refused_Event False (proposal_by_id db pid) (nobody\<lparr>ab_user := Some (u_id u)\<rparr>)
       [(''code'', JText ''refused''), (''reason'', JText ''not_this_persona_or_no_write_right'')] db"

definition expire_due :: "nat \<Rightarrow> 'b write_db \<Rightarrow> 'b write_db" where
  \<comment> \<open>the view's own step on a pending proposal past its time\<close>
  "expire_due pid db =
     (case proposal_by_id db pid of
        Some p \<Rightarrow>
          (if p_status p = PENDING then
             record_write None Expired_Event False (Some (ended EXPIRED ''expired'' p)) nobody
               [(''code'', JText ''expired'')] (save_proposal pid (ended EXPIRED ''expired'') db)
           else db)
      | None \<Rightarrow> db)"

definition decline_locked :: "string option \<Rightarrow> nat \<Rightarrow> 'b write_db \<Rightarrow> proposal option \<times> 'b write_db" where
  "decline_locked ip pid db =
     (case proposal_by_id db pid of
        None \<Rightarrow> (None, db)
      | Some p \<Rightarrow>
          (if p_status p = PENDING then
             (Some (ended DECLINED ''declined'' p),
              record_write None Declined_Event False (Some (ended DECLINED ''declined'' p)) nobody
                [(''ip'', JText (case ip of None \<Rightarrow> [] | Some a \<Rightarrow> a))]
                (save_proposal pid (ended DECLINED ''declined'') db))
           else (Some p, db)))"

definition withdraw_locked :: "nat \<Rightarrow> 'b write_db \<Rightarrow> (bool \<times> proposal) option \<times> 'b write_db" where
  "withdraw_locked pid db =
     (case proposal_by_id db pid of
        None \<Rightarrow> (None, db)
      | Some p \<Rightarrow>
          (if p_status p = APPROVED then
             (Some (True, ended DECLINED ''withdrawn'' p),
              record_write None Declined_Event False (Some (ended DECLINED ''withdrawn'' p)) nobody
                (reason ''approval_withdrawn'') (save_proposal pid (ended DECLINED ''withdrawn'') db))
           else (Some (False, p), db)))"

definition check_locked ::
  "write_settings \<Rightarrow> crypto \<Rightarrow> 'b registry \<Rightarrow> instant \<Rightarrow> user \<Rightarrow> nat \<Rightarrow> 'b write_db \<Rightarrow>
     problem option option \<times> 'b write_db" where
  \<comment> \<open>before the code: what the proposal's own checks say\<close>
  "check_locked ws cr reg now u pid db =
     (case proposal_by_id db pid of
        None \<Rightarrow> (None, db)
      | Some p \<Rightarrow>
          (case problem_of ws cr reg now u p db of
             None \<Rightarrow> (Some None, db)
           | Some Raises \<Rightarrow> (None, db)
           | Some problem \<Rightarrow> (Some (Some problem), settle p problem db)))"

definition new_approval ::
  "write_settings \<Rightarrow> instant \<Rightarrow> approval_method \<Rightarrow> string option \<Rightarrow> user \<Rightarrow> proposal \<Rightarrow> approval" where
  "new_approval ws now method ip u p =
     \<lparr>ap_proposal = p_id p, ap_user = u_id u, ap_grant = p_grant p, ap_digest = p_digest p,
      ap_approved_at = now, ap_expires_at = now + seconds (approval_seconds ws), ap_method = method,
      ap_ip = ip\<rparr>"

definition marked_approved :: "proposal \<Rightarrow> proposal" where
  "marked_approved p = p\<lparr>p_status := APPROVED\<rparr>"

definition method_text :: "approval_method \<Rightarrow> string" where
  "method_text method = (case method of TOTP \<Rightarrow> ''totp'' | RECENT_TOTP \<Rightarrow> ''recent_totp'')"

definition approve_locked ::
  "write_settings \<Rightarrow> crypto \<Rightarrow> 'b registry \<Rightarrow> instant \<Rightarrow> approval_method \<Rightarrow> string option \<Rightarrow> user \<Rightarrow> nat \<Rightarrow>
     'b write_db \<Rightarrow> problem option option \<times> 'b write_db" where
  \<comment> \<open>after the code: everything again, then the approval\<close>
  "approve_locked ws cr reg now method ip u pid db =
     (case proposal_by_id db pid of
        None \<Rightarrow> (None, db)
      | Some p \<Rightarrow>
          (case problem_of ws cr reg now u p db of
             Some Raises \<Rightarrow> (None, db)
           | Some problem \<Rightarrow> (Some (Some problem), settle p problem db)
           | None \<Rightarrow>
               (case create_approval (new_approval ws now method ip u p) db of
                  None \<Rightarrow> (None, db)
                | Some db1 \<Rightarrow>
                    (Some None,
                     record_write None Approved_Event True (Some (marked_approved p)) nobody
                       [(''method'', JText (method_text method))] (save_proposal pid marked_approved db1)))))"

fun status_text_of :: "outcome_status \<Rightarrow> string" where
  "status_text_of Ok = ''ok''"
| "status_text_of BadCode = ''bad_code''"
| "status_text_of NoGrant = ''no_grant''"
| "status_text_of Locked = ''locked''"
| "status_text_of Suspended = ''suspended''"
| "status_text_of Unreadable = ''unreadable''"
| "status_text_of Throttled = ''throttled''"

definition round_minutes :: "int \<Rightarrow> int" where
  \<comment> \<open>\<open>round(wait / 60)\<close>, a tie to the even neighbour\<close>
  "round_minutes wait =
     (let q = wait div 60; r = wait mod 60
      in if r < 30 \<or> r = 30 \<and> even q then q else q + 1)"

definition refuse_code :: "proposal \<Rightarrow> outcome \<Rightarrow> 'b write_db \<Rightarrow> approve_page \<times> 'b write_db" where
  "refuse_code p out db =
     (let minutes = max 1 (round_minutes (o_wait out));
          (err, status) = (case o_status out of
             Throttled \<Rightarrow> (Throttled_Error minutes, 429)
           | Locked \<Rightarrow> (Locked_Error minutes, 429)
           | Suspended \<Rightarrow> (Suspended_Error, 403)
           | _ \<Rightarrow> (Bad_Code_Error, 400))
      in (Proposal_Page p True err status,
          record_write None Approval_Refused_Event False (Some p) nobody
            [(''code'', JText (status_text_of (o_status out)))] db))"

definition problem_page :: "nat \<Rightarrow> problem \<Rightarrow> 'b write_db \<Rightarrow> approve_page" where
  "problem_page pid problem db =
     (if problem = No_Write_Right then Refusal_Page
      else case proposal_by_id db pid of
        None \<Rightarrow> Server_Error
      | Some p \<Rightarrow> if p_status p = PENDING then Proposal_Page p False Generic_Notice 409
          else Proposal_Page p False (Status_Text (p_status p)) 200)"

section \<open>The view\<close>

record page_env =
  en_settings :: write_settings
  en_crypto :: crypto
  en_keyed :: "string \<Rightarrow> string"

definition approve_with_code ::
  "page_env \<Rightarrow> 'b registry \<Rightarrow> page_clock \<Rightarrow> (nat \<Rightarrow> 'b write_db \<Rightarrow> 'b write_db) \<Rightarrow> user \<Rightarrow> approve_request \<Rightarrow>
     grant \<Rightarrow> proposal \<Rightarrow> 'b write_db \<Rightarrow>
     (approve_page + approval_method) \<times> 'b write_db" where
  \<comment> \<open>the middle of \<open>_approve\<close>: the recent code, or a code now\<close>
  "approve_with_code en reg ck meanwhile u req g p db =
     (if recent_holds (en_settings en) (en_keyed en) (ck_recent ck) req u g then (Inr RECENT_TOTP, db)
      else case asked_confirmation (en_settings en) (en_crypto en) (ck_hold ck) (ck_code ck) (ck_totp ck)
                  (u_id u) (g_id g) (take 16 (q_code req)) (q_ip req) (q_throttle req)
                  (wr_access (meanwhile 2 db)) of
        (Inl e, _) \<Rightarrow> (Inl Server_Error, meanwhile 2 db)
      | (Inr out, adb) \<Rightarrow>
          (let db1 = (meanwhile 2 db)\<lparr>wr_access := adb\<rparr>
           in if o_status out \<noteq> Ok then map_prod Inl id (refuse_code p out db1) else (Inr TOTP, db1)))"

definition approve_coded ::
  "page_env \<Rightarrow> 'b registry \<Rightarrow> page_clock \<Rightarrow> user \<Rightarrow> approve_request \<Rightarrow> grant \<Rightarrow> nat \<Rightarrow> approval_method \<Rightarrow>
     'b write_db \<Rightarrow> (approve_page \<times> recent_verification option) \<times> 'b write_db" where
  \<comment> \<open>the end of \<open>_approve\<close>, once the code was right\<close>
  "approve_coded en reg ck u req g pid method db =
     (case approve_locked (en_settings en) (en_crypto en) reg (ck_second ck) method (q_ip req) u pid db of
        (None, db1) \<Rightarrow> ((Server_Error, q_recent req), db1)
      | (Some (Some problem), db1) \<Rightarrow> ((problem_page pid problem db1, q_recent req), db1)
      | (Some None, db1) \<Rightarrow>
          ((case proposal_by_id db1 pid of
              None \<Rightarrow> Server_Error | Some q \<Rightarrow> Proposal_Page q False Done_Text 200,
            if method = TOTP then remember (en_settings en) (en_keyed en) (ck_remember ck) req u g
            else q_recent req), db1))"

definition approve_now ::
  "page_env \<Rightarrow> 'b registry \<Rightarrow> page_clock \<Rightarrow> (nat \<Rightarrow> 'b write_db \<Rightarrow> 'b write_db) \<Rightarrow> user \<Rightarrow> approve_request \<Rightarrow>
     grant \<Rightarrow> proposal \<Rightarrow> 'b write_db \<Rightarrow> (approve_page \<times> recent_verification option) \<times> 'b write_db" where
  \<comment> \<open>\<open>_approve\<close>\<close>
  "approve_now en reg ck meanwhile u req g p db =
     (case check_locked (en_settings en) (en_crypto en) reg (ck_first ck) u (p_id p) (meanwhile 1 db) of
        (None, db1) \<Rightarrow> ((Server_Error, q_recent req), db1)
      | (Some (Some problem), db1) \<Rightarrow> ((problem_page (p_id p) problem db1, q_recent req), db1)
      | (Some None, db1) \<Rightarrow>
          (case approve_with_code en reg ck meanwhile u req g p db1 of
             (Inl page, db2) \<Rightarrow> ((page, q_recent req), db2)
           | (Inr method, db2) \<Rightarrow> approve_coded en reg ck u req g (p_id p) method (meanwhile 3 db2)))"

definition withdraw_view ::
  "(nat \<Rightarrow> 'b write_db \<Rightarrow> 'b write_db) \<Rightarrow> nat \<Rightarrow> 'b write_db \<Rightarrow> approve_page \<times> 'b write_db" where
  "withdraw_view meanwhile pid db =
     (case withdraw_locked pid (meanwhile 1 db) of
        (None, db1) \<Rightarrow> (Server_Error, db1)
      | (Some (withdrawn, p), db1) \<Rightarrow>
          (if withdrawn then Proposal_Page p False Withdrawn_Text 200
           else if p_status p = PENDING then Proposal_Page p False Choose 400
           else Proposal_Page p False (Status_Text (p_status p)) 409, db1))"

definition decline_view ::
  "(nat \<Rightarrow> 'b write_db \<Rightarrow> 'b write_db) \<Rightarrow> string option \<Rightarrow> nat \<Rightarrow> 'b write_db \<Rightarrow> approve_page \<times> 'b write_db" where
  "decline_view meanwhile ip pid db =
     (case decline_locked ip pid (meanwhile 1 db) of
        (None, db1) \<Rightarrow> (Server_Error, db1)
      | (Some p, db1) \<Rightarrow> (Proposal_Page p False (Status_Text (p_status p)) 200, db1))"

definition expired_now :: "instant \<Rightarrow> (nat \<Rightarrow> 'b write_db \<Rightarrow> 'b write_db) \<Rightarrow> proposal \<Rightarrow> 'b write_db \<Rightarrow> proposal \<times> 'b write_db" where
  \<comment> \<open>the view's expiry, with \<open>refresh_from_db\<close>\<close>
  "expired_now now meanwhile p db =
     (if p_status p = PENDING \<and> proposal_expired_at p now then
        (let db1 = expire_due (p_id p) (meanwhile 0 db)
         in (case proposal_by_id db1 (p_id p) of Some q \<Rightarrow> q | None \<Rightarrow> p, db1))
      else (p, db))"

definition approve_view ::
  "page_env \<Rightarrow> 'b registry \<Rightarrow> page_clock \<Rightarrow> (nat \<Rightarrow> 'b write_db \<Rightarrow> 'b write_db) \<Rightarrow> user option \<Rightarrow>
     approve_request \<Rightarrow> nat \<Rightarrow> 'b write_db \<Rightarrow> (approve_page \<times> recent_verification option) \<times> 'b write_db" where
  \<comment> \<open>\<open>approve\<close>, with the session's recent code after it\<close>
  "approve_view en reg ck meanwhile uo req pid db =
     (let ws = en_settings en; keep = (\<lambda>(page, db). ((page, q_recent req), db))
      in if \<not> writes_enabled ws then keep (Page_Not_Found, db)
         else case uo of
           None \<Rightarrow> keep (Login_Redirect, db)
         | Some u \<Rightarrow>
             (if \<not> q_gate_open req then keep (Refusal_Page, db)
              else case owned_proposal ws (ck_view ck) u pid db of
                None \<Rightarrow> keep (Refusal_Page, if q_post req then refuse_stranger u pid db else db)
              | Some (p0, g) \<Rightarrow>
                  (case expired_now (ck_view ck) meanwhile p0 db of
                     (p, db1) \<Rightarrow>
                       if q_post req \<and> q_decision req = ''tuhista'' then keep (withdraw_view meanwhile pid db1)
                       else if p_status p \<noteq> PENDING then
                         keep (Proposal_Page p False (Status_Text (p_status p)) 200, db1)
                       else case staleness_of reg (ck_view ck) p u db1 of
                         State_Raises \<Rightarrow> keep (Server_Error, db1)
                       | stale \<Rightarrow>
                           if \<not> q_post req then
                             keep (Proposal_Page p (stale = Current)
                               (if stale = Current then No_Text else Stale_Notice) 200, db1)
                           else if q_decision req = ''keeldu'' then
                             keep (decline_view meanwhile (q_ip req) pid db1)
                           else if q_decision req \<noteq> ''kinnita'' then
                             keep (Proposal_Page p (stale = Current) Choose 400, db1)
                           else if stale \<noteq> Current then keep (Proposal_Page p False Stale_Notice 409, db1)
                           else approve_now en reg ck meanwhile u req g p db1)))"

end
