(* ===== verification/WriteGateway.thy ===== *)
theory WriteGateway
  imports WriteCommit
begin

text \<open>
  \<open>app/mcp_writes/gateway.py\<close>: what one call of the write gateway checks, in its order, before
  \<open>prepare\<close> or \<open>commit\<close> runs as the token's own account. The body is its bytes; \<open>loads\<close> is
  \<open>json.loads\<close> after decoding, \<open>None\<close> where either fails. The time limit on a call is not modelled: a
  call that is too slow is answered \<open>timeout\<close> while its work still runs to its end.
\<close>

record gateway_request =
  gq_prepare :: bool                 \<comment> \<open>\<open>/v1/prepare\<close>, otherwise \<open>/v1/commit\<close>\<close>
  gq_host :: string
  gq_content_length :: string
  gq_key :: string
  gq_authorization :: string
  gq_correlation :: "string option"
  gq_body :: string

record gateway_clock =
  gk_verify :: instant
  gk_writer :: instant
  gk_now :: instant
  gk_again :: instant
  gk_end :: instant
  gk_proposal :: nat      \<comment> \<open>the draws: the new proposal's id, two correlation ids\<close>
  gk_correlation :: nat
  gk_call :: nat

definition min_key_length :: nat where "min_key_length = 32"

definition wildcard_listen_hosts :: "string list" where
  "wildcard_listen_hosts = [[], ''0.0.0.0'', ''::'']"

definition probe_host :: "string \<Rightarrow> string" where
  \<comment> \<open>of \<open>listen_host()\<close>\<close>
  "probe_host listen = (if listen \<in> set wildcard_listen_hosts then ''127.0.0.1'' else listen)"

definition allowed_hosts :: "string \<Rightarrow> nat \<Rightarrow> string list" where
  "allowed_hosts listen port =
     (let base = [''localhost'', ''127.0.0.1'', ''mcp-writer''];
          names = (if listen \<notin> set wildcard_listen_hosts \<and> listen \<notin> set base then base @ [listen] else base)
      in names @ map (\<lambda>n. n @ CHR '':'' # decimal port) names)"

definition host_allowed :: "string \<Rightarrow> nat \<Rightarrow> gateway_request \<Rightarrow> bool" where
  "host_allowed listen port rq \<longleftrightarrow> map lower_char (strip (gq_host rq)) \<in> set (allowed_hosts listen port)"

definition gateway_usable :: "write_settings \<Rightarrow> bool" where
  "gateway_usable ws \<longleftrightarrow> writes_enabled ws \<and> min_key_length \<le> length (gateway_key ws)"

definition declared_too_large :: "write_settings \<Rightarrow> gateway_request \<Rightarrow> bool" where
  "declared_too_large ws rq \<longleftrightarrow>
     (if gq_content_length rq = [] then False
      else case int_base_10 (gq_content_length rq) of None \<Rightarrow> True | Some n \<Rightarrow> max_request_bytes ws < n)"

definition key_refusal :: "write_settings \<Rightarrow> gateway_request \<Rightarrow> gateway_refusal option" where
  "key_refusal ws rq =
     (if \<not> gateway_usable ws then Some (refused ''writes_disabled'' [])
      else if gq_key rq = [] then Some (refused ''unauthorized'' ''Gateway key required.'')
      else if gq_key rq \<noteq> gateway_key ws then Some (refused ''forbidden'' ''Gateway key not accepted.'')
      else None)"

definition bearer :: "gateway_request \<Rightarrow> string" where
  "bearer rq =
     (case partition_at CHR '' '' (gq_authorization rq) of (scheme, _, tok) \<Rightarrow>
        if map lower_char scheme \<noteq> ''bearer'' then [] else strip tok)"

definition as_the_writer ::
  "write_settings \<Rightarrow> crypto \<Rightarrow> instant \<Rightarrow> instant \<Rightarrow> string \<Rightarrow>
     (verified_access \<Rightarrow> user \<Rightarrow> 'b write_db \<Rightarrow> (gateway_refusal + json) \<times> 'b write_db) \<Rightarrow>
     'b write_db \<Rightarrow> (gateway_refusal + json) \<times> 'b write_db" where
  "as_the_writer ws cr vnow wnow raw work db =
     (case verify_access_token (access_settings ws) cr vnow raw (wr_access db) of
        None \<Rightarrow> (Inl (refused ''unauthorized'' []), db)
      | Some verified \<Rightarrow>
          (if write_scope_name (access_settings ws) \<notin> va_scopes verified then
             (Inl (refused ''insufficient_scope'' []), db)
           else case asked_writer ws wnow verified (wr_access db) of
             None \<Rightarrow> (Inl (refused ''forbidden'' []), db)
           | Some writer \<Rightarrow>
               (if u_id writer \<noteq> va_user_id verified then (Inl (refused ''forbidden'' []), db)
                else work verified writer db)))"

definition call_correlation :: "gateway_clock \<Rightarrow> gateway_request \<Rightarrow> nat" where
  "call_correlation gk rq =
     (case parse_correlation_id (gq_correlation rq) of Some c \<Rightarrow> c | None \<Rightarrow> gk_call gk)"

definition text_field :: "string \<Rightarrow> (string \<times> json) list \<Rightarrow> string option" where
  "text_field k kvs = (case map_of kvs k of Some (JText t) \<Rightarrow> Some t | _ \<Rightarrow> None)"

definition serve_prepare ::
  "write_settings \<Rightarrow> crypto \<Rightarrow> 'b registry \<Rightarrow> gateway_clock \<Rightarrow> nat \<Rightarrow> string \<Rightarrow> string option \<Rightarrow> json option \<Rightarrow>
     'b write_db \<Rightarrow> (gateway_refusal + json) \<times> 'b write_db" where
  "serve_prepare ws cr reg gk corr raw_token name raw db =
     as_the_writer ws cr (gk_verify gk) (gk_writer gk) raw_token
       (\<lambda>verified writer. prepare_change ws cr reg (Some corr) (gk_now gk) (gk_proposal gk)
          (gk_correlation gk) verified writer name raw (Some corr)) db"

definition serve_commit ::
  "write_settings \<Rightarrow> crypto \<Rightarrow> 'b registry \<Rightarrow> gateway_clock \<Rightarrow> nat \<Rightarrow> string \<Rightarrow> string option \<Rightarrow>
     'b write_db \<Rightarrow> (gateway_refusal + json) \<times> 'b write_db" where
  "serve_commit ws cr reg gk corr raw_token pid db =
     as_the_writer ws cr (gk_verify gk) (gk_writer gk) raw_token
       (\<lambda>verified writer. commit_proposal ws cr reg (Some corr) (gk_now gk) (gk_again gk) (gk_end gk)
          verified (Some writer) pid) db"

definition unexpected_fields :: "gateway_request \<Rightarrow> (string \<times> json) list \<Rightarrow> bool" where
  "unexpected_fields rq kvs \<longleftrightarrow>
     \<not> set (map fst kvs) \<subseteq> (if gq_prepare rq then {''operation'', ''arguments''} else {''proposal_id''})"

definition handle ::
  "write_settings \<Rightarrow> crypto \<Rightarrow> 'b registry \<Rightarrow> (string \<Rightarrow> json option) \<Rightarrow> gateway_clock \<Rightarrow> gateway_request \<Rightarrow>
     'b write_db \<Rightarrow> (gateway_refusal + json) \<times> 'b write_db" where
  "handle ws cr reg loads gk rq db =
     (if declared_too_large ws rq then (Inl (refused ''too_large'' []), db)
      else case key_refusal ws rq of
        Some problem \<Rightarrow> (Inl problem, db)
      | None \<Rightarrow>
          (if max_request_bytes ws < int (length (gq_body rq)) then (Inl (refused ''too_large'' []), db)
           else if too_deep (gq_body rq) then
             (Inl (refused ''invalid_argument'' ''The body is nested too deeply.''), db)
           else case (if gq_body rq = [] then None else loads (gq_body rq)) of
             Some (JDict kvs) \<Rightarrow>
               (if bearer rq = [] then (Inl (refused ''unauthorized'' []), db)
                else if unexpected_fields rq kvs then
                  (Inl (refused ''invalid_argument'' ''Unexpected fields in the request.''), db)
                else if gq_prepare rq then
                  serve_prepare ws cr reg gk (call_correlation gk rq) (bearer rq)
                    (text_field ''operation'' kvs) (map_of kvs ''arguments'') db
                else serve_commit ws cr reg gk (call_correlation gk rq) (bearer rq)
                    (text_field ''proposal_id'' kvs) db)
           | _ \<Rightarrow> (Inl (refused ''invalid_argument'' ''The body must be one JSON object.''), db)))"

end
