(* ===== verification/WriteMachine.thy ===== *)
theory WriteMachine
  imports WriteApproval WriteGateway
begin

text \<open>
  The life of a proposal as an abstract machine: it is proposed, approved once, carried out once, or
  ended in one of the four other ways, and nothing else ever happens to its row. Every transaction of
  the gateway and of the approval page is a sequence of these moves, whatever the authorization server
  and the rest of the application do in between, so the invariant holds in every history.
\<close>

section \<open>The moves\<close>

definition open_proposal :: "proposal \<Rightarrow> bool" where
  "open_proposal p \<longleftrightarrow> p_status p = PENDING \<or> p_status p = APPROVED"

definition matches :: "proposal \<Rightarrow> approval \<Rightarrow> bool" where
  "matches p ap \<longleftrightarrow> ap_proposal ap = p_id p \<and> ap_user ap = p_user p \<and> ap_grant ap = p_grant p \<and>
     ap_digest ap = p_digest p"

definition unexecuted :: "proposal \<Rightarrow> bool" where
  "unexecuted p \<longleftrightarrow> p_executed_at p = None \<and> p_result p = JDict []"

definition proposed :: "crypto \<Rightarrow> proposal \<Rightarrow> bool" where
  "proposed cr p \<longleftrightarrow> p_status p = PENDING \<and> p_digest p = digest_of cr p \<and> unexecuted p \<and>
     jsonable (p_arguments p) = p_arguments p \<and> jsonable (p_state p) = p_state p"

definition closing_status :: "proposal_status \<Rightarrow> bool" where
  "closing_status st \<longleftrightarrow> st \<in> {DECLINED, EXPIRED, FAILED, STALE}"

inductive write_moves :: "crypto \<Rightarrow> 'b write_db \<Rightarrow> 'b write_db \<Rightarrow> bool" for cr where
  written: "write_moves cr db (db\<lparr>wr_events := wr_events db @ [e]\<rparr>)"
| elsewhere: "reaches (wr_access db) a \<Longrightarrow> write_moves cr db (db\<lparr>wr_access := a\<rparr>)"
| other_business: "write_moves cr db (db\<lparr>wr_business := b\<rparr>)"
| propose: "proposed cr p \<Longrightarrow> owned (grants (wr_access db)) (p_grant p) (p_user p) (\<lambda>_. True) \<Longrightarrow>
    \<forall>q \<in> set (wr_proposals db). p_id q \<noteq> p_id p \<Longrightarrow>
    write_moves cr db (db\<lparr>wr_proposals := wr_proposals db @ [p]\<rparr>)"
| finish: "p \<in> set (wr_proposals db) \<Longrightarrow> open_proposal p \<Longrightarrow> closing_status st \<Longrightarrow>
    write_moves cr db (save_proposal (p_id p) (ended st code) db)"
| approve: "p \<in> set (wr_proposals db) \<Longrightarrow> p_status p = PENDING \<Longrightarrow> matches p ap \<Longrightarrow>
    write_moves cr db (save_proposal (p_id p) marked_approved (db\<lparr>wr_approvals := wr_approvals db @ [ap]\<rparr>))"
| carry_out: "p \<in> set (wr_proposals db) \<Longrightarrow> open_proposal p \<Longrightarrow> ap \<in> set (wr_approvals db) \<Longrightarrow>
    ap_proposal ap = p_id p \<Longrightarrow>
    write_moves cr db (save_proposal (p_id p) (carried_out now result) (db\<lparr>wr_business := b\<rparr>))"

abbreviation write_reaches :: "crypto \<Rightarrow> 'b write_db \<Rightarrow> 'b write_db \<Rightarrow> bool" where
  "write_reaches cr \<equiv> (write_moves cr)\<^sup>*\<^sup>*"

section \<open>The invariant\<close>

definition proposal_ok :: "crypto \<Rightarrow> grant list \<Rightarrow> approval list \<Rightarrow> proposal \<Rightarrow> bool" where
  "proposal_ok cr gs aps p \<longleftrightarrow>
     p_digest p = digest_of cr p \<and> jsonable (p_arguments p) = p_arguments p \<and>
     jsonable (p_state p) = p_state p \<and> owned gs (p_grant p) (p_user p) (\<lambda>_. True) \<and>
     (p_status p = EXECUTED \<longleftrightarrow> p_executed_at p \<noteq> None) \<and>
     (p_status p \<noteq> EXECUTED \<longrightarrow> unexecuted p) \<and>
     (p_status p = PENDING \<longrightarrow> (\<forall>ap \<in> set aps. ap_proposal ap \<noteq> p_id p)) \<and>
     (p_status p = APPROVED \<or> p_status p = EXECUTED \<longrightarrow> (\<exists>ap \<in> set aps. ap_proposal ap = p_id p))"

definition write_inv :: "crypto \<Rightarrow> 'b write_db \<Rightarrow> bool" where
  "write_inv cr db \<longleftrightarrow> access_inv (wr_access db) \<and> unique_on p_id (wr_proposals db) \<and>
     unique_on ap_proposal (wr_approvals db) \<and>
     (\<forall>p \<in> set (wr_proposals db). proposal_ok cr (grants (wr_access db)) (wr_approvals db) p) \<and>
     (\<forall>ap \<in> set (wr_approvals db). \<exists>p \<in> set (wr_proposals db). matches p ap)"

lemma moves_owned:
  "moves db db' \<Longrightarrow> owned (grants db) gid u (\<lambda>_. True) \<Longrightarrow> owned (grants db') gid u (\<lambda>_. True)"
proof (induction rule: moves.induct)
  case (edit_grant db i f)
  then show ?case by (simp add: save_grant_def owned_edit)
next
  case (end_grant g db reason now)
  then show ?case by (auto simp: end_grant_simps elim!: owned_update)
next
  case (enrol l db g a now)
  then show ?case by (auto simp: save_grant_def save_link_def elim!: owned_update)
qed (auto simp: invalidate_links_def save_link_def add_pair_def revoke_tokens_simps use_code_def
    save_code_def rotate_token_def save_token_def save_authenticator_def owned_snoc)

lemma reaches_owned:
  "reaches db db' \<Longrightarrow> owned (grants db) gid u (\<lambda>_. True) \<Longrightarrow> owned (grants db') gid u (\<lambda>_. True)"
  by (induction rule: rtranclp_induct) (auto intro: moves_owned)

lemma save_proposal_frame [simp]:
  "wr_access (save_proposal i f db) = wr_access db" "wr_business (save_proposal i f db) = wr_business db"
  "wr_approvals (save_proposal i f db) = wr_approvals db" "wr_events (save_proposal i f db) = wr_events db"
  "wr_proposals (save_proposal i f db) = update_where (\<lambda>p. p_id p = i) f (wr_proposals db)"
  by (simp_all add: save_proposal_def)

lemma digest_of_columns [simp]:
  "digest_of cr (ended st code p) = digest_of cr p"
  "digest_of cr (marked_approved p) = digest_of cr p"
  "digest_of cr (carried_out now result p) = digest_of cr p"
  by (simp_all add: digest_of_def ended_def marked_approved_def carried_out_def)

lemma kept_columns [simp]:
  "p_id (ended st code p) = p_id p"
  "p_user (ended st code p) = p_user p"
  "p_grant (ended st code p) = p_grant p"
  "p_family (ended st code p) = p_family p"
  "p_client (ended st code p) = p_client p"
  "p_operation (ended st code p) = p_operation p"
  "p_arguments (ended st code p) = p_arguments p"
  "p_digest (ended st code p) = p_digest p"
  "p_state (ended st code p) = p_state p"
  "p_id (marked_approved p) = p_id p"
  "p_user (marked_approved p) = p_user p"
  "p_grant (marked_approved p) = p_grant p"
  "p_family (marked_approved p) = p_family p"
  "p_client (marked_approved p) = p_client p"
  "p_operation (marked_approved p) = p_operation p"
  "p_arguments (marked_approved p) = p_arguments p"
  "p_digest (marked_approved p) = p_digest p"
  "p_state (marked_approved p) = p_state p"
  "p_id (carried_out now result p) = p_id p"
  "p_user (carried_out now result p) = p_user p"
  "p_grant (carried_out now result p) = p_grant p"
  "p_family (carried_out now result p) = p_family p"
  "p_client (carried_out now result p) = p_client p"
  "p_operation (carried_out now result p) = p_operation p"
  "p_arguments (carried_out now result p) = p_arguments p"
  "p_digest (carried_out now result p) = p_digest p"
  "p_state (carried_out now result p) = p_state p"
  by (simp_all add: ended_def marked_approved_def carried_out_def)

lemma changed_columns [simp]:
  "p_status (ended st code p) = st" "p_status (marked_approved p) = APPROVED"
  "p_status (carried_out now result p) = EXECUTED" "p_executed_at (ended st code p) = p_executed_at p"
  "p_executed_at (marked_approved p) = p_executed_at p" "p_executed_at (carried_out now result p) = Some now"
  "unexecuted (ended st code p) = unexecuted p" "unexecuted (marked_approved p) = unexecuted p"
  by (simp_all add: ended_def marked_approved_def carried_out_def unexecuted_def)

lemma matches_columns [simp]:
  "matches (ended st code p) ap = matches p ap" "matches (marked_approved p) ap = matches p ap"
  "matches (carried_out now result p) ap = matches p ap"
  by (simp_all add: matches_def)

lemma matching_kept:
  "\<exists>p \<in> set ps. matches p ap \<Longrightarrow> \<exists>p \<in> set (update_where c f ps). matches p ap"
  if "\<And>q ap. matches (f q) ap = matches q ap"
  using that by (auto simp: bex_update_where)

lemma saved_proposals_inv:
  assumes inv: "write_inv cr db" and p: "p \<in> set (wr_proposals db)"
    and f: "\<And>q. p_id (f q) = p_id q" "\<And>q ap. matches (f q) ap = matches q ap"
    and ok: "proposal_ok cr (grants (wr_access db)) (wr_approvals db) (f p)"
  shows "write_inv cr (save_proposal (p_id p) f db)"
proof -
  have only: "q = p" if "q \<in> set (wr_proposals db)" "p_id q = p_id p" for q
    using inv p that unique_onD [of p_id "wr_proposals db" q p] by (simp add: write_inv_def)
  have rows: "proposal_ok cr (grants (wr_access db)) (wr_approvals db) (if p_id q = p_id p then f q else q)"
    if q: "q \<in> set (wr_proposals db)" for q
    using inv q ok only [OF q] by (auto simp: write_inv_def)
  have "\<exists>q \<in> set (update_where (\<lambda>q. p_id q = p_id p) f (wr_proposals db)). matches q ap"
    if "ap \<in> set (wr_approvals db)" for ap
    by (rule matching_kept) (use inv that f(2) in \<open>auto simp: write_inv_def\<close>)
  with rows show ?thesis
    using inv f(1) by (simp add: write_inv_def ball_update_where unique_on_update)
qed

lemma ended_ok:
  assumes "proposal_ok cr gs aps p" and "open_proposal p" and st: "st = DECLINED \<or> st = EXPIRED \<or> st = FAILED \<or> st = STALE"
  shows "proposal_ok cr gs aps (ended st code p)"
proof -
  have "p_status p \<noteq> EXECUTED" using assms(2) by (auto simp: open_proposal_def)
  with assms(1) have "p_executed_at p = None" "unexecuted p" by (simp_all add: proposal_ok_def)
  with assms(1) st show ?thesis unfolding proposal_ok_def by (elim disjE) simp_all
qed

lemma carried_out_ok:
  assumes "proposal_ok cr gs aps p" and "ap \<in> set aps" "ap_proposal ap = p_id p"
  shows "proposal_ok cr gs aps (carried_out now result p)"
  using assms unfolding proposal_ok_def by auto

lemma marked_approved_ok:
  assumes "proposal_ok cr gs aps p" and "p_status p = PENDING" and "ap_proposal ap = p_id p"
  shows "proposal_ok cr gs (aps @ [ap]) (marked_approved p)"
  using assms unfolding proposal_ok_def by simp

lemma proposal_ok_grants:
  "proposal_ok cr gs aps p \<Longrightarrow> owned gs' (p_grant p) (p_user p) (\<lambda>_. True) \<Longrightarrow> proposal_ok cr gs' aps p"
  by (simp add: proposal_ok_def)

lemma proposed_ok:
  "proposed cr p \<Longrightarrow> owned gs (p_grant p) (p_user p) (\<lambda>_. True) \<Longrightarrow>
     (\<And>ap. ap \<in> set aps \<Longrightarrow> ap_proposal ap \<noteq> p_id p) \<Longrightarrow> proposal_ok cr gs aps p"
  by (simp add: proposal_ok_def proposed_def unexecuted_def)

lemma write_moves_inv: "write_moves cr db db' \<Longrightarrow> write_inv cr db \<Longrightarrow> write_inv cr db'"
proof (induction rule: write_moves.induct)
  case (elsewhere db a)
  have "proposal_ok cr (grants a) (wr_approvals db) p" if "p \<in> set (wr_proposals db)" for p
  proof (rule proposal_ok_grants)
    show "proposal_ok cr (grants (wr_access db)) (wr_approvals db) p"
      using elsewhere(2) that by (simp add: write_inv_def)
    then show "owned (grants a) (p_grant p) (p_user p) (\<lambda>_. True)"
      by (intro reaches_owned [OF elsewhere(1)]) (simp add: proposal_ok_def)
  qed
  then show ?case using elsewhere reaches_inv [OF elsewhere(1)] by (simp add: write_inv_def)
next
  case (propose p db)
  have none: "ap_proposal ap \<noteq> p_id p" if "ap \<in> set (wr_approvals db)" for ap
  proof -
    have "\<forall>ap \<in> set (wr_approvals db). \<exists>q \<in> set (wr_proposals db). matches q ap"
      using propose(4) by (simp add: write_inv_def)
    with \<open>ap \<in> set (wr_approvals db)\<close> obtain q where "q \<in> set (wr_proposals db)" "matches q ap" by blast
    then show ?thesis using propose(3) by (auto simp: matches_def)
  qed
  show ?case
    using propose(3,4) proposed_ok [OF propose(1,2) none]
    by (auto simp: write_inv_def unique_on_snoc image_iff)
next
  case (finish p db st code)
  have "proposal_ok cr (grants (wr_access db)) (wr_approvals db) (ended st code p)"
    by (rule ended_ok) (use finish in \<open>auto simp: write_inv_def closing_status_def\<close>)
  with finish show ?case by (intro saved_proposals_inv) simp_all
next
  case (approve p db ap)
  let ?db = "db\<lparr>wr_approvals := wr_approvals db @ [ap]\<rparr>"
  have ok: "proposal_ok cr (grants (wr_access db)) (wr_approvals db) p"
    and none: "\<forall>o' \<in> set (wr_approvals db). ap_proposal o' \<noteq> p_id p"
    using approve(1,2,4) by (auto simp: write_inv_def proposal_ok_def)
  have only: "q = p" if "q \<in> set (wr_proposals db)" "p_id q = p_id p" for q
    using approve(1,4) that unique_onD [of p_id "wr_proposals db" q p] by (simp add: write_inv_def)
  have ap: "ap_proposal ap = p_id p" using approve(3) by (simp add: matches_def)
  have rows: "proposal_ok cr (grants (wr_access db)) (wr_approvals db @ [ap])
      (if p_id q = p_id p then marked_approved q else q)" if q: "q \<in> set (wr_proposals db)" for q
  proof (cases "p_id q = p_id p")
    case True
    then show ?thesis using only [OF q True] marked_approved_ok [OF ok approve(2) ap] by simp
  next
    case False
    moreover have "proposal_ok cr (grants (wr_access db)) (wr_approvals db) q"
      using approve(4) q by (simp add: write_inv_def)
    ultimately show ?thesis using ap by (simp add: proposal_ok_def)
  qed
  have matched: "\<exists>q \<in> set (update_where (\<lambda>q. p_id q = p_id p) marked_approved (wr_proposals db)). matches q o'"
    if "o' \<in> set (wr_approvals db @ [ap])" for o'
    by (rule matching_kept) (use that approve(1,3,4) in \<open>auto simp: write_inv_def\<close>)
  have new: "\<forall>o' \<in> set (wr_approvals db). p_id p \<noteq> ap_proposal o'" using none by metis
  show ?case
    using approve(4) new ap rows matched
    by (simp add: write_inv_def ball_update_where unique_on_update unique_on_snoc image_iff)
next
  case (carry_out p db ap now result b)
  let ?db = "db\<lparr>wr_business := b\<rparr>"
  have inv: "write_inv cr ?db" using carry_out(5) by (simp add: write_inv_def)
  have "proposal_ok cr (grants (wr_access ?db)) (wr_approvals ?db) (carried_out now result p)"
    by (rule carried_out_ok) (use carry_out in \<open>auto simp: write_inv_def\<close>)
  with carry_out(1) show ?case by (intro saved_proposals_inv [OF inv]) simp_all
qed (simp_all add: write_inv_def)

lemma write_reaches_inv: "write_reaches cr db db' \<Longrightarrow> write_inv cr db \<Longrightarrow> write_inv cr db'"
  by (induction rule: rtranclp_induct) (auto intro: write_moves_inv)

section \<open>What no move undoes\<close>

definition proposal_over :: "'b write_db \<Rightarrow> nat \<Rightarrow> bool" where
  "proposal_over db i \<longleftrightarrow> (\<exists>p \<in> set (wr_proposals db). p_id p = i \<and> \<not> open_proposal p)"

lemma proposal_by_member:
  "write_inv cr db \<Longrightarrow> p \<in> set (wr_proposals db) \<Longrightarrow> proposal_by_id db (p_id p) = Some p"
  unfolding proposal_by_id_def by (rule first_where_unique) (simp_all add: write_inv_def)

lemma proposal_by_idD: "proposal_by_id db i = Some p \<Longrightarrow> p \<in> set (wr_proposals db) \<and> p_id p = i"
  unfolding proposal_by_id_def by auto

lemma approval_ofD: "approval_of db i = Some ap \<Longrightarrow> ap \<in> set (wr_approvals db) \<and> ap_proposal ap = i"
  unfolding approval_of_def by auto

lemma moves_final:
  assumes "write_moves cr db db'" and "write_inv cr db" and "p \<in> set (wr_proposals db)" and "\<not> open_proposal p"
  shows "p \<in> set (wr_proposals db')"
  using assms
proof (induction rule: write_moves.induct)
  case (finish q db st code)
  then have "p_id p \<noteq> p_id q" by (auto simp: write_inv_def dest: unique_onD)
  with finish show ?case by (simp add: kept_update)
next
  case (approve q db ap)
  then have "p_id p \<noteq> p_id q" by (auto simp: write_inv_def open_proposal_def dest: unique_onD)
  with approve show ?case by (simp add: kept_update)
next
  case (carry_out q db ap now result b)
  then have "p_id p \<noteq> p_id q" by (auto simp: write_inv_def dest: unique_onD)
  with carry_out show ?case by (simp add: kept_update)
qed simp_all

lemma reaches_final:
  "write_reaches cr db db' \<Longrightarrow> write_inv cr db \<Longrightarrow> p \<in> set (wr_proposals db) \<Longrightarrow> \<not> open_proposal p \<Longrightarrow>
     p \<in> set (wr_proposals db')"
  by (induction rule: rtranclp_induct) (auto intro: moves_final write_reaches_inv)

definition proposal_core ::
  "proposal \<Rightarrow> nat \<times> row_id \<times> row_id \<times> row_id option \<times> string \<times> string \<times> json \<times> string \<times> json" where
  \<comment> \<open>the columns written once, at prepare\<close>
  "proposal_core p = (p_id p, p_user p, p_grant p, p_family p, p_client p, p_operation p, p_arguments p,
     p_digest p, p_state p)"

lemma core_columns [simp]:
  "proposal_core (ended st code p) = proposal_core p" "proposal_core (marked_approved p) = proposal_core p"
  "proposal_core (carried_out now result p) = proposal_core p"
  by (simp_all add: proposal_core_def)

lemma saved_core:
  "p \<in> set ps \<Longrightarrow> (\<And>q. proposal_core (f q) = proposal_core q) \<Longrightarrow>
     \<exists>q \<in> set (update_where c f ps). proposal_core q = proposal_core p"
  by (rule bexI [of _ "if c p then f p else p"]) (auto simp: in_update_where)

lemma moves_core:
  "write_moves cr db db' \<Longrightarrow> p \<in> set (wr_proposals db) \<Longrightarrow>
     \<exists>q \<in> set (wr_proposals db'). proposal_core q = proposal_core p"
  by (induction rule: write_moves.induct) (auto intro: saved_core)

lemma reaches_core:
  "write_reaches cr db db' \<Longrightarrow> p \<in> set (wr_proposals db) \<Longrightarrow>
     \<exists>q \<in> set (wr_proposals db'). proposal_core q = proposal_core p"
proof (induction rule: rtranclp_induct)
  case (step y z)
  then show ?case using moves_core [OF step(2)] by metis
qed auto

lemma moves_approvals:
  "write_moves cr db db' \<Longrightarrow> set (wr_approvals db) \<subseteq> set (wr_approvals db')"
  by (induction rule: write_moves.induct) auto

lemma moves_trail_kept: "write_moves cr db db' \<Longrightarrow> \<exists>es. wr_events db' = wr_events db @ es"
  by (induction rule: write_moves.induct) auto

lemma reaches_trail_kept: "write_reaches cr db db' \<Longrightarrow> \<exists>es. wr_events db' = wr_events db @ es"
proof (induction rule: rtranclp_induct)
  case (step y z)
  then show ?case using moves_trail_kept [OF step(2)] by auto
qed simp

end
