(* ===== verification/WriteSystem.thy ===== *)
theory WriteSystem
  imports WriteMachine
begin

text \<open>
  Every transaction of the write gateway and of the approval page is a sequence of the moves of
  \<open>WriteMachine\<close>, and with the operations of the authorization server and the edits of the rest of the
  application they make one step function, on which the interfaces are interpreted.
\<close>

section \<open>Sequences of moves\<close>

lemma reaches_write [simp]:
  "write_reaches cr db db1 \<Longrightarrow> write_reaches cr db (record_write call et ok po ab d db1)"
  unfolding record_write_def Let_def by (erule rtranclp.rtrancl_into_rtrancl, rule write_moves.written)

lemma reaches_access:
  "write_reaches cr db db1 \<Longrightarrow> reaches (wr_access db1) a \<Longrightarrow> write_reaches cr db (db1\<lparr>wr_access := a\<rparr>)"
  by (erule rtranclp.rtrancl_into_rtrancl, rule write_moves.elsewhere)

lemma prepare_refused_reaches [simp]:
  "write_reaches cr db (snd (prepare_refused call r u access operation detail db))"
  by (simp add: prepare_refused_def)

lemma create_proposal_Some:
  "create_proposal p db = Some db1 \<longleftrightarrow>
     (\<forall>q \<in> set (wr_proposals db). p_id q \<noteq> p_id p) \<and> db1 = db\<lparr>wr_proposals := wr_proposals db @ [p]\<rparr>"
  by (auto simp: create_proposal_def)

lemma create_approval_Some:
  "create_approval ap db = Some db1 \<longleftrightarrow>
     (\<forall>o' \<in> set (wr_approvals db). ap_proposal o' \<noteq> ap_proposal ap) \<and>
     db1 = db\<lparr>wr_approvals := wr_approvals db @ [ap]\<rparr>"
  by (auto simp: create_approval_def)

lemma new_proposal_proposed:
  "proposed cr (new_proposal ws cr now pid corr u access name pd)"
  by (simp add: proposed_def new_proposal_def Let_def digest_of_def unexecuted_def)

lemma new_proposal_columns [simp]:
  "p_id (new_proposal ws cr now pid corr u access name pd) = pid"
  "p_user (new_proposal ws cr now pid corr u access name pd) = u_id u"
  "p_grant (new_proposal ws cr now pid corr u access name pd) = va_grant_id access"
  "p_status (new_proposal ws cr now pid corr u access name pd) = PENDING"
  by (simp_all add: new_proposal_def Let_def)

lemma store_proposal_reaches:
  assumes "owned (grants (wr_access db)) (va_grant_id access) (u_id u) (\<lambda>_. True)"
  shows "write_reaches cr db (snd (store_proposal ws cr reg call now pid nc u access name corr pd db))"
proof (cases "\<exists>q \<in> set (wr_proposals db). p_id q = pid")
  case False
  let ?c = "case corr of Some c \<Rightarrow> if \<exists>q \<in> set (wr_proposals db). p_correlation q = c then nc else c | None \<Rightarrow> nc"
  let ?p = "new_proposal ws cr now pid ?c u access name pd"
  have "write_moves cr db (db\<lparr>wr_proposals := wr_proposals db @ [?p]\<rparr>)"
    by (rule write_moves.propose) (use assms False new_proposal_proposed in auto)
  then show ?thesis using False
    by (simp add: store_proposal_def create_proposal_def r_into_rtranclp Let_def)
qed (simp add: store_proposal_def create_proposal_def)

lemma prepare_body_reaches:
  assumes "owned (grants (wr_access db)) (va_grant_id access) (u_id u) (\<lambda>_. True)"
  shows "write_reaches cr db (snd (prepare_body ws cr reg call now pid nc access u name raw corr db))"
  unfolding prepare_body_def
  by (auto simp: store_proposal_reaches [OF assms] split: option.splits json.splits sum.splits op_error.splits)

lemma prepare_change_reaches:
  assumes "owned (grants (wr_access db)) (va_grant_id access) (u_id u) (\<lambda>_. True)"
  shows "write_reaches cr db (snd (prepare_change ws cr reg call now pid nc access u name raw corr db))"
  using prepare_body_reaches [OF assms, of cr ws reg call now pid nc name raw corr]
  by (auto simp: prepare_change_def split: prod.splits sum.splits)

section \<open>The commit\<close>

lemma finish_proposal_reaches:
  "p \<in> set (wr_proposals db) \<Longrightarrow> open_proposal p \<Longrightarrow> closing_status st \<Longrightarrow>
     write_reaches cr db (snd (finish_proposal call p st code ev message detail db))"
  unfolding finish_proposal_def by (simp add: r_into_rtranclp write_moves.finish)

lemma refuse_commit_reaches [simp]: "write_reaches cr db (snd (refuse_commit call po code uo access detail db))"
  by (simp add: refuse_commit_def)

lemma execute_proposal_reaches:
  assumes p: "p \<in> set (wr_proposals db)" "open_proposal p" and ap: "ap \<in> set (wr_approvals db)" "ap_proposal ap = p_id p"
  shows "write_reaches cr db (snd (execute_proposal ws call wnow xnow p writer opn db))"
proof -
  have "write_moves cr db (save_proposal (p_id p) (carried_out xnow stored) (db\<lparr>wr_business := b\<rparr>))" for stored b
    by (rule write_moves.carry_out [OF p ap])
  then show ?thesis
    using finish_proposal_reaches [OF p, of FAILED]
    by (auto simp: execute_proposal_def Let_def closing_status_def r_into_rtranclp
        split: prod.splits sum.splits op_error.splits)
qed

lemma commit_as_writer_reaches:
  assumes p: "p \<in> set (wr_proposals db)" "open_proposal p" and ap: "ap \<in> set (wr_approvals db)" "ap_proposal ap = p_id p"
  shows "write_reaches cr db (snd (commit_as_writer ws reg call wnow xnow p writer db))"
  using finish_proposal_reaches [OF p, of STALE] finish_proposal_reaches [OF p, of FAILED]
    execute_proposal_reaches [OF p ap]
  by (auto simp: commit_as_writer_def closing_status_def split: option.splits sum.splits op_error.splits)

lemma commit_approved_reaches:
  assumes p: "p \<in> set (wr_proposals db)" "open_proposal p" and ap: "ap \<in> set (wr_approvals db)" "ap_proposal ap = p_id p"
  shows "write_reaches cr db (snd (commit_approved ws cr reg call now wnow xnow access uo p ap db))"
  using finish_proposal_reaches [OF p, of EXPIRED] finish_proposal_reaches [OF p, of FAILED]
    commit_as_writer_reaches [OF p ap]
  by (auto simp: commit_approved_def closing_status_def split: option.splits)

lemma commit_unapproved_reaches:
  "p \<in> set (wr_proposals db) \<Longrightarrow> open_proposal p \<Longrightarrow>
     write_reaches cr db (snd (commit_unapproved ws call now p db))"
  using finish_proposal_reaches [of p db EXPIRED] finish_proposal_reaches [of p db FAILED]
  by (auto simp: commit_unapproved_def closing_status_def)

lemma open_by_code: "p_status p \<noteq> EXECUTED \<Longrightarrow> final_code (p_status p) = None \<Longrightarrow> open_proposal p"
  by (cases "p_status p") (simp_all add: open_proposal_def)

lemma commit_reaches:
  "write_reaches cr db (snd (commit_proposal ws cr reg call now wnow xnow access uo raw db))"
proof -
  have unapproved: "write_reaches cr db (snd (commit_unapproved ws call now p db))"
    if "proposal_by_id db i = Some p" "p_status p \<noteq> EXECUTED" "final_code (p_status p) = None" for i p
    by (rule commit_unapproved_reaches) (use that proposal_by_idD open_by_code in auto)
  have approved: "write_reaches cr db (snd (commit_approved ws cr reg call now wnow xnow access uo p ap db))"
    if "proposal_by_id db i = Some p" "p_status p \<noteq> EXECUTED" "final_code (p_status p) = None"
      "approval_of db i = Some ap" for i p ap
    by (rule commit_approved_reaches)
      (use that proposal_by_idD [OF that(1)] approval_ofD [OF that(4)] open_by_code in auto)
  show ?thesis
    unfolding commit_proposal_def
    by (auto intro: unapproved approved split: option.splits)
qed

section \<open>The gateway\<close>

lemma may_connect_owner:
  "may_connect cfg bgs now (Some u) (Some g) \<Longrightarrow> g_user g = u_id u \<and> g_status g = Active"
  by (simp add: may_connect_def)

lemma asked_writer_owned:
  assumes "asked_writer ws now access db = Some u"
  shows "owned (grants db) (va_grant_id access) (u_id u) (\<lambda>_. True)"
proof -
  from assms obtain t g where a: "afresh (access_settings ws) now access db = Some (t, g, u)"
    by (auto simp: asked_writer_def writer_for_def split: if_splits option.splits)
  then have "grant_by_id db (va_grant_id access) = Some g"
    and "account_passes (access_settings ws) (break_glasses db) now t (Some g) (Some u)"
    by (auto simp: afresh_def split: if_splits option.splits)
  moreover from this(2) have "g_user g = u_id u"
    by (auto simp: account_passes_def may_connect_def split: if_splits)
  ultimately show ?thesis by (auto simp: owned_def grant_by_id_def)
qed

lemma as_the_writer_reaches:
  assumes "\<And>verified writer. owned (grants (wr_access db)) (va_grant_id verified) (u_id writer) (\<lambda>_. True) \<Longrightarrow>
    write_reaches cr db (snd (work verified writer db))"
  shows "write_reaches cr db (snd (as_the_writer ws cr vnow wnow raw work db))"
  unfolding as_the_writer_def
  by (auto intro!: assms dest: asked_writer_owned split: option.splits)

lemma handle_reaches: "write_reaches cr db (snd (handle ws cr reg loads gk rq db))"
  unfolding handle_def serve_prepare_def serve_commit_def
  by (auto intro!: as_the_writer_reaches prepare_change_reaches commit_reaches
      split: option.splits json.splits)

section \<open>The approval page\<close>

lemma save_nothing [simp]: "save_proposal i id db = db"
proof -
  have "update_where c id ps = ps" for c and ps :: "proposal list"
    unfolding update_where_def by (rule map_idI) simp
  then show ?thesis by (simp add: save_proposal_def)
qed

lemma settle_reaches:
  assumes "p \<in> set (wr_proposals db)" "open_proposal p"
  shows "write_reaches cr db (settle p problem db)"
proof (cases "settled_status problem")
  case None
  then show ?thesis by (simp add: settle_def Let_def)
next
  case (Some st)
  then have "closing_status st" by (cases problem) (auto simp: closing_status_def)
  then have "write_moves cr db (save_proposal (p_id p) (ended st code) db)" for code
    using assms by (intro write_moves.finish)
  with Some show ?thesis by (simp add: settle_def Let_def r_into_rtranclp)
qed

lemma problem_settled: "problem_of ws cr reg now u p db = Some problem \<Longrightarrow> \<not> open_proposal p \<Longrightarrow> problem = Not_Pending"
  by (auto simp: problem_of_def open_proposal_def)

lemma settle_not_pending: "write_reaches cr db (settle p Not_Pending db)"
  by (simp add: settle_def Let_def)

lemma settled_reaches:
  "p \<in> set (wr_proposals db) \<Longrightarrow> problem_of ws cr reg now u p db = Some problem \<Longrightarrow>
     write_reaches cr db (settle p problem db)"
  using settle_reaches settle_not_pending problem_settled by (cases "open_proposal p") blast+

lemma pending_move:
  assumes "proposal_by_id db pid = Some p" "open_proposal p" "closing_status st"
  shows "write_reaches cr db (save_proposal pid (ended st code) db)"
  using write_moves.finish [of p db st cr code] proposal_by_idD [OF assms(1)] assms by (simp add: r_into_rtranclp)

lemma expire_due_reaches: "write_reaches cr db (expire_due pid db)"
  by (auto simp: expire_due_def open_proposal_def closing_status_def intro!: reaches_write pending_move
      split: option.splits)

lemma decline_locked_reaches: "write_reaches cr db (snd (decline_locked ip pid db))"
  by (auto simp: decline_locked_def open_proposal_def closing_status_def intro!: reaches_write pending_move
      split: option.splits)

lemma withdraw_locked_reaches: "write_reaches cr db (snd (withdraw_locked pid db))"
  by (auto simp: withdraw_locked_def open_proposal_def closing_status_def intro!: reaches_write pending_move
      split: option.splits)

lemma check_locked_reaches: "write_reaches cr db (snd (check_locked ws cr reg now u pid db))"
  by (auto simp: check_locked_def dest: proposal_by_idD intro: settled_reaches
      split: option.splits problem.splits)

lemma may_approve_owner:
  "may_approve ws now u (Some g) db \<Longrightarrow> g_user g = u_id u \<and> g_status g = Active"
  by (auto simp: may_approve_def asked_may_write_def may_write_def may_connect_def split: if_splits)

lemma grant_owner:
  assumes "write_inv cr db" "p \<in> set (wr_proposals db)" "grant_by_id (wr_access db) (p_grant p) = Some g"
  shows "g_user g = p_user p"
proof -
  have "proposal_ok cr (grants (wr_access db)) (wr_approvals db) p"
    using assms(1,2) by (simp add: write_inv_def)
  then obtain h where h: "h \<in> set (grants (wr_access db))" "g_id h = p_grant p" "g_user h = p_user p"
    by (auto simp: proposal_ok_def owned_def)
  have "g = h"
    using grant_by_member [OF _ h(1)] h(2) assms by (simp add: write_inv_def)
  with h show ?thesis by simp
qed

lemma unproblematic:
  assumes "problem_of ws cr reg now u p db = None"
  shows "p_status p = PENDING \<and> \<not> proposal_expired_at p now \<and> digest_of cr p = p_digest p \<and>
    staleness_of reg now p u db = Current \<and>
    (\<exists>g. grant_by_id (wr_access db) (p_grant p) = Some g \<and> may_approve ws now u (Some g) db)"
  using assms
  by (auto simp: problem_of_def may_approve_def split: if_splits staleness.splits option.splits)

lemma approve_locked_yes:
  assumes "approve_locked ws cr reg now way ip u pid db = (Some None, db')"
  obtains p where "proposal_by_id db pid = Some p" "problem_of ws cr reg now u p db = None"
    "\<forall>o' \<in> set (wr_approvals db). ap_proposal o' \<noteq> pid"
    "db' = record_write None Approved_Event True (Some (marked_approved p)) nobody
       [(''method'', JText (method_text way))]
       (save_proposal pid marked_approved
         (db\<lparr>wr_approvals := wr_approvals db @ [new_approval ws now way ip u p]\<rparr>))"
  using assms
  by (auto simp: approve_locked_def create_approval_Some new_approval_def dest: proposal_by_idD
      split: option.splits problem.splits)

lemma approve_locked_reaches:
  assumes "write_inv cr db"
  shows "write_reaches cr db (snd (approve_locked ws cr reg now way ip u pid db))"
proof (cases "fst (approve_locked ws cr reg now way ip u pid db) = Some None")
  case True
  then obtain db' where e: "approve_locked ws cr reg now way ip u pid db = (Some None, db')"
    by (cases "approve_locked ws cr reg now way ip u pid db") auto
  then obtain p where p: "proposal_by_id db pid = Some p" "problem_of ws cr reg now u p db = None"
    and db': "db' = record_write None Approved_Event True (Some (marked_approved p)) nobody
       [(''method'', JText (method_text way))]
       (save_proposal pid marked_approved
         (db\<lparr>wr_approvals := wr_approvals db @ [new_approval ws now way ip u p]\<rparr>))"
    by (rule approve_locked_yes)
  note m = proposal_by_idD [OF p(1)]
  obtain g where g: "grant_by_id (wr_access db) (p_grant p) = Some g" "may_approve ws now u (Some g) db"
    using unproblematic [OF p(2)] by blast
  have "u_id u = p_user p"
    using may_approve_owner [OF g(2)] grant_owner [OF assms _ g(1)] m by simp
  then have "matches p (new_approval ws now way ip u p)" by (simp add: matches_def new_approval_def)
  then have "write_moves cr db (save_proposal (p_id p) marked_approved
      (db\<lparr>wr_approvals := wr_approvals db @ [new_approval ws now way ip u p]\<rparr>))"
    using m unproblematic [OF p(2)] by (intro write_moves.approve) auto
  then show ?thesis using m by (simp add: e db' r_into_rtranclp)
next
  case False
  then show ?thesis
    by (auto simp: approve_locked_def dest: proposal_by_idD intro: settled_reaches
        split: option.splits problem.splits)
qed

text \<open>The whole view, with moves of others before each of its transactions.\<close>

lemma write_inv_access: "write_inv cr db \<Longrightarrow> access_inv (wr_access db)"
  by (simp add: write_inv_def)

lemma asked_confirmation_reaches:
  "access_inv db \<Longrightarrow> reaches db (snd (asked_confirmation ws cr hnow now tnow uid gid code ip ks db))"
  by (simp add: asked_confirmation_def confirm_write_code_reaches)

lemma refuse_code_reaches: "write_reaches cr db (snd (refuse_code p out db))"
  by (auto simp: refuse_code_def Let_def split: outcome_status.splits)

lemma approve_with_code_reaches:
  assumes meanwhile: "\<And>k db. write_reaches (en_crypto en) db (meanwhile k db)"
    and "write_inv (en_crypto en) db"
  shows "write_reaches (en_crypto en) db (snd (approve_with_code en reg ck meanwhile u req g p db))"
proof -
  let ?db = "meanwhile 2 db"
  have inv: "access_inv (wr_access ?db)"
    using write_reaches_inv [OF meanwhile assms(2)] by (rule write_inv_access)
  let ?ask = "asked_confirmation (en_settings en) (en_crypto en) (ck_hold ck) (ck_code ck) (ck_totp ck)
    (u_id u) (g_id g) (take 16 (q_code req)) (q_ip req) (q_throttle req) (wr_access ?db)"
  have "reaches (wr_access ?db) (snd ?ask)" by (rule asked_confirmation_reaches [OF inv])
  then have asked: "write_reaches (en_crypto en) db (?db\<lparr>wr_access := snd ?ask\<rparr>)"
    by (rule reaches_access [OF meanwhile])
  then have "write_reaches (en_crypto en) db (snd (refuse_code p out (?db\<lparr>wr_access := snd ?ask\<rparr>)))" for out
    using refuse_code_reaches by (rule rtranclp_trans)
  with asked meanwhile show ?thesis
    by (cases ?ask) (auto simp: approve_with_code_def Let_def split: sum.splits)
qed

lemma approve_coded_reaches:
  assumes "write_inv (en_crypto en) db"
  shows "write_reaches (en_crypto en) db (snd (approve_coded en reg ck u req g pid way db))"
proof -
  let ?step = "approve_locked (en_settings en) (en_crypto en) reg (ck_second ck) way (q_ip req) u pid db"
  have "snd (approve_coded en reg ck u req g pid way db) = snd ?step"
    by (simp add: approve_coded_def split: prod.splits option.splits)
  then show ?thesis using approve_locked_reaches [OF assms] by metis
qed

lemma approve_now_reaches:
  assumes meanwhile: "\<And>k db. write_reaches (en_crypto en) db (meanwhile k db)"
    and inv: "write_inv (en_crypto en) db"
  shows "write_reaches (en_crypto en) db (snd (approve_now en reg ck meanwhile u req g p db))"
proof -
  let ?cr = "en_crypto en" and ?ws = "en_settings en"
  obtain c db1 where e1: "check_locked ?ws ?cr reg (ck_first ck) u (p_id p) (meanwhile 1 db) = (c, db1)"
    by (rule prod.exhaust)
  obtain m db2 where e2: "approve_with_code en reg ck meanwhile u req g p db1 = (m, db2)"
    by (rule prod.exhaust)
  have r1: "write_reaches ?cr db db1"
    using rtranclp_trans [OF meanwhile [of db 1] check_locked_reaches [of ?cr _ ?ws reg "ck_first ck" u "p_id p"]]
    by (simp add: e1 del: One_nat_def)
  have i1: "write_inv ?cr db1" by (rule write_reaches_inv [OF r1 inv])
  have r2: "write_reaches ?cr db db2"
    using rtranclp_trans [OF r1 approve_with_code_reaches [where meanwhile = meanwhile, OF meanwhile i1,
        of reg ck u req g p]] by (simp add: e2)
  have r3: "write_reaches ?cr db (meanwhile 3 db2)" by (rule rtranclp_trans [OF r2 meanwhile])
  have r4: "write_reaches ?cr db (snd (approve_coded en reg ck u req g (p_id p) way (meanwhile 3 db2)))" for way
    by (rule rtranclp_trans [OF r3 approve_coded_reaches [OF write_reaches_inv [OF r3 inv]]])
  show ?thesis
    by (cases c; cases "the c"; cases m) (simp_all add: approve_now_def e1 e2 r1 r2 r4 del: One_nat_def)
qed

lemma expired_now_reaches:
  assumes "\<And>k db. write_reaches cr db (meanwhile k db)"
  shows "write_reaches cr db (snd (expired_now now meanwhile p db))"
  using rtranclp_trans [OF assms expire_due_reaches] by (simp add: expired_now_def Let_def)

lemma withdraw_view_reaches:
  assumes "\<And>k db. write_reaches cr db (meanwhile k db)"
  shows "write_reaches cr db (snd (withdraw_view meanwhile pid db))"
  using rtranclp_trans [OF assms [of db 1] withdraw_locked_reaches [of cr _ pid]]
  by (cases "withdraw_locked pid (meanwhile 1 db)") (auto simp: withdraw_view_def split: option.splits)

lemma decline_view_reaches:
  assumes "\<And>k db. write_reaches cr db (meanwhile k db)"
  shows "write_reaches cr db (snd (decline_view meanwhile ip pid db))"
  using rtranclp_trans [OF assms [of db 1] decline_locked_reaches [of cr _ ip pid]]
  by (cases "decline_locked ip pid (meanwhile 1 db)") (auto simp: decline_view_def split: option.splits)

lemma approve_view_reaches:
  assumes meanwhile: "\<And>k db. write_reaches (en_crypto en) db (meanwhile k db)"
    and inv: "write_inv (en_crypto en) db"
  shows "write_reaches (en_crypto en) db (snd (approve_view en reg ck meanwhile uo req pid db))"
proof (cases "\<exists>u p0 g. uo = Some u \<and> owned_proposal (en_settings en) (ck_view ck) u pid db = Some (p0, g)")
  case True
  then obtain u p0 g where u: "uo = Some u" "owned_proposal (en_settings en) (ck_view ck) u pid db = Some (p0, g)"
    by blast
  obtain p db1 where e: "expired_now (ck_view ck) meanwhile p0 db = (p, db1)" by (rule prod.exhaust)
  have r: "write_reaches (en_crypto en) db db1"
    using expired_now_reaches [where meanwhile = meanwhile, OF meanwhile, of db "ck_view ck" p0]
    by (simp add: e)
  have withdrawn: "write_reaches (en_crypto en) db (snd (withdraw_view meanwhile pid db1))"
    by (rule rtranclp_trans [OF r withdraw_view_reaches [OF meanwhile]])
  have declined: "write_reaches (en_crypto en) db (snd (decline_view meanwhile (q_ip req) pid db1))"
    by (rule rtranclp_trans [OF r decline_view_reaches [OF meanwhile]])
  have approved: "write_reaches (en_crypto en) db (snd (approve_now en reg ck meanwhile u req g p db1))"
    by (rule rtranclp_trans [OF r approve_now_reaches [OF meanwhile write_reaches_inv [OF r inv]]])
  show ?thesis
    by (cases "withdraw_view meanwhile pid db1"; cases "decline_view meanwhile (q_ip req) pid db1")
      (use r withdrawn declined approved in
        \<open>simp add: approve_view_def Let_def u e split: staleness.splits\<close>)
next
  case False
  then show ?thesis
    by (auto simp: approve_view_def Let_def refuse_stranger_def split: option.splits)
qed

section \<open>Histories\<close>

text \<open>One step is a call of the gateway, a visit to the approval page, one transaction of such a visit
  (so that visits and calls may interleave), an operation of the authorization server, or a change of
  the business records by anybody else.\<close>

datatype (plugins only: code) 'b write_op =
    GatewayCall gateway_clock gateway_request
  | PageVisit page_clock "user option" approve_request nat
  | ExpireDue nat
  | DeclineLocked "string option" nat
  | WithdrawLocked nat
  | CheckLocked instant user nat
  | ApproveLocked instant approval_method "string option" user nat
  | RefuseStranger user nat
  | CodeRefused proposal outcome
  | AskCode instant instant instant row_id row_id string "string option" "throttle_key list"
  | AccessCall access_op
  | OtherChange 'b

record 'b write_env =
  ev_crypto :: crypto
  ev_keyed :: "string \<Rightarrow> string"
  ev_registry :: "'b registry"
  ev_loads :: "string \<Rightarrow> json option"

definition page_env_of :: "'b write_env \<Rightarrow> write_settings \<Rightarrow> page_env" where
  "page_env_of ev ws = \<lparr>en_settings = ws, en_crypto = ev_crypto ev, en_keyed = ev_keyed ev\<rparr>"

fun write_step :: "'b write_env \<Rightarrow> 'b write_db \<Rightarrow> write_settings \<times> 'b write_op \<Rightarrow> 'b write_db" where
  "write_step ev db (ws, GatewayCall gk rq) =
     snd (handle ws (ev_crypto ev) (ev_registry ev) (ev_loads ev) gk rq db)"
| "write_step ev db (ws, PageVisit ck uo req pid) =
     snd (approve_view (page_env_of ev ws) (ev_registry ev) ck (\<lambda>_ db. db) uo req pid db)"
| "write_step ev db (ws, ExpireDue pid) = expire_due pid db"
| "write_step ev db (ws, DeclineLocked ip pid) = snd (decline_locked ip pid db)"
| "write_step ev db (ws, WithdrawLocked pid) = snd (withdraw_locked pid db)"
| "write_step ev db (ws, CheckLocked now u pid) =
     snd (check_locked ws (ev_crypto ev) (ev_registry ev) now u pid db)"
| "write_step ev db (ws, ApproveLocked now way ip u pid) =
     snd (approve_locked ws (ev_crypto ev) (ev_registry ev) now way ip u pid db)"
| "write_step ev db (ws, RefuseStranger u pid) = refuse_stranger u pid db"
| "write_step ev db (ws, CodeRefused p out) = snd (refuse_code p out db)"
| "write_step ev db (ws, AskCode hnow now tnow uid gid code ip ks) =
     db\<lparr>wr_access := snd (asked_confirmation ws (ev_crypto ev) hnow now tnow uid gid code ip ks (wr_access db))\<rparr>"
| "write_step ev db (ws, AccessCall opn) =
     db\<lparr>wr_access := access_step (ev_crypto ev) (wr_access db) (access_settings ws, opn)\<rparr>"
| "write_step ev db (ws, OtherChange b) = db\<lparr>wr_business := b\<rparr>"

definition empty_write :: "'b \<Rightarrow> 'b write_db" where
  "empty_write b = \<lparr>wr_access = empty_access, wr_business = b, wr_proposals = [], wr_approvals = [], wr_events = []\<rparr>"

definition write_history :: "'b write_env \<Rightarrow> 'b \<Rightarrow> (write_settings \<times> 'b write_op) list \<Rightarrow> 'b write_db" where
  "write_history ev b ops = foldl (write_step ev) (empty_write b) ops"

lemma refuse_stranger_reaches: "write_reaches cr db (refuse_stranger u pid db)"
  by (simp add: refuse_stranger_def)

lemma write_step_reaches:
  assumes inv: "write_inv (ev_crypto ev) db"
  shows "write_reaches (ev_crypto ev) db (write_step ev db e)"
proof -
  obtain ws opn where e: "e = (ws, opn)" by fastforce
  have page: "write_reaches (ev_crypto ev) db
      (snd (approve_view (page_env_of ev ws) (ev_registry ev) ck (\<lambda>_ db. db) uo req pid db))" for ck uo req pid
    using approve_view_reaches [of "page_env_of ev ws" "\<lambda>_ db. db" db] inv by (simp add: page_env_of_def)
  note a = write_inv_access [OF inv]
  show ?thesis
  proof (cases opn)
    case (AskCode hnow now tnow uid gid code ip ks)
    then show ?thesis unfolding e by (simp add: reaches_access asked_confirmation_reaches a)
  next
    case (AccessCall aop)
    then show ?thesis unfolding e by (simp add: reaches_access access_step_reaches a)
  next
    case (OtherChange b)
    then show ?thesis unfolding e by (simp add: r_into_rtranclp write_moves.other_business)
  qed (simp_all add: e handle_reaches page expire_due_reaches decline_locked_reaches withdraw_locked_reaches
      check_locked_reaches approve_locked_reaches inv refuse_stranger_reaches refuse_code_reaches)
qed

lemma empty_write_inv: "write_inv cr (empty_write b)"
  by (simp add: write_inv_def empty_write_def empty_access_inv unique_on_def)

interpretation writes: step_system "write_step ev" "write_inv (ev_crypto ev)" for ev
  by unfold_locales (blast intro: write_reaches_inv write_step_reaches)

interpretation finished: final_rows "write_step ev" "write_inv (ev_crypto ev)" proposal_over proposal_by_id
  for ev :: "'b write_env"
proof unfold_locales
  fix db :: "'b write_db" and i and e :: "write_settings \<times> 'b write_op"
  assume inv: "write_inv (ev_crypto ev) db" and over: "proposal_over db i"
  then obtain p where p: "p \<in> set (wr_proposals db)" "p_id p = i" "\<not> open_proposal p"
    by (auto simp: proposal_over_def)
  note r = write_step_reaches [OF inv, of e]
  have kept: "p \<in> set (wr_proposals (write_step ev db e))" by (rule reaches_final [OF r inv p(1,3)])
  then show "proposal_over (write_step ev db e) i" using p by (auto simp: proposal_over_def)
  show "proposal_by_id (write_step ev db e) i = proposal_by_id db i"
    using proposal_by_member [OF inv p(1)] proposal_by_member [OF write_reaches_inv [OF r inv] kept] p(2) by simp
qed

lemma write_history_inv: "write_inv (ev_crypto ev) (write_history ev b ops)"
  unfolding write_history_def by (rule writes.run_inv) (rule empty_write_inv)

lemma write_run_reaches:
  "write_inv (ev_crypto ev) db \<Longrightarrow> write_reaches (ev_crypto ev) db (foldl (write_step ev) db es)"
proof (induction es arbitrary: db)
  case (Cons e es)
  have "write_reaches (ev_crypto ev) (write_step ev db e) (foldl (write_step ev) (write_step ev db e) es)"
    by (rule Cons.IH) (rule writes.step_inv [OF Cons.prems])
  then show ?case using write_step_reaches [OF Cons.prems, of e] by simp
qed simp

end
