(* ===== verification/WriteFacts.thy ===== *)
theory WriteFacts
  imports WriteSystem
begin

text \<open>
  What the answers of the gateway and of the approval page say about the state: the commit that
  executed, the commits that did not, the page that approved; and the texts of uuids read back.
\<close>

section \<open>Frames\<close>

lemma record_write_frame [simp]:
  "wr_access (record_write call et ok po ab d db) = wr_access db"
  "wr_business (record_write call et ok po ab d db) = wr_business db"
  "wr_proposals (record_write call et ok po ab d db) = wr_proposals db"
  "wr_approvals (record_write call et ok po ab d db) = wr_approvals db"
  by (simp_all add: record_write_def Let_def)

lemma finish_proposal_frame [simp]:
  "fst (finish_proposal call p st code ev message detail db) = Inl (refused code message)"
  "wr_access (snd (finish_proposal call p st code ev message detail db)) = wr_access db"
  "wr_business (snd (finish_proposal call p st code ev message detail db)) = wr_business db"
  "wr_approvals (snd (finish_proposal call p st code ev message detail db)) = wr_approvals db"
  by (simp_all add: finish_proposal_def)

lemma refuse_commit_frame [simp]:
  "fst (refuse_commit call po code uo access detail db) = Inl (refused code [])"
  "wr_access (snd (refuse_commit call po code uo access detail db)) = wr_access db"
  "wr_business (snd (refuse_commit call po code uo access detail db)) = wr_business db"
  "wr_proposals (snd (refuse_commit call po code uo access detail db)) = wr_proposals db"
  "wr_approvals (snd (refuse_commit call po code uo access detail db)) = wr_approvals db"
  by (simp_all add: refuse_commit_def)

lemma prepare_refused_frame [simp]:
  "fst (prepare_refused call r u access operation detail db) = Inl r"
  "wr_access (snd (prepare_refused call r u access operation detail db)) = wr_access db"
  "wr_business (snd (prepare_refused call r u access operation detail db)) = wr_business db"
  "wr_proposals (snd (prepare_refused call r u access operation detail db)) = wr_proposals db"
  "wr_approvals (snd (prepare_refused call r u access operation detail db)) = wr_approvals db"
  by (simp_all add: prepare_refused_def)

section \<open>The commit that executes\<close>

definition newly_executed :: "gateway_refusal + json \<Rightarrow> bool" where
  \<comment> \<open>the answer of a commit that carried its proposal out now\<close>
  "newly_executed res \<longleftrightarrow> (case res of Inr ans \<Rightarrow> json_field ''replayed'' ans = Some (JBool False) | Inl _ \<Rightarrow> False)"

lemma newly_executed_answers [simp]:
  "newly_executed (Inr (executed_answer p r)) \<longleftrightarrow> \<not> r" "\<not> newly_executed (Inl e)"
  "\<not> newly_executed (Inr (awaiting_answer ws p))"
  "\<not> newly_executed (Inr (proposal_answer ws reg p))"
  by (simp_all add: newly_executed_def json_field_def executed_answer_def awaiting_answer_def proposal_answer_def)

definition executable_now ::
  "'b registry \<Rightarrow> instant \<Rightarrow> proposal \<Rightarrow> user \<Rightarrow> 'b \<Rightarrow> executed \<Rightarrow> 'b \<Rightarrow> bool" where
  \<comment> \<open>the operation finds the record as it was prepared, and goes through\<close>
  "executable_now reg wnow p writer b ex b' \<longleftrightarrow>
     (\<exists>opn s. reg (p_operation p) = Some opn \<and> op_lock opn (p_arguments p) b = Inr () \<and>
        op_state opn wnow writer (p_arguments p) b = Inr s \<and> jsonable s = p_state p \<and>
        op_execute opn wnow writer (p_arguments p) (p_id p) b = (Inr ex, b'))"

definition carried_out_db ::
  "write_settings \<Rightarrow> nat option \<Rightarrow> instant \<Rightarrow> proposal \<Rightarrow> executed \<Rightarrow> 'b \<Rightarrow> 'b write_db \<Rightarrow> 'b write_db" where
  "carried_out_db ws call xnow p ex b' db =
     (let stored = receipt ws ex
      in record_write call Committed_Event True (Some (carried_out xnow stored p)) nobody
           (map (\<lambda>k. (k, case json_field k stored of Some v \<Rightarrow> v | None \<Rightarrow> JText []))
              [''record_type'', ''record_id''])
           (save_proposal (p_id p) (carried_out xnow stored) (db\<lparr>wr_business := b'\<rparr>)))"

lemma execute_proposal_cases:
  assumes "execute_proposal ws call wnow xnow p writer opn db = (res, db')"
  obtains (yes) ex b where "op_execute opn wnow writer (p_arguments p) (p_id p) (wr_business db) = (Inr ex, b)"
      "res = Inr (executed_answer (carried_out xnow (receipt ws ex) p) False)"
      "db' = carried_out_db ws call xnow p ex b db"
  | (no) "\<not> newly_executed res" "wr_business db' = wr_business db" "wr_access db' = wr_access db"
  using assms finish_proposal_frame [of call p FAILED]
  by (auto simp: execute_proposal_def carried_out_db_def Let_def finish_proposal_def
      split: prod.splits sum.splits op_error.splits)

lemma map_sum_Inr: "map_sum id f x = Inr y \<longleftrightarrow> (\<exists>s. x = Inr s \<and> f s = y)"
  by (cases x) auto

lemma commit_as_writer_cases:
  assumes "commit_as_writer ws reg call wnow xnow p writer db = (res, db')"
  obtains (yes) ex b where "executable_now reg wnow p writer (wr_business db) ex b"
      "res = Inr (executed_answer (carried_out xnow (receipt ws ex) p) False)"
      "db' = carried_out_db ws call xnow p ex b db"
  | (no) "\<not> newly_executed res" "wr_business db' = wr_business db" "wr_access db' = wr_access db"
proof (cases "\<exists>opn s. reg (p_operation p) = Some opn \<and> op_lock opn (p_arguments p) (wr_business db) = Inr () \<and>
    op_state opn wnow writer (p_arguments p) (wr_business db) = Inr s \<and> jsonable s = p_state p")
  case True
  then obtain opn s where o': "reg (p_operation p) = Some opn" "op_lock opn (p_arguments p) (wr_business db) = Inr ()"
    "op_state opn wnow writer (p_arguments p) (wr_business db) = Inr s" "jsonable s = p_state p" by blast
  with assms have "execute_proposal ws call wnow xnow p writer opn db = (res, db')"
    by (simp add: commit_as_writer_def)
  then show ?thesis
    by (cases rule: execute_proposal_cases) (use o' yes no in \<open>auto simp: executable_now_def\<close>)
next
  case False
  with assms show ?thesis
    by (intro no)
      (auto simp: commit_as_writer_def finish_proposal_def map_sum_Inr
        split: option.splits sum.splits op_error.splits if_splits)
qed

definition commit_allowed ::
  "write_settings \<Rightarrow> crypto \<Rightarrow> instant \<Rightarrow> instant \<Rightarrow> verified_access \<Rightarrow> user option \<Rightarrow> proposal \<Rightarrow> user \<Rightarrow>
     'b write_db \<Rightarrow> bool" where
  \<comment> \<open>everything \<open>commit\<close> asks for before it asks the operation\<close>
  "commit_allowed ws cr now wnow access uo p writer db \<longleftrightarrow>
     writes_enabled ws \<and> same_principal p access uo \<and> open_proposal p \<and>
     (\<exists>ap. approval_of db (p_id p) = Some ap \<and> approval_holds cr p ap \<and> \<not> approval_expired_at ap now) \<and>
     asked_writer ws wnow access (wr_access db) = Some writer \<and> u_id writer = p_user p"

lemma commit_allowed_steps:
  assumes "commit_allowed ws cr now wnow access uo p writer db" and "parse_id raw = Some (p_id p)"
    and "proposal_by_id db (p_id p) = Some p"
  shows "commit_proposal ws cr reg call now wnow xnow access uo raw db
    = commit_as_writer ws reg call wnow xnow p writer db"
proof -
  have "p_status p \<noteq> EXECUTED \<and> final_code (p_status p) = None"
    using assms(1) by (auto simp: commit_allowed_def open_proposal_def)
  with assms show ?thesis
    by (auto simp: commit_proposal_def commit_allowed_def commit_approved_def)
qed

lemma commit_cases:
  assumes "commit_proposal ws cr reg call now wnow xnow access uo raw db = (res, db')"
  obtains (yes) p writer ex b where "parse_id raw = Some (p_id p)" "proposal_by_id db (p_id p) = Some p"
      "commit_allowed ws cr now wnow access uo p writer db"
      "executable_now reg wnow p writer (wr_business db) ex b"
      "res = Inr (executed_answer (carried_out xnow (receipt ws ex) p) False)"
      "db' = carried_out_db ws call xnow p ex b db"
  | (no) "\<not> newly_executed res" "wr_business db' = wr_business db" "wr_access db' = wr_access db"
proof (cases "\<exists>p writer. parse_id raw = Some (p_id p) \<and> proposal_by_id db (p_id p) = Some p \<and>
    commit_allowed ws cr now wnow access uo p writer db")
  case True
  then obtain p writer where p: "parse_id raw = Some (p_id p)" "proposal_by_id db (p_id p) = Some p"
    and a: "commit_allowed ws cr now wnow access uo p writer db" by blast
  have "commit_as_writer ws reg call wnow xnow p writer db = (res, db')"
    using commit_allowed_steps [OF a p, of reg call xnow] assms by simp
  then show ?thesis
    by (cases rule: commit_as_writer_cases) (use p a yes no in auto)
next
  case False
  have unapproved: "\<not> newly_executed res \<and> wr_business db' = wr_business db \<and> wr_access db' = wr_access db"
    if "commit_unapproved ws call now p db = (res, db')" for p
    using that by (auto simp: commit_unapproved_def finish_proposal_def split: if_splits)
  have approved: "\<not> newly_executed res \<and> wr_business db' = wr_business db \<and> wr_access db' = wr_access db"
    if "commit_approved ws cr reg call now wnow xnow access uo p ap db = (res, db')"
      "parse_id raw = Some (p_id p)" "proposal_by_id db (p_id p) = Some p" "approval_of db (p_id p) = Some ap"
      "writes_enabled ws" "same_principal p access uo" "open_proposal p" for p ap
    using that False
    by (auto simp: commit_approved_def commit_allowed_def finish_proposal_def refuse_commit_def
        split: if_splits option.splits)
  have "\<not> newly_executed res \<and> wr_business db' = wr_business db \<and> wr_access db' = wr_access db"
    using assms unfolding commit_proposal_def
    by (auto simp: refuse_commit_def dest!: unapproved approved dest: proposal_by_idD open_by_code
        split: option.splits if_splits)
  then show ?thesis using no by blast
qed

section \<open>The page that approves\<close>

fun says_done :: "approve_page \<Rightarrow> bool" where
  "says_done (Proposal_Page p c t n) \<longleftrightarrow> t = Done_Text"
| "says_done _ \<longleftrightarrow> False"

lemma other_pages [simp]:
  "\<not> says_done (problem_page pid problem db)" "\<not> says_done (fst (refuse_code p out db))"
  "\<not> says_done (fst (withdraw_view meanwhile pid db))" "\<not> says_done (fst (decline_view meanwhile ip pid db))"
  by (auto simp: problem_page_def refuse_code_def Let_def withdraw_view_def decline_view_def
      split: option.splits outcome_status.splits prod.splits)

definition code_given ::
  "page_env \<Rightarrow> page_clock \<Rightarrow> approve_request \<Rightarrow> user \<Rightarrow> grant \<Rightarrow> access_db \<Rightarrow> bool" where
  \<comment> \<open>the grant's authenticator code of the request is right in this state\<close>
  "code_given en ck req u g adb \<longleftrightarrow>
     (\<exists>out adb'. asked_confirmation (en_settings en) (en_crypto en) (ck_hold ck) (ck_code ck) (ck_totp ck)
        (u_id u) (g_id g) (take 16 (q_code req)) (q_ip req) (q_throttle req) adb = (Inr out, adb') \<and>
        o_status out = Ok)"

lemma approve_with_code_yes:
  assumes "approve_with_code en reg ck meanwhile u req g p db = (Inr way, db')"
  shows "recent_holds (en_settings en) (en_keyed en) (ck_recent ck) req u g \<or>
    code_given en ck req u g (wr_access (meanwhile 2 db))"
  using assms
  by (auto simp: approve_with_code_def code_given_def Let_def map_prod_def
      split: if_splits prod.splits sum.splits)

lemma refused_page: "map_prod Inl id (refuse_code p out db) = (Inl page, db') \<Longrightarrow> \<not> says_done page"
  using other_pages(2) [of p out db] by (cases "refuse_code p out db") auto

lemma approve_with_code_page:
  "approve_with_code en reg ck meanwhile u req g p db = (Inl page, db') \<Longrightarrow> \<not> says_done page"
  by (auto simp: approve_with_code_def Let_def dest: refused_page split: if_splits prod.splits sum.splits)

lemma approve_coded_done:
  assumes "approve_coded en reg ck u req g pid way db = ((page, rec), db')" and "says_done page"
  shows "approve_locked (en_settings en) (en_crypto en) reg (ck_second ck) way (q_ip req) u pid db
    = (Some None, db')"
  using assms by (auto simp: approve_coded_def split: prod.splits option.splits)

lemma approve_now_done:
  assumes fin: "approve_now en reg ck meanwhile u req g p db = ((page, rec), db')" "says_done page"
    and meanwhile: "\<And>k db. write_reaches (en_crypto en) db (meanwhile k db)"
    and inv: "write_inv (en_crypto en) db"
  obtains way before dbc where
    "approve_locked (en_settings en) (en_crypto en) reg (ck_second ck) way (q_ip req) u (p_id p) before
       = (Some None, db')"
    "recent_holds (en_settings en) (en_keyed en) (ck_recent ck) req u g \<or> code_given en ck req u g (wr_access dbc)"
    "write_reaches (en_crypto en) db dbc" "write_reaches (en_crypto en) db before"
proof -
  let ?cr = "en_crypto en" and ?ws = "en_settings en"
  obtain c db1 where e1: "check_locked ?ws ?cr reg (ck_first ck) u (p_id p) (meanwhile 1 db) = (c, db1)"
    by (rule prod.exhaust)
  obtain m db2 where e2: "approve_with_code en reg ck meanwhile u req g p db1 = (m, db2)"
    by (rule prod.exhaust)
  from fin have c: "c = Some None"
    by (cases c; cases "the c") (auto simp: approve_now_def e1 simp del: One_nat_def)
  from fin obtain way where m: "m = Inr way"
    using approve_with_code_page [of en reg ck meanwhile u req g p db1 _ db2]
    by (cases m) (auto simp: approve_now_def e1 e2 c simp del: One_nat_def)
  from fin have "approve_coded en reg ck u req g (p_id p) way (meanwhile 3 db2) = ((page, rec), db')"
    by (simp add: approve_now_def e1 e2 c m del: One_nat_def)
  from approve_coded_done [OF this fin(2)] have last: "approve_locked ?ws ?cr reg (ck_second ck) way
      (q_ip req) u (p_id p) (meanwhile 3 db2) = (Some None, db')" .
  have r1: "write_reaches ?cr db db1"
    using rtranclp_trans [OF meanwhile [of db 1] check_locked_reaches [of ?cr _ ?ws reg "ck_first ck" u "p_id p"]]
    by (simp add: e1 del: One_nat_def)
  have "write_reaches ?cr db db2"
    using rtranclp_trans [OF r1 approve_with_code_reaches [where meanwhile = meanwhile, OF meanwhile
      write_reaches_inv [OF r1 inv], of reg ck u req g p]] by (simp add: e2)
  then have "write_reaches ?cr db (meanwhile 3 db2)" by (rule rtranclp_trans [OF _ meanwhile])
  with last approve_with_code_yes [OF e2 [unfolded m]] rtranclp_trans [OF r1 meanwhile] show ?thesis
    by (rule that)
qed

lemma approve_view_done:
  assumes fin: "approve_view en reg ck meanwhile uo req pid db = ((page, rec), db')" "says_done page"
    and meanwhile: "\<And>k db. write_reaches (en_crypto en) db (meanwhile k db)"
    and inv: "write_inv (en_crypto en) db"
  obtains u p0 g way before dbc where "writes_enabled (en_settings en)" "uo = Some u" "q_gate_open req"
    "q_post req" "q_decision req = ''kinnita''"
    "owned_proposal (en_settings en) (ck_view ck) u pid db = Some (p0, g)"
    "approve_locked (en_settings en) (en_crypto en) reg (ck_second ck) way (q_ip req) u pid before
       = (Some None, db')"
    "recent_holds (en_settings en) (en_keyed en) (ck_recent ck) req u g \<or> code_given en ck req u g (wr_access dbc)"
    "write_reaches (en_crypto en) db dbc" "write_reaches (en_crypto en) db before"
proof -
  from fin obtain u p0 g where u: "writes_enabled (en_settings en)" "uo = Some u" "q_gate_open req"
    "owned_proposal (en_settings en) (ck_view ck) u pid db = Some (p0, g)"
    by (auto simp: approve_view_def Let_def split: if_splits option.splits)
  obtain p db1 where e: "expired_now (ck_view ck) meanwhile p0 db = (p, db1)" by (rule prod.exhaust)
  have r: "write_reaches (en_crypto en) db db1"
    using expired_now_reaches [where meanwhile = meanwhile, OF meanwhile, of db "ck_view ck" p0]
    by (simp add: e)
  have p0: "p_id p0 = pid" using u(4)
    by (auto simp: owned_proposal_def dest: proposal_by_idD split: option.splits if_splits)
  then have pid: "p_id p = pid" using e
    by (auto simp: expired_now_def Let_def dest: proposal_by_idD split: if_splits option.splits)
  obtain w w' where w: "withdraw_view meanwhile pid db1 = (w, w')" "\<not> says_done w"
    using other_pages(3) by (metis prod.collapse)
  obtain d d' where d: "decline_view meanwhile (q_ip req) pid db1 = (d, d')" "\<not> says_done d"
    using other_pages(4) by (metis prod.collapse)
  have now: "q_post req \<and> q_decision req = ''kinnita'' \<and>
      approve_now en reg ck meanwhile u req g p db1 = ((page, rec), db')"
    using fin w d by (auto simp: approve_view_def Let_def u e split: if_splits staleness.splits)
  obtain way before dbc where
    "approve_locked (en_settings en) (en_crypto en) reg (ck_second ck) way (q_ip req) u (p_id p) before
       = (Some None, db')"
    "recent_holds (en_settings en) (en_keyed en) (ck_recent ck) req u g \<or> code_given en ck req u g (wr_access dbc)"
    "write_reaches (en_crypto en) db1 dbc" "write_reaches (en_crypto en) db1 before"
    by (rule approve_now_done [OF _ fin(2) meanwhile write_reaches_inv [OF r inv]]) (use now in auto)
  then show ?thesis using that u now pid rtranclp_trans [OF r] by blast
qed

end
