(* ===== verification/WriteTexts.thy ===== *)
theory WriteTexts
  imports WriteCommit
begin

text \<open>
  The texts by which a change is named and approved: a uuid written out is read back as the same
  number, and the text that is digested determines the operation, its arguments, the account and the
  grant.
\<close>

section \<open>A uuid is read back\<close>

lemma hex_text_length [simp]: "length (hex_text k n) = k"
  by (induction k arbitrary: n) simp_all

lemma hex_digit_plain:
  assumes "v < 16"
  shows "digit_value (hex_digit v) = Some v" "\<not> is_space (hex_digit v)"
    "hex_digit v \<notin> {CHR ''-'', CHR '':'', CHR ''_'', CHR ''+'', CHR ''{'', CHR ''}'', CHR ''x'', CHR ''X''}"
proof -
  have c: "(of_char (hex_digit v) :: nat) = (if v < 10 then 48 + v else 87 + v)"
    using assms by (simp add: hex_digit_code)
  show "digit_value (hex_digit v) = Some v" using assms by (simp add: digit_value_def c)
  show "\<not> is_space (hex_digit v)" using assms by (auto simp: is_space_def c Let_def)
  show "hex_digit v \<notin> {CHR ''-'', CHR '':'', CHR ''_'', CHR ''+'', CHR ''{'', CHR ''}'', CHR ''x'', CHR ''X''}"
    using assms c by (auto split: if_splits)
qed

lemma hex_text_chars: "c \<in> set (hex_text k n) \<Longrightarrow> \<exists>v < 16. c = hex_digit v"
  by (induction k arbitrary: n) (auto intro: exI [of _ "n mod 16" for n])

lemma digits_value_hex:
  "digits_value 16 False acc (hex_text k n @ r) = digits_value 16 False (16 ^ k * acc + n mod 16 ^ k) r"
proof (induction k arbitrary: n r)
  case (Suc k)
  have "n mod 16 ^ Suc k = 16 * (n div 16 mod 16 ^ k) + n mod 16"
    by (simp add: mod_mult2_eq)
  moreover have "\<not> 16 \<le> n mod 16" by (simp add: not_le)
  ultimately show ?case
    using Suc.IH [of "n div 16" "hex_digit (n mod 16) # r"] hex_digit_plain [of "n mod 16"]
    by (simp add: algebra_simps)
qed simp

lemma digits_value_start: "s \<noteq> [] \<Longrightarrow> hd s \<noteq> CHR ''_'' \<Longrightarrow> digits_value b True acc s = digits_value b False acc s"
  by (cases s) simp_all

lemma delete_all_absent: "c \<in> set part \<Longrightarrow> c \<notin> set s \<Longrightarrow> delete_all part s = s"
proof (induction part s rule: delete_all.induct)
  case (1 part s)
  show ?case
  proof (cases "part = [] \<or> s = []")
    case False
    have "take (length part) s \<noteq> part" using 1(3,4) by (metis in_set_takeD)
    moreover have "c \<notin> set (tl s)" using 1(4) False by (cases s) auto
    ultimately show ?thesis using 1(2) [OF _ _ 1(3)] False by (subst delete_all.simps) auto
  qed (subst delete_all.simps, auto)
qed

lemma delete_one: "delete_all [c] s = filter (\<lambda>x. x \<noteq> c) s"
proof (induction s)
  case (Cons x s)
  then show ?case by (subst delete_all.simps) auto
qed (simp add: delete_all.simps)

lemma strip_by_plain: "(\<And>c. c \<in> set s \<Longrightarrow> \<not> p c) \<Longrightarrow> strip_by p s = s"
proof -
  have none: "(\<And>c. c \<in> set t \<Longrightarrow> \<not> p c) \<Longrightarrow> dropWhile p t = t" for t by (cases t) auto
  assume "\<And>c. c \<in> set s \<Longrightarrow> \<not> p c"
  then show ?thesis using none [of s] none [of "rev s"] by (simp add: strip_by_def)
qed

lemma hex_text_plain:
  "c \<in> set (hex_text k n) \<Longrightarrow> \<not> is_space c \<and>
     c \<notin> {CHR ''-'', CHR '':'', CHR ''_'', CHR ''+'', CHR ''{'', CHR ''}'', CHR ''x'', CHR ''X''}"
proof -
  assume "c \<in> set (hex_text k n)"
  then obtain v where "v < 16" "c = hex_digit v" using hex_text_chars by blast
  then show ?thesis using hex_digit_plain(2,3) [of v] by simp
qed

lemma uuid_text_chars:
  assumes "c \<in> set (uuid_text n)"
  shows "c = CHR ''-'' \<or> c \<in> set (hex_text 32 n)"
  using assms by (auto simp: uuid_text_def Let_def dest!: in_set_takeD in_set_dropD)

lemma uuid_text_digits: "filter (\<lambda>c. c \<noteq> CHR ''-'') (uuid_text n) = hex_text 32 n"
proof -
  let ?h = "hex_text 32 n"
  have plain: "filter (\<lambda>c. c \<noteq> CHR ''-'') xs = xs" if "\<And>c. c \<in> set xs \<Longrightarrow> c \<in> set ?h" for xs
    using hex_text_plain that by (intro filter_True) blast
  have whole: "take a h @ take b (drop a h) @ take c (drop (a + b) h) @ take d (drop (a + b + c) h) @ drop (a + b + c + d) h = h"
    for a b c d :: nat and h :: string
    by (metis append_take_drop_id drop_drop add.commute)
  have "take 8 ?h @ take 4 (drop 8 ?h) @ take 4 (drop 12 ?h) @ take 4 (drop 16 ?h) @ drop 20 ?h = ?h"
    using whole [of 8 ?h 4 4 4] by simp
  then show ?thesis
    unfolding uuid_text_def Let_def
    by (simp add: plain [OF in_set_takeD] plain [OF in_set_dropD] plain [OF in_set_dropD [OF in_set_takeD]])
qed

lemma parse_uuid_text:
  assumes "n < 2 ^ 128"
  shows "parse_uuid (uuid_text n) = Some n"
proof -
  let ?h = "hex_text 32 n"
  have no: "c \<notin> set (uuid_text n)" if "c \<in> {CHR '':'', CHR ''{'', CHR ''}''}" for c
    using that uuid_text_chars [of c n] hex_text_plain [of c 32 n] by auto
  have "delete_all ''uuid:'' (delete_all ''urn:'' (uuid_text n)) = uuid_text n"
    using no [of "CHR '':''"] by (simp add: delete_all_absent [where c = "CHR '':''"])
  moreover have "strip_by (\<lambda>c. c = CHR ''{'' \<or> c = CHR ''}'') (uuid_text n) = uuid_text n"
    using no by (intro strip_by_plain) auto
  ultimately have h: "delete_all ''-'' (strip_by (\<lambda>c. c = CHR ''{'' \<or> c = CHR ''}'')
      (delete_all ''uuid:'' (delete_all ''urn:'' (uuid_text n)))) = ?h"
    by (simp add: delete_one uuid_text_digits)
  have long: "length ?h = 32" by simp
  then obtain a b r where r: "?h = a # b # r" by (cases ?h; cases "tl ?h") auto
  then have ab: "a \<notin> {CHR ''+'', CHR ''_''}" "b \<notin> {CHR ''x'', CHR ''X''}"
    using hex_text_plain [of a 32 n] hex_text_plain [of b 32 n] by auto
  have stripped: "strip ?h = ?h"
    unfolding strip_def by (rule strip_by_plain) (use hex_text_plain in blast)
  have "int_base_16 ?h = digits_value 16 True 0 ?h"
    using ab unfolding int_base_16_def stripped by (simp add: r)
  also have "\<dots> = digits_value 16 False 0 ?h" using ab by (simp add: digits_value_start r)
  also have "\<dots> = Some (n mod 16 ^ 32)" using digits_value_hex [of 0 32 n "[]"] by simp
  also have "\<dots> = Some n" using assms by simp
  finally show ?thesis unfolding parse_uuid_def Let_def h using long by simp
qed

lemma uuid_text_inj: "m < 2 ^ 128 \<Longrightarrow> n < 2 ^ 128 \<Longrightarrow> uuid_text m = uuid_text n \<Longrightarrow> m = n"
  by (metis option.inject parse_uuid_text)

lemma uuid_text_length [simp]: "length (uuid_text n) = 36"
  by (simp add: uuid_text_def Let_def)

lemma parse_id_text: "n < 2 ^ 128 \<Longrightarrow> parse_id (Some (uuid_text n)) = Some n"
  by (simp add: parse_id_def parse_uuid_text)

section \<open>What a digest determines\<close>

lemma payload_normal:
  "jsonable (digest_payload opn v uid gid) =
     JDict [(''canonical_arguments'', jsonable v), (''grant'', JText (uuid_text gid)),
            (''operation'', JText opn), (''user'', JText (uuid_text uid))]"
  by (simp add: digest_payload_def less_eq_char_def)

end
