(* ===== verification/WriteExample.thy ===== *)
theory WriteExample
  imports WriteFacts WriteTexts AccessExample
begin

text \<open>
  A worked history for the witnesses: the account of \<open>AccessExample\<close> has its connection prepare a
  note, approves it on the page with its authenticator's code, and the connection commits it. The
  business records are a list of notes and the only operation adds one.
\<close>

definition note_state :: "string list \<Rightarrow> json" where
  "note_state notes = JDict [(''notes'', JInt (int (length notes)))]"

definition note_text :: "json \<Rightarrow> string" where
  "note_text v = (case json_field ''text'' v of Some (JText t) \<Rightarrow> t | _ \<Rightarrow> [])"

definition add_note :: "string list operation" where
  "add_note =
     \<lparr>op_label = ''Lisa'', op_validate = (\<lambda>v. if note_text v = [] then Inl [([''text''], ''missing'')] else Inr v),
      op_prepare = (\<lambda>now u v notes. (Inr \<lparr>pd_canonical = v, pd_state = note_state notes,
        pd_preview = \<lparr>pv_summary = ''Lisa'', pv_target = None, pv_changes = [], pv_consequences = [],
          pv_unchanged = [], pv_warnings = []\<rparr>,
        pd_matter = None, pd_record_type = ''note'', pd_record_id = []\<rparr>, notes)),
      op_lock = (\<lambda>v notes. Inr ()), op_state = (\<lambda>now u v notes. Inr (note_state notes)),
      op_execute = (\<lambda>now u v once notes. (Inr \<lparr>ex_record_type = ''note'', ex_record_id = ''1'', ex_matter = None,
        ex_reference = [], ex_url = ''/n/1'', ex_saved = v\<rparr>, notes @ [note_text v]))\<rparr>"

definition note_registry :: "string list registry" where
  "note_registry name = (if name = ''add_note'' then Some add_note else None)"

definition note_loads :: "string \<Rightarrow> json option" where
  "note_loads body =
     (if body = ''P'' then Some (JDict [(''operation'', JText ''add_note''),
        (''arguments'', JDict [(''text'', JText ''hi'')])])
      else if body = ''C'' then Some (JDict [(''proposal_id'', JText (uuid_text 7))]) else None)"

definition note_env :: "string list write_env" where
  "note_env = \<lparr>ev_crypto = example_crypto, ev_keyed = id, ev_registry = note_registry, ev_loads = note_loads\<rparr>"

definition note_settings :: write_settings where
  "note_settings = \<lparr>access_settings = example_settings, proposal_seconds = 600, approval_seconds = 300,
     mcp_write_reverify_seconds = 0, max_request_bytes = 1000, gateway_key = replicate 32 CHR ''k''\<rparr>"

definition note_request :: "bool \<Rightarrow> gateway_request" where
  "note_request prepares = \<lparr>gq_prepare = prepares, gq_host = ''localhost'', gq_content_length = [],
     gq_key = replicate 32 CHR ''k'', gq_authorization = ''Bearer '' @ raw_of CHR ''A'', gq_correlation = None,
     gq_body = (if prepares then ''P'' else ''C'')\<rparr>"

definition clock_at :: "int \<Rightarrow> gateway_clock" where
  "clock_at t = \<lparr>gk_verify = seconds t, gk_writer = seconds t, gk_now = seconds t, gk_again = seconds t,
     gk_end = seconds t, gk_proposal = 7, gk_correlation = 8, gk_call = 9\<rparr>"

definition page_at :: "int \<Rightarrow> page_clock" where
  "page_at t = \<lparr>ck_view = seconds t, ck_first = seconds t, ck_recent = seconds t, ck_hold = seconds t,
     ck_code = seconds t, ck_totp = seconds t, ck_second = seconds t, ck_remember = seconds t\<rparr>"

definition approve_post :: approve_request where
  "approve_post = \<lparr>q_post = True, q_decision = ''kinnita'', q_code = ''999999'', q_ip = None, q_gate_open = True,
     q_gate_pass = ''g'', q_throttle = example_throttle, q_recent = None\<rparr>"

definition note_ops :: "(write_settings \<times> string list write_op) list" where
  "note_ops = map (Pair note_settings)
     (map (\<lambda>e. AccessCall (snd e)) example_ops @
      [GatewayCall (clock_at 2050) (note_request True),
       PageVisit (page_at 2100) (Some example_specialist) approve_post 7,
       GatewayCall (clock_at 2200) (note_request False)])"

definition notes_after :: "nat \<Rightarrow> string list write_db" where
  "notes_after n = write_history note_env [] (take n note_ops)"

definition note_visit :: "string list write_db \<Rightarrow> (approve_page \<times> recent_verification option) \<times> string list write_db" where
  "note_visit db = approve_view (page_env_of note_env note_settings) note_registry (page_at 2100) (\<lambda>_ db. db)
     (Some example_specialist) approve_post 7 db"

definition note_call :: "string list write_db \<Rightarrow> (gateway_refusal + json) \<times> string list write_db" where
  "note_call db = handle note_settings example_crypto note_registry note_loads (clock_at 2200) (note_request False) db"

definition note_commit :: "string list write_db \<Rightarrow> (gateway_refusal + json) \<times> string list write_db" where
  "note_commit db = commit_proposal note_settings example_crypto note_registry None (seconds 2200) (seconds 2200)
     (seconds 2200) example_access (Some example_specialist) (Some (uuid_text 7)) db"

lemma notes_after_steps: "notes_after 8 = snd (note_visit (notes_after 7))" "notes_after 9 = snd (note_call (notes_after 8))"
  by (simp_all add: notes_after_def write_history_def note_ops_def example_ops_def note_visit_def note_call_def
      note_env_def page_env_of_def)

definition note_ran :: "string list write_db \<Rightarrow> bool" where
  "note_ran db \<longleftrightarrow>
     (let visit = note_visit db; call = note_call (snd visit)
      in says_done (fst (fst visit)) \<and> newly_executed (fst (note_commit (snd visit))) \<and>
         wr_business (snd visit) = [] \<and> wr_business (snd call) = [''hi''] \<and> proposal_over (snd call) 7)"

lemma notes_ran_once: "note_ran (notes_after 7)"
  by code_simp

lemma notes_ran:
  "says_done (fst (fst (note_visit (notes_after 7))))" "newly_executed (fst (note_commit (notes_after 8)))"
  "wr_business (notes_after 8) = []" "wr_business (notes_after 9) = [''hi'']" "proposal_over (notes_after 9) 7"
  using notes_ran_once unfolding note_ran_def Let_def notes_after_steps by simp_all

lemma notes_inv: "write_inv example_crypto (notes_after n)"
  using write_history_inv [of note_env "[]" "take n note_ops"] by (simp add: notes_after_def note_env_def)

end
