(* ===== verification/WriteProperties.thy ===== *)
theory WriteProperties
  imports WriteExample
begin

text \<open>
  What holds of changes prepared, approved and committed through the MCP write gateway: in every
  history, whatever the authorization server and the rest of the application do in between.
\<close>

section \<open>Histories\<close>

text \<open>C12: After every sequence of calls of the gateway, visits to the approval page, operations of the
  authorization server and changes by others, the tables are consistent: one approval at most per
  proposal, every approval naming its proposal's own person, grant and digest, a digest that is the one
  recomputed from the stored arguments, an approval for everything approved or executed and none for
  anything pending, a result and a time exactly on what was executed.\<close>

theorem write_history_consistent: "write_inv (ev_crypto ev) (write_history ev b ops)"
  by (rule write_history_inv)

text \<open>C34: A proposal that was executed, declined, that expired, failed or became stale keeps its row
  exactly as it is, whatever is called afterwards.\<close>

theorem finished_proposal_final:
  assumes "proposal_over (write_history ev b ops) pid"
  shows "proposal_over (write_history ev b (ops @ later)) pid \<and>
    proposal_by_id (write_history ev b (ops @ later)) pid = proposal_by_id (write_history ev b ops) pid"
proof -
  have "write_history ev b (ops @ later) = foldl (write_step ev) (write_history ev b ops) later"
    by (simp add: write_history_def)
  then show ?thesis
    using finished.final_forever [OF write_history_inv assms] finished.view_forever [OF write_history_inv assms]
    by simp
qed

theorem finished_proposal_final_witness:
  "proposal_by_id (write_history note_env [] (take 9 note_ops @ [(note_settings, WithdrawLocked 7)])) 7
     = proposal_by_id (notes_after 9) 7"
  using finished_proposal_final [of note_env "[]" "take 9 note_ops" 7 "[(note_settings, WithdrawLocked 7)]"]
    notes_ran(5) by (simp add: notes_after_def)

lemma history_approval_holds:
  assumes inv: "write_inv cr db" and p: "p \<in> set (wr_proposals db)" and ap: "ap \<in> set (wr_approvals db)"
    and same: "ap_proposal ap = p_id p"
  shows "approval_holds cr p ap"
proof -
  obtain q where q: "q \<in> set (wr_proposals db)" "matches q ap" using inv ap by (auto simp: write_inv_def)
  then have "q = p" using inv p same unique_onD [of p_id "wr_proposals db" q p]
    by (simp add: write_inv_def matches_def)
  moreover have "p_digest p = digest_of cr p" using inv p by (simp add: write_inv_def proposal_ok_def)
  ultimately show ?thesis using q(2) by (simp add: approval_holds_def matches_def)
qed

lemma refused_eq: "refused c m = refused c' m' \<longleftrightarrow> c = c' \<and> m = m'"
  by (simp add: refused_def)

lemma code_text_honest: "code_text c \<noteq> ''approval_mismatch''"
  by (cases c) simp_all

lemma writer_never_mismatch:
  "fst (commit_as_writer ws reg call wnow xnow p writer db) \<noteq> Inl (refused ''approval_mismatch'' m)"
  using code_text_honest
  by (auto simp: commit_as_writer_def execute_proposal_def finish_proposal_def refused_eq Let_def
      split: option.splits sum.splits op_error.splits prod.splits)

text \<open>C35: The codes that say a stored row was altered never occur: in every history no commit answers
  \<open>approval_mismatch\<close>, and no proposal's digest differs from its own arguments when it is approved.\<close>

theorem no_mismatch_in_history:
  "fst (commit_proposal ws (ev_crypto ev) reg call now wnow xnow access uo raw (write_history ev b ops))
     \<noteq> Inl (refused ''approval_mismatch'' []) \<and>
   map_option (\<lambda>p. problem_of ws (ev_crypto ev) reg now u p (write_history ev b ops))
     (proposal_by_id (write_history ev b ops) pid) \<noteq> Some (Some Digest_Differs)"
proof -
  let ?db = "write_history ev b ops" and ?cr = "ev_crypto ev"
  note inv = write_history_inv [of ev b ops]
  have ok: "proposal_ok ?cr (grants (wr_access ?db)) (wr_approvals ?db) p" if "proposal_by_id ?db i = Some p" for i p
    using inv proposal_by_idD [OF that] by (simp add: write_inv_def)
  have holds: "approval_holds ?cr p ap" if "proposal_by_id ?db i = Some p" "approval_of ?db i = Some ap" for i p ap
    using history_approval_holds [OF inv] proposal_by_idD [OF that(1)] approval_ofD [OF that(2)] by simp
  have approved: "fst (commit_approved ws ?cr reg call now wnow xnow access uo p ap ?db)
      \<noteq> Inl (refused ''approval_mismatch'' [])"
    if "approval_holds ?cr p ap" for p ap
    using that writer_never_mismatch [where db = ?db and m = "[]"]
    by (auto simp: commit_approved_def refused_eq split: option.splits)
  have unapproved: "fst (commit_unapproved ws call now p ?db) \<noteq> Inl (refused ''approval_mismatch'' [])"
    if "proposal_by_id ?db i = Some p" "approval_of ?db i = None" "p_status p \<noteq> EXECUTED"
      "final_code (p_status p) = None" for i p
  proof -
    have "\<forall>ap \<in> set (wr_approvals ?db). ap_proposal ap \<noteq> p_id p"
      using that(2) proposal_by_idD [OF that(1)] by (auto simp: approval_of_def first_where_None)
    then have "p_status p = PENDING" using ok [OF that(1)] open_by_code [OF that(3,4)]
      by (auto simp: proposal_ok_def open_proposal_def)
    then show ?thesis by (simp add: commit_unapproved_def refused_eq)
  qed
  have "final_code st \<noteq> Some ''approval_mismatch''" for st by (cases st) simp_all
  then have "fst (commit_proposal ws ?cr reg call now wnow xnow access uo raw ?db) \<noteq> Inl (refused ''approval_mismatch'' [])"
    using holds approved unapproved
    by (auto simp: commit_proposal_def refused_eq split: option.splits)
  moreover have "problem_of ws ?cr reg now u p ?db \<noteq> Some Digest_Differs" if "proposal_by_id ?db pid = Some p" for p
    using ok [OF that] by (auto simp: problem_of_def proposal_ok_def split: staleness.splits)
  ultimately show ?thesis by auto
qed

section \<open>The commit\<close>

text \<open>C8: A commit that executes found a proposal of the token's own account, grant, client and family,
  approved and not yet carried out, whose approval is of the same person, grant and digest and not
  past its time; the arguments still have that digest; the account may write at that moment; the
  operation found the state it was prepared in and went through, and its result is all that changed in
  the business records.\<close>

theorem commit_sound:
  assumes "commit_proposal ws (ev_crypto ev) reg call now wnow xnow access uo raw (write_history ev b ops) = (res, db')"
    and "newly_executed res"
  shows "\<exists>p ap writer ex b'. parse_id raw = Some (p_id p) \<and>
    proposal_by_id (write_history ev b ops) (p_id p) = Some p \<and> p_status p = APPROVED \<and>
    same_principal p access uo \<and> approval_of (write_history ev b ops) (p_id p) = Some ap \<and>
    ap_user ap = p_user p \<and> ap_grant ap = p_grant p \<and> ap_digest ap = p_digest p \<and>
    digest_of (ev_crypto ev) p = p_digest p \<and> now < ap_expires_at ap \<and>
    asked_writer ws wnow access (wr_access (write_history ev b ops)) = Some writer \<and> u_id writer = p_user p \<and>
    executable_now reg wnow p writer (wr_business (write_history ev b ops)) ex b' \<and>
    wr_business db' = b' \<and> wr_access db' = wr_access (write_history ev b ops) \<and>
    proposal_by_id db' (p_id p) = Some (carried_out xnow (receipt ws ex) p)"
proof -
  let ?db = "write_history ev b ops" and ?cr = "ev_crypto ev"
  note inv = write_history_inv [of ev b ops]
  from commit_cases [OF assms(1)] obtain p writer ex b' where
    p: "parse_id raw = Some (p_id p)" "proposal_by_id ?db (p_id p) = Some p"
    and a: "commit_allowed ws ?cr now wnow access uo p writer ?db"
    and x: "executable_now reg wnow p writer (wr_business ?db) ex b'" "db' = carried_out_db ws call xnow p ex b' ?db"
    by cases (use assms(2) in auto)
  obtain ap where ap: "approval_of ?db (p_id p) = Some ap" "approval_holds ?cr p ap" "\<not> approval_expired_at ap now"
    using a by (auto simp: commit_allowed_def)
  have "proposal_ok ?cr (grants (wr_access ?db)) (wr_approvals ?db) p"
    using inv proposal_by_idD [OF p(2)] by (simp add: write_inv_def)
  then have "p_status p = APPROVED"
    using a approval_ofD [OF ap(1)] by (auto simp: proposal_ok_def commit_allowed_def open_proposal_def)
  moreover have "proposal_by_id db' (p_id p) = Some (carried_out xnow (receipt ws ex) p)"
    using p(2) by (simp add: x(2) carried_out_db_def Let_def proposal_by_id_def first_where_update)
  ultimately show ?thesis
    using p a ap x by (intro exI [of _ p] exI [of _ ap] exI [of _ writer] exI [of _ ex] exI [of _ b'])
      (auto simp: commit_allowed_def approval_holds_def approval_expired_at_def carried_out_db_def Let_def)
qed

theorem commit_sound_witness:
  "\<exists>p. proposal_by_id (notes_after 8) 7 = Some p \<and> p_status p = APPROVED"
proof -
  obtain res db' where r: "note_commit (notes_after 8) = (res, db')" by (rule prod.exhaust)
  with notes_ran(2) have "newly_executed res" by simp
  from commit_sound [of note_settings note_env note_registry None "seconds 2200" "seconds 2200" "seconds 2200"
      example_access "Some example_specialist" "Some (uuid_text 7)" "[]" "take 8 note_ops", OF _ this]
  obtain p where "parse_id (Some (uuid_text 7)) = Some (p_id p)"
    "proposal_by_id (notes_after 8) (p_id p) = Some p" "p_status p = APPROVED"
    using r unfolding notes_after_def note_commit_def note_env_def by auto
  then show ?thesis using parse_id_text [of 7] by auto
qed

lemma store_frame:
  "wr_business (snd (store_proposal ws cr reg call now pid nc u access name corr pd db)) = wr_business db"
  "wr_access (snd (store_proposal ws cr reg call now pid nc u access name corr pd db)) = wr_access db"
  by (simp_all add: store_proposal_def create_proposal_def Let_def)

lemma prepare_body_frame:
  "wr_business (snd (prepare_body ws cr reg call now pid nc access u name raw corr db)) = wr_business db"
  "wr_access (snd (prepare_body ws cr reg call now pid nc access u name raw corr db)) = wr_access db"
  by (simp_all add: prepare_body_def store_frame split: option.split json.split sum.split op_error.split)

lemma prepare_frame:
  "wr_business (snd (prepare_change ws cr reg call now pid nc access u name raw corr db)) = wr_business db"
  "wr_access (snd (prepare_change ws cr reg call now pid nc access u name raw corr db)) = wr_access db"
  using prepare_body_frame [of ws cr reg call now pid nc access u name raw corr db]
  by (auto simp: prepare_change_def split: prod.splits sum.splits)

lemma writer_frame:
  assumes "\<And>v w. work v w db = (res, db') \<Longrightarrow>
      wr_access db' = wr_access db \<and> (wr_business db' \<noteq> wr_business db \<longrightarrow> P)"
    and "as_the_writer ws cr vnow wnow raw work db = (res, db')"
  shows "wr_access db' = wr_access db \<and> (wr_business db' \<noteq> wr_business db \<longrightarrow> P)"
  using assms by (auto simp: as_the_writer_def split: option.splits if_splits)

lemma commit_frame:
  assumes "commit_proposal ws cr reg call now wnow xnow access uo raw db = (res, db')"
  shows "wr_access db' = wr_access db \<and> (wr_business db' \<noteq> wr_business db \<longrightarrow> newly_executed res)"
  using assms by (cases rule: commit_cases) (auto simp: carried_out_db_def Let_def)

text \<open>C11: Whatever a call of the gateway is answered, the tables of the authorization server are as they
  were, and so are the business records, unless it was a commit that executed its proposal now.\<close>

theorem only_commits_change_records:
  assumes "handle ws cr reg loads gk rq db = (res, db')"
  shows "wr_access db' = wr_access db \<and>
    (wr_business db' \<noteq> wr_business db \<longrightarrow> \<not> gq_prepare rq \<and> newly_executed res)"
proof (cases "(res, db') = (fst (handle ws cr reg loads gk rq db), db)")
  case False
  then obtain kvs where "loads (gq_body rq) = Some (JDict kvs)" and
    h: "(res, db') = (if gq_prepare rq then serve_prepare ws cr reg gk (call_correlation gk rq) (bearer rq)
          (text_field ''operation'' kvs) (map_of kvs ''arguments'') db
        else serve_commit ws cr reg gk (call_correlation gk rq) (bearer rq) (text_field ''proposal_id'' kvs) db)"
    using assms by (auto simp: handle_def split: if_splits option.splits json.splits)
  show ?thesis
  proof (cases "gq_prepare rq")
    case True
    then have "serve_prepare ws cr reg gk (call_correlation gk rq) (bearer rq)
          (text_field ''operation'' kvs) (map_of kvs ''arguments'') db = (res, db')" using h by simp
    then have "wr_access db' = wr_access db \<and> (wr_business db' \<noteq> wr_business db \<longrightarrow> False)"
      unfolding serve_prepare_def
      by (rule writer_frame [rotated]) (metis prepare_frame snd_conv)
    then show ?thesis by simp
  next
    case False
    then have "serve_commit ws cr reg gk (call_correlation gk rq) (bearer rq) (text_field ''proposal_id'' kvs) db
      = (res, db')" using h by simp
    then have "wr_access db' = wr_access db \<and> (wr_business db' \<noteq> wr_business db \<longrightarrow> newly_executed res)"
      unfolding serve_commit_def by (rule writer_frame [rotated]) (rule commit_frame)
    then show ?thesis using False by simp
  qed
qed simp

theorem only_commits_change_records_witness: "newly_executed (fst (note_call (notes_after 8)))"
proof -
  obtain res db' where r: "note_call (notes_after 8) = (res, db')" by (rule prod.exhaust)
  then have "wr_business db' \<noteq> wr_business (notes_after 8)"
    using notes_ran(3,4) by (simp add: notes_after_steps(2))
  then show ?thesis
    using only_commits_change_records [OF r [unfolded note_call_def]] r by simp
qed

lemma executed_row:
  assumes c: "commit_proposal ws cr reg call now wnow xnow access uo raw db = (res, db')" "newly_executed res"
    and pid: "parse_id raw = Some pid" and inv: "write_inv cr db"
  obtains p where "proposal_by_id db' pid = Some p" "p_status p = EXECUTED" "res = Inr (executed_answer p False)"
    "write_inv cr db'"
proof -
  from commit_cases [OF c(1)] obtain p writer ex b' where p: "parse_id raw = Some (p_id p)"
    "proposal_by_id db (p_id p) = Some p" "res = Inr (executed_answer (carried_out xnow (receipt ws ex) p) False)"
    "db' = carried_out_db ws call xnow p ex b' db"
    by cases (use c(2) in auto)
  have i: "p_id p = pid" using p(1) pid by simp
  have "proposal_by_id db' pid = Some (carried_out xnow (receipt ws ex) p)"
    using p(2) i by (simp add: p(4) carried_out_db_def Let_def proposal_by_id_def first_where_update)
  moreover have "write_inv cr db'"
    using write_reaches_inv [OF commit_reaches [of cr db ws reg call now wnow xnow access uo raw] inv]
    by (simp add: c(1))
  ultimately show ?thesis by (intro that) (auto simp: p(3))
qed

lemma executed_again:
  assumes c: "commit_proposal ws cr reg call now wnow xnow access uo raw db = (res, db')"
    and pid: "parse_id raw = Some pid" and p: "proposal_by_id db pid = Some p" "p_status p = EXECUTED"
  shows "\<not> newly_executed res \<and> wr_business db' = wr_business db \<and>
    (writes_enabled ws \<longrightarrow> same_principal p access uo \<longrightarrow> res = Inr (executed_answer p True))"
  using assms by (auto simp: commit_proposal_def split: if_splits)

text \<open>C10: A proposal is carried out once. Whatever is called after the commit that executed it, another
  commit of it changes no business record and does not execute; to its own principal it answers the
  stored result again.\<close>

theorem executed_once:
  assumes first: "commit_proposal ws (ev_crypto ev) reg call now wnow xnow access uo raw (write_history ev b ops)
      = (res, db1)" "newly_executed res"
    and same: "parse_id raw = Some pid" "parse_id raw' = Some pid"
    and again: "commit_proposal ws' (ev_crypto ev) reg' call' now' wnow' xnow' access' uo' raw'
      (foldl (write_step ev) db1 later) = (res', db2)"
  shows "\<not> newly_executed res' \<and> wr_business db2 = wr_business (foldl (write_step ev) db1 later) \<and>
    (\<exists>p. res = Inr (executed_answer p False) \<and>
      (writes_enabled ws' \<longrightarrow> same_principal p access' uo' \<longrightarrow> res' = Inr (executed_answer p True)))"
proof -
  obtain p where p: "proposal_by_id db1 pid = Some p" "p_status p = EXECUTED" "res = Inr (executed_answer p False)"
    and inv: "write_inv (ev_crypto ev) db1"
    by (rule executed_row [OF first same(1) write_history_inv])
  have "proposal_over db1 pid" using p(1,2) by (auto simp: proposal_over_def open_proposal_def dest: proposal_by_idD)
  from finished.view_forever [OF inv this] p(1)
  have "proposal_by_id (foldl (write_step ev) db1 later) pid = Some p" by simp
  from executed_again [OF again same(2) this p(2)] p(3) show ?thesis by blast
qed

theorem executed_once_witness:
  "\<not> newly_executed (fst (note_commit (snd (note_commit (notes_after 8)))))"
proof -
  obtain res db1 where r: "note_commit (notes_after 8) = (res, db1)" by (rule prod.exhaust)
  obtain res' db2 where s: "note_commit db1 = (res', db2)" by (rule prod.exhaust)
  from r notes_ran(2) have n: "newly_executed res" by simp
  have seven: "parse_id (Some (uuid_text 7)) = Some 7" by (rule parse_id_text) simp
  from executed_once [of note_settings note_env note_registry None "seconds 2200" "seconds 2200" "seconds 2200"
      example_access "Some example_specialist" "Some (uuid_text 7)" "[]" "take 8 note_ops", OF _ n seven seven,
      where later = "[]" and ws' = note_settings and reg' = note_registry and call' = None]
  have "\<not> newly_executed res'"
    using r s unfolding notes_after_def note_commit_def note_env_def by fastforce
  then show ?thesis by (simp add: r s)
qed



section \<open>The approval page\<close>

text \<open>C9: The page says a change is approved only to its own person, who pressed approve and either gave
  the grant's authenticator code in this visit or one so recently that the window is open; when the
  approval was written the proposal was pending and in time, its grant allowed its person to write and
  the record stood as it was prepared, whatever others did between the page's transactions; and the
  approval names the person, the grant and the digest of that proposal.\<close>

theorem approval_sound:
  assumes visit: "approve_view en reg ck meanwhile uo req pid db = ((page, rec), db')" "says_done page"
    and meanwhile: "\<And>k db. write_reaches (en_crypto en) db (meanwhile k db)"
    and inv: "write_inv (en_crypto en) db"
  shows "\<exists>u g p before during. uo = Some u \<and> q_gate_open req \<and> q_post req \<and> q_decision req = ''kinnita'' \<and>
    u_id u = p_user p \<and> g_id g = p_grant p \<and>
    write_reaches (en_crypto en) db during \<and>
    (recent_holds (en_settings en) (en_keyed en) (ck_recent ck) req u g \<or>
     code_given en ck req u g (wr_access during)) \<and>
    write_reaches (en_crypto en) db before \<and> proposal_by_id before pid = Some p \<and> p_status p = PENDING \<and>
    ck_second ck < p_expires_at p \<and> staleness_of reg (ck_second ck) p u before = Current \<and>
    may_approve (en_settings en) (ck_second ck) u (grant_by_id (wr_access before) (p_grant p)) before \<and>
    proposal_by_id db' pid = Some (marked_approved p) \<and>
    (\<exists>ap. approval_of db' pid = Some ap \<and> matches p ap \<and>
       ap_expires_at ap = ck_second ck + seconds (approval_seconds (en_settings en))) \<and>
    wr_business db' = wr_business before"
proof -
  obtain u p0 g way before dbc where u: "uo = Some u" "q_gate_open req" "q_post req" "q_decision req = ''kinnita''"
    and own: "owned_proposal (en_settings en) (ck_view ck) u pid db = Some (p0, g)"
    and ok: "approve_locked (en_settings en) (en_crypto en) reg (ck_second ck) way (q_ip req) u pid before
       = (Some None, db')"
    and code: "recent_holds (en_settings en) (en_keyed en) (ck_recent ck) req u g \<or>
       code_given en ck req u g (wr_access dbc)"
    and dbc: "write_reaches (en_crypto en) db dbc" and r: "write_reaches (en_crypto en) db before"
    by (rule approve_view_done [where meanwhile = meanwhile, OF visit meanwhile inv])
  let ?ap = "\<lambda>p. new_approval (en_settings en) (ck_second ck) way (q_ip req) u p"
  obtain p where p: "proposal_by_id before pid = Some p"
    "problem_of (en_settings en) (en_crypto en) reg (ck_second ck) u p before = None"
    and new: "\<forall>o' \<in> set (wr_approvals before). ap_proposal o' \<noteq> pid"
    and db': "db' = record_write None Approved_Event True (Some (marked_approved p)) nobody
       [(''method'', JText (method_text way))]
       (save_proposal pid marked_approved (before\<lparr>wr_approvals := wr_approvals before @ [?ap p]\<rparr>))"
    by (rule approve_locked_yes [OF ok])
  note inv' = write_reaches_inv [OF r inv] and unp = unproblematic [OF p(2)] and m = proposal_by_idD [OF p(1)]
  have p0: "p0 \<in> set (wr_proposals db)" "p_id p0 = pid" "p_user p0 = u_id u"
    "grant_by_id (wr_access db) (p_grant p0) = Some g"
    using own by (auto simp: owned_proposal_def dest: proposal_by_idD split: option.splits if_splits)
  obtain q where q: "q \<in> set (wr_proposals before)" "proposal_core q = proposal_core p0"
    using reaches_core [OF r p0(1)] by blast
  have "q = p" using inv' q m p0(2) unique_onD [of p_id "wr_proposals before" q p]
    by (simp add: write_inv_def proposal_core_def)
  then have same: "p_user p = u_id u" "p_grant p = g_id g"
    using q(2) p0 by (auto simp: proposal_core_def grant_by_id_def)
  have "approval_of db' pid = Some (?ap p)"
    using new m by (simp add: db' approval_of_def first_where_append first_where_simps new_approval_def
        first_where_None [THEN iffD2])
  moreover have "matches p (?ap p)" by (simp add: matches_def new_approval_def same)
  moreover have "proposal_by_id db' pid = Some (marked_approved p)"
    using p(1) m by (simp add: db' proposal_by_id_def first_where_update)
  ultimately show ?thesis
    using u code dbc r p(1) unp same
    by (intro exI [of _ u] exI [of _ g] exI [of _ p] exI [of _ before] exI [of _ dbc])
      (auto simp: proposal_expired_at_def db' new_approval_def)
qed

theorem approval_sound_witness:
  "\<exists>p. proposal_by_id (notes_after 8) 7 = Some (marked_approved p) \<and> p_status p = PENDING"
proof -
  let ?en = "page_env_of note_env note_settings"
  obtain page rec db' where r: "note_visit (notes_after 7) = ((page, rec), db')" by (metis prod.exhaust)
  have inv: "write_inv (en_crypto ?en) (notes_after 7)"
    using notes_inv by (simp add: page_env_of_def note_env_def)
  from approval_sound [OF r [unfolded note_visit_def] _ _ inv] notes_ran(1) r
  show ?thesis by (auto simp: notes_after_steps(1))
qed

text \<open>C36: Every visit to the approval page is a sequence of moves of a proposal's life cycle, also when
  others act between its transactions; so every property of histories covers it.\<close>

theorem page_visits_are_moves:
  assumes "\<And>k db. write_reaches (en_crypto en) db (meanwhile k db)" and "write_inv (en_crypto en) db"
  shows "write_reaches (en_crypto en) db (snd (approve_view en reg ck meanwhile uo req pid db)) \<and>
    write_inv (en_crypto en) (snd (approve_view en reg ck meanwhile uo req pid db))"
proof -
  note r = approve_view_reaches [where meanwhile = meanwhile, OF assms]
  show ?thesis using r write_reaches_inv [OF r assms(2)] by blast
qed

theorem page_visits_are_moves_witness:
  "write_inv example_crypto (snd (approve_view (page_env_of note_env note_settings) note_registry (page_at 2100)
     (\<lambda>_. expire_due 7) (Some example_specialist) approve_post 7 (notes_after 7)))"
proof -
  let ?en = "page_env_of note_env note_settings"
  have cr: "en_crypto ?en = example_crypto" by (simp add: page_env_of_def note_env_def)
  have "write_reaches (en_crypto ?en) db (expire_due 7 db)" for db :: "string list write_db" by (rule expire_due_reaches)
  from page_visits_are_moves [where meanwhile = "\<lambda>_. expire_due 7", OF this, of "notes_after 7"]
  show ?thesis using notes_inv unfolding cr by blast
qed

section \<open>What is stored, named and digested\<close>

fun normal_json :: "json \<Rightarrow> bool" where
  \<comment> \<open>the keys of every dictionary in order\<close>
  "normal_json (JList xs) \<longleftrightarrow> list_all normal_json xs"
| "normal_json (JDict kvs) \<longleftrightarrow> sorted (map fst kvs) \<and> list_all (\<lambda>p. normal_json (snd p)) kvs"
| "normal_json _ \<longleftrightarrow> True"

lemma jsonable_normal: "normal_json (jsonable v)"
  by (induction v rule: jsonable.induct) (auto simp: list_all_iff)


text \<open>C38: The id of a proposal, as the gateway hands it out, is read back by the commit as that
  proposal.\<close>

theorem proposal_id_read_back: "n < 2 ^ 128 \<Longrightarrow> parse_id (Some (uuid_text n)) = Some n"
  by (rule parse_id_text)

theorem proposal_id_read_back_witness: "parse_id (Some (uuid_text 7)) = Some 7"
  by (rule proposal_id_read_back) simp

text \<open>C37: A digest determines what it is of: as long as the hash does not collide on the two texts, equal
  digests are of the same operation, the same arguments, the same account and the same grant.\<close>

theorem digest_binds:
  assumes "arguments_digest cr opn v uid gid = arguments_digest cr opn' v' uid' gid'"
    and "inj_on (sha256 cr) {canonical_json (digest_payload opn v uid gid), canonical_json (digest_payload opn' v' uid' gid')}"
    and "uid < 2 ^ 128" "gid < 2 ^ 128" "uid' < 2 ^ 128" "gid' < 2 ^ 128"
  shows "opn = opn' \<and> jsonable v = jsonable v' \<and> uid = uid' \<and> gid = gid'"
proof -
  have "canonical_json (digest_payload opn v uid gid) = canonical_json (digest_payload opn' v' uid' gid')"
    by (rule inj_onD [OF assms(2) assms(1) [unfolded arguments_digest_def]]) simp_all
  then have "jsonable (digest_payload opn v uid gid) = jsonable (digest_payload opn' v' uid' gid')"
    by (simp add: canonical_json_eq)
  then have "opn = opn'" "jsonable v = jsonable v'" "uuid_text uid = uuid_text uid'" "uuid_text gid = uuid_text gid'"
    by (simp_all add: payload_normal)
  then show ?thesis
    using uuid_text_inj [OF assms(3,5)] uuid_text_inj [OF assms(4,6)] by blast
qed

definition text_crypto :: crypto where
  "text_crypto = example_crypto\<lparr>sha256 := id\<rparr>"

theorem digest_binds_witness:
  "arguments_digest text_crypto ''add_note'' (JDict [(''text'', JText ''hi'')]) 1 0
     \<noteq> arguments_digest text_crypto ''add_note'' (JDict [(''text'', JText ''ho'')]) 1 0"
  using digest_binds [of text_crypto "''add_note''" "JDict [(''text'', JText ''hi'')]" 1 0
      "''add_note''" "JDict [(''text'', JText ''ho'')]" 1 0]
  by (auto simp: text_crypto_def)

end
