(* ===== verification/Spec2Isabelle.thy ===== *)
theory Spec2Isabelle
  imports RevocationProperties RequestProperties ConnectionProperties EnrolmentProperties
    DateProperties WorkProperties WriteProperties
begin

text \<open>
  A verification library for Juristid, the case register of a chamber of commerce's legal
  department (a Django application under \<open>src/app\<close>). Three parts of it are modelled: who may do what
  and how a client of the MCP server gets and keeps access, how such a client's changes are prepared,
  approved by their person and committed, and how work on a matter (\<open>teema\<close>) is planned, done,
  monitored and closed. Every definition is a translation of the named source.

  \<^bold>\<open>Conventions.\<close> A string is a list of characters of code points below 256; a function whose text
  needs another character is left out. An instant is an integer number of microseconds and a
  clock reading is the argument \<open>now\<close>; the random values and the keys an operation draws are
  arguments or come from the counter of the state. A service that raises answers \<open>Inl\<close> of an
  \<open>exn\<close>: \<open>Refused\<close> of the reason (one constructor per sentence the code refuses with),
  \<open>IntegrityError\<close> where a statement breaks a constraint of the tables, \<open>DoesNotExist\<close>. A service
  runs in one transaction, so an error leaves the state as it was. A row lock makes the transactions
  on one row take turns, so a service is one step; an interleaving is an order of steps. Tables are
  lists of rows in the order of creation, which is the order of their time-sortable keys.
  Cryptography and digests, the JWT library, Unicode tables and the clock's time zone are
  parameters.

  \<^bold>\<open>Shared.\<close> \<open>Prelude\<close> has Python's strings, the error type, the operations on tables and their
  lemmas; \<open>Interfaces\<close> the contracts, as locales, that more than one component interprets: an
  invariant kept by every step (\<open>step_system\<close>), rows that are final (\<open>final_rows\<close>), values accepted
  only once and in order (\<open>replay_guard\<close>), a bounded number of failures (\<open>guess_budget\<close>).

  \<^bold>\<open>Who may do what.\<close> \<open>Accounts\<close> is \<open>app/core/authorization.py\<close> with \<open>app/accounts/capabilities.py\<close>:
  roles, capabilities with personal overrides and prerequisites, the read scope of matters, child
  records and projected rows, the effective visibility in its SQL and its Python reading.

  \<^bold>\<open>The authorization server\<close> (\<open>app/mcp_access\<close>). \<open>Config\<close> is \<open>config.py\<close>, \<open>Credentials\<close> is
  \<open>credentials.py\<close> with the one-time code of \<open>app/accounts/mfa.py\<close>; \<open>AccessState\<close> the tables of
  \<open>models.py\<close>. \<open>services.py\<close> is \<open>Grants\<close> (giving and ending access), \<open>Operators\<close> (unlocking, the right
  to write, the report), \<open>Enrolment\<close>, \<open>Lockout\<close> (the personal code with its ladder of locks),
  \<open>Authorize\<close> (the throttle and the consent step) and \<open>Tokens\<close> (exchange, refresh with its grace
  period, revocation). \<open>TokenVerification\<close> is \<open>verification.py\<close>, \<open>OAuthRequests\<close> is \<open>oauth.py\<close> and the
  machine endpoints of \<open>views.py\<close>. \<open>AccessMachine\<close> is an abstract machine with an invariant,
  \<open>AccessRefinement\<close> proves every service a sequence of its moves, \<open>AccessSystem\<close> interprets the
  interfaces on the step function of all services, so that \<open>TokenProperties\<close>,
  \<open>RevocationProperties\<close>, \<open>LockoutProperties\<close>, \<open>RequestProperties\<close>, \<open>ConnectionProperties\<close> and
  \<open>EnrolmentProperties\<close> speak of every history of operations. \<open>AccessExample\<close> is the run their
  witnesses evaluate.

  \<^bold>\<open>Changes through the MCP server\<close> (\<open>app/mcp_writes\<close>). \<open>WriteJson\<close> is the JSON of \<open>refusals.py\<close> with
  the scans of a body and of arguments; \<open>WriteState\<close> the tables of \<open>models.py\<close>, the refusals, the
  interface of an operation (\<open>operations/base.py\<close>) and \<open>access.py\<close>; \<open>WriteProposals\<close> is \<open>proposals.py\<close>
  (the digest, the events, \<open>prepare\<close>), \<open>WriteCommit\<close> is \<open>commit.py\<close>, \<open>WriteApproval\<close> is
  \<open>approval_views.py\<close>, \<open>WriteGateway\<close> is \<open>gateway.py\<close>. The state holds the tables of the authorization
  server, so a commit asks the same \<open>writer_for\<close> and the page spends the same code as above; the
  business records are a parameter, of any type, with the operations on them. \<open>WriteMachine\<close> is the life
  of a proposal as an abstract machine with an invariant; \<open>WriteSystem\<close> proves every call and visit a
  sequence of its moves, also when others act between the transactions of a visit, and interprets the
  interfaces on the step function of calls, visits, single transactions, operations of the
  authorization server and changes by others. \<open>WriteFacts\<close> and \<open>WriteTexts\<close> say what an answer tells of
  the state and what a text determines; \<open>WriteProperties\<close>: a change is executed only as its person
  approved it, while the person may write and the record stands as it was prepared, once, and never
  silently. \<open>WriteExample\<close> is the run the witnesses evaluate. JSON numbers are integers, so a state
  that holds a truth value in place of a number, which Python takes as equal, counts as changed.

  \<^bold>\<open>Dates.\<close> \<open>Calendar\<close> is \<open>app/core/dates.py\<close> over Python's \<open>datetime.date\<close>, \<open>Holidays\<close> is
  \<open>app/core/holidays.py\<close>, \<open>Periods\<close> is \<open>app/workflow/dates.py\<close> (a date recorded at a precision stands
  for a period), \<open>Lateness\<close> is \<open>app/workflow/lateness.py\<close>, every rule in its Python reading of one row
  and its SQL reading. \<open>DateProperties\<close>: a written date is read back, periods partition the calendar,
  the two readings agree, consecutive windows share nothing and miss nothing, Easter is the
  Sunday after the paschal full moon of the church's tables.

  \<^bold>\<open>Work on a matter.\<close> \<open>StageFlow\<close> is \<open>app/workflow/stage_flow.py\<close> and \<open>stage_guidance.py\<close>: which stages
  follow which, which end a matter. \<open>WorkState\<close> has the tables of \<open>app/workflow/models.py\<close> with the
  columns the workflow reads of \<open>app/matters/models.py\<close> and \<open>app/submissions/models.py\<close>, and their
  constraints. \<open>WorkActions\<close> is \<open>app/workflow/services.py\<close> (the current and the planned actions),
  \<open>FollowUps\<close> is \<open>follow_ups.py\<close> (the monitoring of a sent opinion), \<open>WorkPlan\<close> is \<open>plan.py\<close>,
  \<open>DateShift\<close> is \<open>app/matters/date_shift.py\<close> and \<open>date_order.py\<close>, \<open>Closure\<close> is
  \<open>app/matters/closure_work.py\<close> with the stage periods, the closing and the reopening of
  \<open>app/matters/services.py\<close>. \<open>WorkInvariant\<close> states the invariant over these tables and what one
  statement does to it; \<open>WorkServices\<close> (with its rules for a computation that \<open>yields\<close> a result) and
  \<open>ClosureServices\<close> show that every service keeps it and touches no ended action; \<open>WorkMachine\<close> has
  one constructor per service and interprets the interfaces on the step function, so that
  \<open>WorkProperties\<close> speaks of every history of calls.

  \<^bold>\<open>Bounds.\<close> No definition takes fuel except the walk along the continuations of a matter, whose
  bound of 200 is the code's own \<open>CYCLE_CHECK_HOPS\<close>; all other loops run over a list.

  \<^bold>\<open>Not modelled.\<close> Pages, forms and templates; the queries of registers, dashboards, timelines and
  search; documents and their storage; the one-off legacy import; the MCP server's readers and the
  ten concrete operations of its writers; the time limit of a gateway call; the intelligence app, which calls a language model; the e-mail it sends. They are
  rendering, SQL or glue around external programs. \<open>short_range\<close>, \<open>date_label\<close> and
  \<open>LiveWork.phrases\<close> build texts with characters beyond the model's.
\<close>

section \<open>The operations refine the abstract machine\<close>

text \<open>C40: every operation of the services is a sequence of moves of the abstract machine.\<close>

theorem operations_refine_machine:
  assumes "access_inv db"
  shows "reaches db (access_step cr db e) \<and> access_inv (access_step cr db e)"
  using access_step_reaches [OF assms] reaches_inv [OF access_step_reaches [OF assms] assms] by blast

theorem operations_refine_machine_witness:
  "reaches (example_after 5) (access_step example_crypto (example_after 5) (example_ops ! 5))"
proof -
  have "access_inv (example_after 5)" unfolding example_after_def by (rule history_inv)
  from operations_refine_machine [OF this] show ?thesis by blast
qed

end
